(* ===== verification/Prelude.thy ===== *)
theory Prelude
  imports Main "HOL-Library.Multiset" "HOL-Library.AList" "HOL-Library.Word" "HOL-Library.Sublist"
begin

text \<open>
  Prelude of the InstaScale development: the fact collections the component theories share,
  the integer widths of the Go code, Go's string-to-string maps, and the generic lemmas on lists.

  \<^item> \<open>go_simps\<close> collects the rewriting rules of the program monad (theory GoMonad);
  \<^item> \<open>emits_intros\<close> collects the compositional rules for the trace of external calls (GoMonad);
  \<^item> \<open>frame_intros\<close> collects the compositional rules for parts of the state that a program keeps;
  \<^item> \<open>int32\<close> is Go's \<open>int32\<close>; Go's 64-bit \<open>int\<close> is \<^typ>\<open>int\<close>, since the controllers only
    compare values of type \<open>int\<close>, add list indexes, and convert them to \<open>int32\<close> (which truncates,
    and is written \<^const>\<open>word_of_int\<close>).
\<close>

named_theorems go_simps \<open>rewriting rules of the program monad\<close>
named_theorems emits_intros \<open>which external calls a program can issue\<close>
named_theorems frame_intros \<open>which parts of the state a program keeps\<close>

type_synonym int32 = "32 word"

subsection \<open>Go maps from strings to strings\<close>

text \<open>
  A value of type \<open>map[string]string\<close> is nil (\<^const>\<open>None\<close>) or a map, kept as an association list
  whose keys are distinct; the order of the list is the order of one iteration. Reading a nil map
  finds nothing, and writing to one panics, so the writing operation is the partial
  \<^verbatim>\<open>dict_set\<close>.
\<close>

type_synonym dict = "(string \<times> string) list option"

fun dict_entries :: "dict \<Rightarrow> (string \<times> string) list" where
  "dict_entries None = []"
| "dict_entries (Some kvs) = kvs"

definition dict_get :: "dict \<Rightarrow> string \<Rightarrow> string option" where
  "dict_get d k = map_of (dict_entries d) k"

text \<open>\<open>m[k]\<close> as an expression: the zero value where the key is missing.\<close>

definition dict_index :: "dict \<Rightarrow> string \<Rightarrow> string" where
  "dict_index d k = (case dict_get d k of None \<Rightarrow> [] | Some v \<Rightarrow> v)"

fun dict_set :: "dict \<Rightarrow> string \<Rightarrow> string \<Rightarrow> dict option" where
  "dict_set None k v = None"
| "dict_set (Some kvs) k v = Some (Some (AList.update k v kvs))"

definition dict_ok :: "dict \<Rightarrow> bool" where
  "dict_ok d = distinct (map fst (dict_entries d))"

lemma dict_get_None [simp]: "dict_get None k = None"
  by (simp add: dict_get_def)

lemma dict_get_Nil [simp]: "dict_get (Some []) k = None"
  by (simp add: dict_get_def)

lemma dict_get_Cons [simp]:
  "dict_get (Some ((k', v) # kvs)) k = (if k = k' then Some v else dict_get (Some kvs) k)"
  by (simp add: dict_get_def)

lemma dict_set_get: "dict_set d k v = Some d' \<Longrightarrow> dict_get d' = (dict_get d)(k \<mapsto> v)"
  by (cases d) (auto simp: dict_get_def update_conv')

lemma dict_set_ok: "dict_set d k v = Some d' \<Longrightarrow> dict_ok d \<Longrightarrow> dict_ok d'"
  by (cases d) (auto simp: dict_ok_def distinct_update)

lemma dict_set_Some_iff: "(\<exists>d'. dict_set d k v = Some d') \<longleftrightarrow> d \<noteq> None"
  by (cases d) auto

text \<open>
  Where the keys are distinct, a loop \<open>for k, v := range m\<close> whose body only acts at one key does
  what a lookup does, whatever the order of the iteration.
\<close>

lemma dict_range_lookup:
  assumes "dict_ok d"
  shows "(\<exists>kv \<in> set (dict_entries d). fst kv = k \<and> P (snd kv)) \<longleftrightarrow>
    (case dict_get d k of None \<Rightarrow> False | Some v \<Rightarrow> P v)"
proof -
  have entry: "(k, v) \<in> set (dict_entries d) \<longleftrightarrow> dict_get d k = Some v" for v
    using assms by (simp add: dict_get_def dict_ok_def)
  have "(\<exists>kv \<in> set (dict_entries d). fst kv = k \<and> P (snd kv)) \<longleftrightarrow>
      (\<exists>v. (k, v) \<in> set (dict_entries d) \<and> P v)"
    by force
  then show ?thesis by (simp add: entry split: option.splits)
qed

subsection \<open>Lists\<close>

lemma filter_eq_takeWhile_dropWhile_Nil:
  "(\<forall>x \<in> set xs. \<not> P x) \<Longrightarrow> filter P xs = []"
  by simp

lemma sum_list_word_of_int:
  "sum_list (map (\<lambda>x. word_of_int (f x)) xs) = (word_of_int (sum_list (map f xs)) :: 'a::len word)"
  by (induction xs) simp_all

text \<open>Signed 32-bit values: a conversion is exact within the range.\<close>

lemma sint_word_of_int32:
  assumes "- (2 ^ 31) \<le> i" "i < 2 ^ 31"
  shows "sint (word_of_int i :: int32) = i"
proof -
  have "signed_take_bit 31 i = i"
    using assms by (simp add: signed_take_bit_int_eq_self_iff)
  then show ?thesis by (simp add: sint_sbintrunc')
qed

end
