(* ===== verification/GoMonad.thy ===== *)
theory GoMonad
  imports Prelude
begin

text \<open>
  Go functions as programs over an explicit state. A program takes the state and either returns
  a value or panics (nil dereference, index out of range, write to a nil map); in both cases it
  leaves a state, since the calls made before a panic have happened. Go's \<open>error\<close> results are
  ordinary values of the programs, as in the source. \<open>for_each\<close> is Go's \<open>for ... range\<close> loop
  with \<open>continue\<close>, \<open>break\<close> and \<open>return\<close>; \<open>deferred\<close> runs a deferred call at the end, on a panic too.

  The locale \<open>program_order\<close> is the interface through which the components prove facts of the
  form "every step of this program stays within R" (it only issues certain calls, it keeps certain
  fields): it asks for a reflexive and transitive relation on states and gives one rule for
  each program combinator.
\<close>

datatype 'a outcome = Ok 'a | Panic string

type_synonym ('s, 'a) prog = "'s \<Rightarrow> 'a outcome \<times> 's"

definition ret :: "'a \<Rightarrow> ('s, 'a) prog" where
  "ret x = (\<lambda>s. (Ok x, s))"

definition panic :: "string \<Rightarrow> ('s, 'a) prog" where
  "panic msg = (\<lambda>s. (Panic msg, s))"

definition bnd :: "('s, 'a) prog \<Rightarrow> ('a \<Rightarrow> ('s, 'b) prog) \<Rightarrow> ('s, 'b) prog" where
  "bnd m k = (\<lambda>s. case m s of (Ok x, s') \<Rightarrow> k x s' | (Panic msg, s') \<Rightarrow> (Panic msg, s'))"

definition gets :: "('s \<Rightarrow> 'a) \<Rightarrow> ('s, 'a) prog" where
  "gets f = (\<lambda>s. (Ok (f s), s))"

definition modify :: "('s \<Rightarrow> 's) \<Rightarrow> ('s, unit) prog" where
  "modify f = (\<lambda>s. (Ok (), f s))"

text \<open>\<open>deferred d m\<close>: \<open>m\<close> with the deferred call \<open>d\<close>, which runs when \<open>m\<close> returns or panics.\<close>

definition deferred :: "('s, unit) prog \<Rightarrow> ('s, 'a) prog \<Rightarrow> ('s, 'a) prog" where
  "deferred d m = (\<lambda>s. case m s of (r, s') \<Rightarrow>
     (case d s' of (Ok _, s'') \<Rightarrow> (r, s'') | (Panic msg, s'') \<Rightarrow> (Panic msg, s'')))"

text \<open>Dereference of a pointer that may be nil.\<close>

definition deref :: "'a option \<Rightarrow> ('s, 'a) prog" where
  "deref p = (case p of None \<Rightarrow> panic ''nil pointer dereference'' | Some x \<Rightarrow> ret x)"

text \<open>A slice read \<open>xs[i]\<close> panics out of range.\<close>

definition index_at :: "'a list \<Rightarrow> nat \<Rightarrow> ('s, 'a) prog" where
  "index_at xs i = (if i < length xs then ret (xs ! i) else panic ''index out of range'')"

text \<open>A map write panics on a nil map.\<close>

definition set_entry :: "dict \<Rightarrow> string \<Rightarrow> string \<Rightarrow> ('s, dict) prog" where
  "set_entry d k v = (case dict_set d k v of
     None \<Rightarrow> panic ''assignment to entry in nil map'' | Some d' \<Rightarrow> ret d')"

subsection \<open>Loops\<close>

text \<open>
  The body of a loop gets the element and the loop's own variables, and says how to go on:
  with the next element, out of the loop, or out of the function. The loop's result is the value
  of its variables, or the value the function returns.
\<close>

datatype ('l, 'r) ctl = Next 'l | Break 'l | Return 'r

fun for_each :: "'a list \<Rightarrow> ('a \<Rightarrow> 'l \<Rightarrow> ('s, ('l, 'r) ctl) prog) \<Rightarrow> 'l \<Rightarrow> ('s, 'l + 'r) prog" where
  "for_each [] body l = ret (Inl l)"
| "for_each (x # xs) body l =
     bnd (body x l) (\<lambda>c. case c of
       Next l' \<Rightarrow> for_each xs body l'
     | Break l' \<Rightarrow> ret (Inl l')
     | Return r \<Rightarrow> ret (Inr r))"

text \<open>The end of an inner loop seen from the body of the outer one.\<close>

fun loop_ctl :: "'l + 'r \<Rightarrow> ('l, 'r) ctl" where
  "loop_ctl (Inl l) = Next l"
| "loop_ctl (Inr r) = Return r"

text \<open>The statements that follow a loop.\<close>

definition after_loop :: "('s, 'l + 'r) prog \<Rightarrow> ('l \<Rightarrow> ('s, 'r) prog) \<Rightarrow> ('s, 'r) prog" where
  "after_loop m k = bnd m (\<lambda>z. case z of Inl l \<Rightarrow> k l | Inr r \<Rightarrow> ret r)"

text \<open>A loop whose body always goes on, without variables of its own.\<close>

fun do_each :: "'a list \<Rightarrow> ('a \<Rightarrow> ('s, unit) prog) \<Rightarrow> ('s, unit) prog" where
  "do_each [] body = ret ()"
| "do_each (x # xs) body = bnd (body x) (\<lambda>_. do_each xs body)"

subsection \<open>Rewriting rules\<close>

lemma ret_run [go_simps]: "ret x s = (Ok x, s)"
  by (simp add: ret_def)

lemma panic_run [go_simps]: "panic msg s = (Panic msg, s)"
  by (simp add: panic_def)

lemma gets_run [go_simps]: "gets f s = (Ok (f s), s)"
  by (simp add: gets_def)

lemma modify_run [go_simps]: "modify f s = (Ok (), f s)"
  by (simp add: modify_def)

lemma bnd_run [go_simps]:
  "bnd m k s = (case m s of (Ok x, s') \<Rightarrow> k x s' | (Panic msg, s') \<Rightarrow> (Panic msg, s'))"
  by (simp add: bnd_def)

lemma deref_simps [go_simps]:
  "deref (Some x) = ret x"
  "deref None = panic ''nil pointer dereference''"
  by (simp_all add: deref_def)

lemma bnd_ret [go_simps]: "bnd (ret x) k = k x"
  by (simp add: bnd_def ret_def)

lemma bnd_panic [go_simps]: "bnd (panic msg) k = panic msg"
  by (simp add: bnd_def panic_def fun_eq_iff)

lemma bnd_assoc: "bnd (bnd m k) h = bnd m (\<lambda>x. bnd (k x) h)"
  by (auto simp: bnd_def fun_eq_iff split: prod.splits outcome.splits)

lemma bnd_ret_right: "bnd m ret = m"
  by (auto simp: bnd_def ret_def fun_eq_iff split: prod.splits outcome.splits)

lemma bnd_OkE:
  assumes "bnd m k s = (Ok y, t)"
  obtains x u where "m s = (Ok x, u)" "k x u = (Ok y, t)"
  using assms by (auto simp: bnd_def split: prod.splits outcome.splits)


subsection \<open>Programs whose every step stays within a relation\<close>

definition stays_in :: "('s \<Rightarrow> 's \<Rightarrow> bool) \<Rightarrow> ('s, 'a) prog \<Rightarrow> bool" where
  "stays_in R m \<longleftrightarrow> (\<forall>s. R s (snd (m s)))"

locale program_order =
  fixes R :: "'s \<Rightarrow> 's \<Rightarrow> bool"
  assumes order_refl: "R s s"
    and order_trans: "R s t \<Longrightarrow> R t u \<Longrightarrow> R s u"
begin

lemma stays_ret: "stays_in R (ret x)"
  by (simp add: stays_in_def ret_def order_refl)

lemma stays_panic: "stays_in R (panic msg)"
  by (simp add: stays_in_def panic_def order_refl)

lemma stays_gets: "stays_in R (gets f)"
  by (simp add: stays_in_def gets_def order_refl)

lemma stays_deref: "stays_in R (deref p)"
  by (cases p) (simp_all add: deref_def stays_ret stays_panic)

lemma stays_index: "stays_in R (index_at xs i)"
  by (simp add: index_at_def stays_ret stays_panic)

lemma stays_set_entry: "stays_in R (set_entry d k v)"
  by (cases "dict_set d k v") (simp_all add: set_entry_def stays_ret stays_panic)

lemma stays_bnd_Ok:
  assumes m: "stays_in R m" and k: "\<And>s x t. m s = (Ok x, t) \<Longrightarrow> stays_in R (k x)"
  shows "stays_in R (bnd m k)"
  unfolding stays_in_def
proof
  fix s
  obtain r t where mt: "m s = (r, t)" by (cases "m s")
  have st: "R s t" using m mt by (metis snd_conv stays_in_def)
  show "R s (snd (bnd m k s))"
  proof (cases r)
    case (Ok x)
    with mt have "stays_in R (k x)" by (auto intro: k)
    then have "R t (snd (k x t))" by (simp add: stays_in_def)
    with st mt Ok show ?thesis by (auto simp: bnd_def intro: order_trans)
  next
    case (Panic msg)
    with st mt show ?thesis by (simp add: bnd_def)
  qed
qed

lemma stays_bnd: "stays_in R m \<Longrightarrow> (\<And>x. stays_in R (k x)) \<Longrightarrow> stays_in R (bnd m k)"
  by (rule stays_bnd_Ok)

lemma stays_deferred:
  assumes "stays_in R d" "stays_in R m"
  shows "stays_in R (deferred d m)"
  unfolding stays_in_def
proof
  fix s
  obtain r t where mt: "m s = (r, t)" by (cases "m s")
  obtain q u where du: "d t = (q, u)" by (cases "d t")
  have "R s t" "R t u"
    using assms mt du by (metis snd_conv stays_in_def)+
  then have "R s u" by (rule order_trans)
  with mt du show "R s (snd (deferred d m s))"
    by (cases q) (simp_all add: deferred_def)
qed

lemma stays_if:
  "(b \<Longrightarrow> stays_in R m) \<Longrightarrow> (\<not> b \<Longrightarrow> stays_in R n) \<Longrightarrow> stays_in R (if b then m else n)"
  by simp

lemma stays_option:
  "(p = None \<Longrightarrow> stays_in R m) \<Longrightarrow> (\<And>x. p = Some x \<Longrightarrow> stays_in R (k x)) \<Longrightarrow>
    stays_in R (case p of None \<Rightarrow> m | Some x \<Rightarrow> k x)"
  by (simp split: option.split)

lemma stays_sum:
  "(\<And>x. p = Inl x \<Longrightarrow> stays_in R (h x)) \<Longrightarrow> (\<And>x. p = Inr x \<Longrightarrow> stays_in R (k x)) \<Longrightarrow>
    stays_in R (case p of Inl x \<Rightarrow> h x | Inr x \<Rightarrow> k x)"
  by (simp split: sum.split)

lemma stays_pair:
  "(\<And>x y. p = (x, y) \<Longrightarrow> stays_in R (k x y)) \<Longrightarrow> stays_in R (case p of (x, y) \<Rightarrow> k x y)"
  by (simp split: prod.split)

lemma stays_for_each:
  "(\<And>x l. x \<in> set xs \<Longrightarrow> stays_in R (body x l)) \<Longrightarrow> stays_in R (for_each xs body l)"
proof (induction xs arbitrary: l)
  case Nil
  show ?case by (simp add: stays_ret)
next
  case (Cons x xs)
  have body: "stays_in R (body x l)" by (rule Cons.prems) simp
  have rest: "stays_in R (for_each xs body l')" for l'
    by (rule Cons.IH) (simp add: Cons.prems)
  show ?case
    unfolding for_each.simps
    by (rule stays_bnd [OF body]) (auto simp: rest stays_ret split: ctl.splits)
qed

lemma stays_do_each:
  "(\<And>x. x \<in> set xs \<Longrightarrow> stays_in R (body x)) \<Longrightarrow> stays_in R (do_each xs body)"
  by (induction xs) (auto intro: stays_ret stays_bnd)

lemma stays_let: "stays_in R (k x) \<Longrightarrow> stays_in R (let y = x in k y)"
  by simp

lemma stays_after_loop:
  "stays_in R m \<Longrightarrow> (\<And>l. stays_in R (k l)) \<Longrightarrow> stays_in R (after_loop m k)"
  unfolding after_loop_def
  by (rule stays_bnd) (auto intro: stays_sum stays_ret)

lemmas stays_rules = stays_ret stays_panic stays_gets stays_deref stays_index stays_set_entry
  stays_bnd stays_deferred stays_if stays_option stays_sum stays_pair stays_for_each stays_do_each stays_let
  stays_after_loop

end

text \<open>
  A field \<open>f\<close> of the state that a program keeps: the relation "same \<open>f\<close>" is a program order.
\<close>

definition same :: "('s \<Rightarrow> 'v) \<Rightarrow> 's \<Rightarrow> 's \<Rightarrow> bool" where
  "same f s t \<longleftrightarrow> f t = f s"

interpretation keeps: program_order "same f" for f :: "'s \<Rightarrow> 'v"
  by unfold_locales (simp_all add: same_def)

lemmas keeps_rules [frame_intros] = keeps.stays_rules

lemma keeps_modify: "(\<And>s. f (g s) = f s) \<Longrightarrow> stays_in (same f) (modify g)"
  by (simp add: stays_in_def same_def modify_def)

lemma keepsD: "stays_in (same f) m \<Longrightarrow> m s = (r, t) \<Longrightarrow> f t = f s"
  by (metis same_def snd_conv stays_in_def)

subsection \<open>Total weakest preconditions\<close>

text \<open>
  \<open>wp m Q E s\<close>: from \<open>s\<close>, the program \<open>m\<close> returns with \<open>Q\<close>, or panics with \<open>E\<close>. With
  \<open>E = (\<lambda>_. False)\<close> it says that the program does not panic.
\<close>

definition wp :: "('s, 'a) prog \<Rightarrow> ('a \<Rightarrow> 's \<Rightarrow> bool) \<Rightarrow> ('s \<Rightarrow> bool) \<Rightarrow> 's \<Rightarrow> bool" where
  "wp m Q E s = (case m s of (Ok x, t) \<Rightarrow> Q x t | (Panic _, t) \<Rightarrow> E t)"

lemma wp_ret [simp]: "wp (ret x) Q E s = Q x s"
  by (simp add: wp_def ret_def)

lemma wp_panic [simp]: "wp (panic msg) Q E s = E s"
  by (simp add: wp_def panic_def)

lemma wp_gets [simp]: "wp (gets f) Q E s = Q (f s) s"
  by (simp add: wp_def gets_def)

lemma wp_modify [simp]: "wp (modify f) Q E s = Q () (f s)"
  by (simp add: wp_def modify_def)

lemma wp_bnd [simp]: "wp (bnd m k) Q E s = wp m (\<lambda>x. wp (k x) Q E) E s"
  by (auto simp: wp_def bnd_def split: prod.splits outcome.splits)

lemma wp_deref [simp]:
  "wp (deref p) Q E s = (case p of None \<Rightarrow> E s | Some x \<Rightarrow> Q x s)"
  by (simp add: deref_def split: option.splits)

lemma wp_set_entry [simp]:
  "wp (set_entry d k v) Q E s = (case dict_set d k v of None \<Rightarrow> E s | Some d' \<Rightarrow> Q d' s)"
  by (simp add: set_entry_def split: option.splits)

lemma wp_index_at [simp]:
  "wp (index_at xs i) Q E s = (if i < length xs then Q (xs ! i) s else E s)"
  by (simp add: index_at_def)

lemma wp_mono:
  "wp m Q E s \<Longrightarrow> (\<And>x t. Q x t \<Longrightarrow> Q' x t) \<Longrightarrow> (\<And>t. E t \<Longrightarrow> E' t) \<Longrightarrow> wp m Q' E' s"
  by (auto simp: wp_def split: prod.splits outcome.splits)

text \<open>The loop rule: \<open>I\<close> holds before each iteration, and whichever way the body ends is covered.\<close>

lemma wp_for_each:
  assumes "I l s"
    and "\<And>x l s. x \<in> set xs \<Longrightarrow> I l s \<Longrightarrow>
      wp (body x l) (\<lambda>c t. case c of Next l' \<Rightarrow> I l' t | Break l' \<Rightarrow> Q (Inl l') t | Return r \<Rightarrow> Q (Inr r) t) E s"
    and "\<And>l s. I l s \<Longrightarrow> Q (Inl l) s"
  shows "wp (for_each xs body l) Q E s"
  using assms(1,2)
proof (induction xs arbitrary: l s)
  case Nil
  then show ?case by (simp add: assms(3))
next
  case (Cons x xs)
  have step: "wp (body x l) (\<lambda>c t. case c of Next l' \<Rightarrow> I l' t | Break l' \<Rightarrow> Q (Inl l') t
      | Return r \<Rightarrow> Q (Inr r) t) E s"
    by (rule Cons.prems(2)) (simp_all add: Cons.prems(1))
  have rest: "I l' t \<Longrightarrow> wp (for_each xs body l') Q E t" for l' t
    by (rule Cons.IH) (simp_all add: Cons.prems(2))
  show ?case
    unfolding for_each.simps wp_bnd
    by (rule wp_mono [OF step]) (auto simp: rest split: ctl.splits)
qed

text \<open>Invariants of loops without control flow, and of deferred calls.\<close>

lemma wp_do_each:
  assumes "I [] s"
    and "\<And>ys x zs s. xs = ys @ x # zs \<Longrightarrow> I ys s \<Longrightarrow> wp (body x) (\<lambda>_ t. I (ys @ [x]) t) E s"
    and "\<And>s. I xs s \<Longrightarrow> Q () s"
  shows "wp (do_each xs body) Q E s"
proof -
  have "wp (do_each zs body) Q E s" if "xs = ys @ zs" "I ys s" for ys zs s
    using that
  proof (induction zs arbitrary: ys s)
    case Nil
    then show ?case by (simp add: assms(3))
  next
    case (Cons x zs)
    have "wp (body x) (\<lambda>_ t. I (ys @ [x]) t) E s"
      using Cons.prems by (rule assms(2))
    then show ?case
      unfolding do_each.simps wp_bnd
      by (rule wp_mono) (use Cons.prems(1) in \<open>auto intro: Cons.IH [of "ys @ [x]" for x]\<close>)
  qed
  from this [of "[]" xs s] assms(1) show ?thesis by simp
qed

lemma wp_deferred:
  assumes "wp m (\<lambda>x t. wp d (\<lambda>_ u. Q x u) E t) (\<lambda>t. wp d (\<lambda>_ u. E u) E t) s"
  shows "wp (deferred d m) Q E s"
  using assms by (auto simp: wp_def deferred_def split: prod.splits outcome.splits)

lemma wpD: "wp m Q E s \<Longrightarrow> m s = (Ok x, t) \<Longrightarrow> Q x t"
  by (simp add: wp_def)

lemma wp_True [simp]: "wp m (\<lambda>_ _. True) (\<lambda>_. True) s"
  by (simp add: wp_def split: prod.split outcome.split)

subsection \<open>Runs that return\<close>

lemma deferred_OkE:
  assumes "deferred d m s = (Ok x, u)"
  obtains t where "m s = (Ok x, t)" "d t = (Ok (), u)"
  using assms by (auto simp: deferred_def split: prod.splits outcome.splits)

lemma after_loop_OkE:
  assumes "after_loop m k s = (Ok x, u)"
  obtains (finished) l t where "m s = (Ok (Inl l), t)" "k l t = (Ok x, u)"
    | (returned) "m s = (Ok (Inr x), u)"
  using assms
  by (auto simp: after_loop_def bnd_def ret_def split: prod.splits outcome.splits sum.splits)

lemma for_each_ConsE:
  assumes "for_each (x # xs) body l s = (Ok z, u)"
  obtains (continued) l' t where "body x l s = (Ok (Next l'), t)" "for_each xs body l' t = (Ok z, u)"
    | (broken) l' where "body x l s = (Ok (Break l'), u)" "z = Inl l'"
    | (returned) r where "body x l s = (Ok (Return r), u)" "z = Inr r"
  using assms
  by (auto simp: bnd_def ret_def split: prod.splits outcome.splits ctl.splits)

lemma ret_Ok [simp]: "ret x s = (Ok y, t) \<longleftrightarrow> y = x \<and> t = s"
  by (auto simp: ret_def)

lemma panic_Ok [simp]: "panic msg s = (Ok y, t) \<longleftrightarrow> False"
  by (simp add: panic_def)

lemma gets_Ok [simp]: "gets f s = (Ok y, t) \<longleftrightarrow> y = f s \<and> t = s"
  by (auto simp: gets_def)

lemma modify_Ok [simp]: "modify f s = (Ok y, t) \<longleftrightarrow> t = f s"
  by (auto simp: modify_def)

lemma bnd_Ok:
  "bnd m k s = (Ok y, u) \<longleftrightarrow> (\<exists>x t. m s = (Ok x, t) \<and> k x t = (Ok y, u))"
  by (auto simp: bnd_def split: prod.splits outcome.splits)

lemma set_entry_Ok: "set_entry d k v s = (Ok d', t) \<Longrightarrow> dict_set d k v = Some d' \<and> t = s"
  by (auto simp: set_entry_def split: option.splits)

end
