(* ===== verification/GoLib.thy ===== *)
theory GoLib
  imports Prelude "HOL-Library.Char_ord" "HOL-Library.List_Lexorder"
begin

text \<open>
  What the controllers use of Go's standard library, on strings as lists of bytes: \<open>strings.Split\<close>
  with a one-byte separator, \<open>strings.Contains\<close>, \<open>strings.ToLower\<close> (its ASCII case),
  \<open>strconv.FormatInt\<close> in base 10, \<open>strconv.Atoi\<close>, the \<open>%04x\<close> verb of \<open>fmt\<close>, Go's \<open>error\<close>
  values, and the order in which \<open>range\<close> visits a map, which Go leaves open: it is computed from a
  list of arbitrary choices, and every order of the keys is the order of some list of choices.
  Go compares strings byte by byte, which is the order \<open><\<close> that \<^verbatim>\<open>List_Lexorder\<close> and
  \<^verbatim>\<open>Char_ord\<close> give to \<^typ>\<open>string\<close>.
\<close>

subsection \<open>Errors\<close>

datatype num_error_kind = ErrSyntax | ErrRange

text \<open>
  \<open>Foreign r t\<close> is an error of a client library, with its reason and text; \<open>Errorf p e\<close> is
  \<open>fmt.Errorf\<close> with the format \<open>p: %v\<close>.
\<close>

datatype go_error = Foreign string string | NumError string num_error_kind | Errorf string go_error

subsection \<open>Splitting, joining, searching\<close>

fun split_on :: "char \<Rightarrow> string \<Rightarrow> string list" where
  "split_on c [] = [[]]"
| "split_on c (x # xs) =
     (if x = c then [] # split_on c xs
      else (case split_on c xs of [] \<Rightarrow> [[x]] | p # ps \<Rightarrow> (x # p) # ps))"

fun join_with :: "char \<Rightarrow> string list \<Rightarrow> string" where
  "join_with c [] = []"
| "join_with c [p] = p"
| "join_with c (p # q # ps) = p @ c # join_with c (q # ps)"

lemma split_on_nonempty [simp]: "split_on c s \<noteq> []"
  by (induction s) (auto split: list.splits)

lemma join_with_Cons: "ps \<noteq> [] \<Longrightarrow> join_with c (p # ps) = p @ c # join_with c ps"
  by (cases ps) simp_all

lemma join_split_on: "join_with c (split_on c s) = s"
proof (induction s)
  case Nil
  show ?case by simp
next
  case (Cons x xs)
  obtain p ps where s: "split_on c xs = p # ps"
    by (cases "split_on c xs") auto
  show ?case
  proof (cases "x = c")
    case True
    with Cons show ?thesis by (simp add: join_with_Cons)
  next
    case False
    with Cons s show ?thesis by (cases ps) simp_all
  qed
qed

lemma split_on_pieces: "p \<in> set (split_on c s) \<Longrightarrow> c \<notin> set p"
  by (induction s arbitrary: p) (auto split: list.splits if_splits)

lemma split_on_plain: "c \<notin> set s \<Longrightarrow> split_on c s = [s]"
  by (induction s) auto

lemma split_on_append: "c \<notin> set p \<Longrightarrow> split_on c (p @ c # s) = p # split_on c s"
  by (induction p) auto

lemma split_join_with:
  "ps \<noteq> [] \<Longrightarrow> (\<forall>p \<in> set ps. c \<notin> set p) \<Longrightarrow> split_on c (join_with c ps) = ps"
  by (induction c ps rule: join_with.induct) (simp_all add: split_on_plain split_on_append)

fun str_contains :: "string \<Rightarrow> string \<Rightarrow> bool" where
  "str_contains [] sub = (sub = [])"
| "str_contains (x # xs) sub = (prefix sub (x # xs) \<or> str_contains xs sub)"

lemma str_contains_sublist: "str_contains s sub \<longleftrightarrow> sublist sub s"
  by (induction s) (auto simp: sublist_Cons_right)

subsection \<open>Lower case\<close>

definition lower_char :: "char \<Rightarrow> char" where
  "lower_char c = (if CHR ''A'' \<le> c \<and> c \<le> CHR ''Z'' then char_of (of_char c + (32 :: nat)) else c)"

definition to_lower :: "string \<Rightarrow> string" where
  "to_lower s = map lower_char s"

subsection \<open>Decimal numbers\<close>

fun format_nat :: "nat \<Rightarrow> string" where
  "format_nat n = (if n < 10 then [char_of (48 + n)] else format_nat (n div 10) @ [char_of (48 + n mod 10)])"

declare format_nat.simps [simp del]

definition format_int :: "int \<Rightarrow> string" where
  "format_int i = (if i < 0 then CHR ''-'' # format_nat (nat (- i)) else format_nat (nat i))"

definition digit_of :: "char \<Rightarrow> nat option" where
  "digit_of c = (let n = of_char c in if 48 \<le> n \<and> n \<le> 57 then Some (n - 48) else None)"

text \<open>
  The loop of \<open>strconv.ParseUint\<close> in base 10: it stops at the first byte that is no digit, and at
  the first prefix whose value needs more than 64 bits.
\<close>

fun parse_uint :: "int \<Rightarrow> string \<Rightarrow> num_error_kind + int" where
  "parse_uint acc [] = Inr acc"
| "parse_uint acc (c # cs) = (case digit_of c of
     None \<Rightarrow> Inl ErrSyntax
   | Some d \<Rightarrow> if 2 ^ 64 \<le> acc * 10 + int d then Inl ErrRange else parse_uint (acc * 10 + int d) cs)"

definition parse_sign :: "string \<Rightarrow> bool \<times> string" where
  "parse_sign s = (case s of [] \<Rightarrow> (False, [])
     | c # cs \<Rightarrow> if c = CHR ''-'' then (True, cs) else if c = CHR ''+'' then (False, cs) else (False, s))"

definition atoi :: "string \<Rightarrow> go_error + int" where
  "atoi s = (case parse_sign s of (neg, ds) \<Rightarrow>
     if ds = [] then Inl (NumError s ErrSyntax)
     else (case parse_uint 0 ds of
       Inl e \<Rightarrow> Inl (NumError s e)
     | Inr n \<Rightarrow>
         if neg then (if 2 ^ 63 < n then Inl (NumError s ErrRange) else Inr (- n))
         else (if 2 ^ 63 \<le> n then Inl (NumError s ErrRange) else Inr n)))"

lemma digit_of_digit: "d < 10 \<Longrightarrow> digit_of (char_of (48 + d)) = Some d"
  by (simp add: digit_of_def of_char_of)

lemma format_nat_nonempty: "format_nat n \<noteq> []"
  by (subst format_nat.simps) simp

lemma format_nat_digits: "c \<in> set (format_nat n) \<Longrightarrow> \<exists>d < (10::nat). c = char_of (48 + d)"
proof (induction n rule: format_nat.induct)
  case (1 n)
  show ?case
  proof (cases "n < 10")
    case True
    with 1 show ?thesis by (auto simp: format_nat.simps [of n])
  next
    case False
    then consider "c \<in> set (format_nat (n div 10))" | "c = char_of (48 + n mod 10)"
      using "1.prems" by (auto simp: format_nat.simps [of n])
    then show ?thesis
    proof cases
      case 1
      with "1.IH" False show ?thesis by blast
    next
      case 2
      then show ?thesis by (intro exI [of _ "n mod 10"]) simp
    qed
  qed
qed

lemma parse_uint_append:
  "parse_uint acc (s @ t) = (case parse_uint acc s of Inl e \<Rightarrow> Inl e | Inr n \<Rightarrow> parse_uint n t)"
  by (induction acc s rule: parse_uint.induct) (auto split: option.splits)

lemma parse_format_nat: "n < 2 ^ 64 \<Longrightarrow> parse_uint 0 (format_nat n) = Inr (int n)"
proof (induction n rule: format_nat.induct)
  case (1 n)
  show ?case
  proof (cases "n < 10")
    case True
    then show ?thesis by (simp add: format_nat.simps [of n] digit_of_digit)
  next
    case False
    with 1 have "parse_uint 0 (format_nat (n div 10)) = Inr (int (n div 10))" by simp
    moreover have "int (n div 10) * 10 + int (n mod 10) = int n"
      by (metis div_mult_mod_eq of_nat_add of_nat_mult of_nat_numeral)
    moreover have "int n < 2 ^ 64" using "1.prems" by simp
    ultimately show ?thesis
      using False
      by (simp add: format_nat.simps [of n] parse_uint_append digit_of_digit del: of_nat_mod of_nat_div)
  qed
qed

lemma format_nat_sign: "parse_sign (format_nat n) = (False, format_nat n)"
proof -
  obtain c cs where f: "format_nat n = c # cs"
    by (cases "format_nat n") (simp_all add: format_nat_nonempty)
  then obtain d :: nat where "d < 10" "c = char_of (48 + d)"
    using format_nat_digits [of c n] by auto
  then have "digit_of c \<noteq> None" by (simp add: digit_of_digit)
  then have "c \<noteq> CHR ''-''" "c \<noteq> CHR ''+''" by (auto simp: digit_of_def)
  with f show ?thesis by (simp add: parse_sign_def)
qed

lemma atoi_negative:
  "n \<le> 2 ^ 63 \<Longrightarrow> atoi (CHR ''-'' # format_nat n) = Inr (- int n)"
  using parse_format_nat [of n] by (simp add: atoi_def parse_sign_def format_nat_nonempty)

lemma atoi_nonnegative:
  "n < 2 ^ 63 \<Longrightarrow> atoi (format_nat n) = Inr (int n)"
  using parse_format_nat [of n] by (simp add: atoi_def format_nat_sign format_nat_nonempty)

lemma atoi_format_int:
  assumes "- (2 ^ 63) \<le> i" "i < 2 ^ 63"
  shows "atoi (format_int i) = Inr i"
proof (cases "i < 0")
  case True
  have "nat (- i) \<le> 2 ^ 63" using assms(1) by (simp add: nat_le_iff)
  with True show ?thesis using atoi_negative [of "nat (- i)"] by (simp add: format_int_def)
next
  case False
  have "nat i < 2 ^ 63" using assms(2) False by (simp add: nat_less_iff)
  with False show ?thesis using atoi_nonnegative [of "nat i"] by (simp add: format_int_def)
qed

lemma format_int_inj:
  assumes "format_int i = format_int j" "- (2 ^ 63) \<le> i" "i < 2 ^ 63" "- (2 ^ 63) \<le> j" "j < 2 ^ 63"
  shows "i = j"
  using atoi_format_int [OF assms(2,3)] atoi_format_int [OF assms(4,5)]
  unfolding assms(1) by (metis sum.inject(2))

lemma format_int_nonempty: "format_int i \<noteq> []"
  by (simp add: format_int_def format_nat_nonempty)

text \<open>The first digit of a number, and the order of decimals as strings.\<close>

lemma hd_format_nat:
  "10 ^ k \<le> n \<Longrightarrow> n < 10 ^ Suc k \<Longrightarrow> hd (format_nat n) = char_of (48 + n div 10 ^ k)"
proof (induction k arbitrary: n)
  case 0
  then show ?case by (simp add: format_nat.simps [of n])
next
  case (Suc k)
  have "10 ^ k \<le> n div 10" "n div 10 < 10 ^ Suc k"
    using Suc.prems by (simp_all add: less_eq_div_iff_mult_less_eq less_mult_imp_div_less mult.commute)
  then have "hd (format_nat (n div 10)) = char_of (48 + n div 10 div 10 ^ k)" by (rule Suc.IH)
  moreover have "10 \<le> n"
    using Suc.prems(1) by (metis le_trans one_le_numeral power_increasing power_one_right le_add1 plus_1_eq_Suc)
  ultimately show ?case
    by (simp add: format_nat.simps [of n] format_nat_nonempty div_mult2_eq [symmetric])
qed

lemma format_int_larger_is_less:
  assumes "10 ^ Suc k \<le> d" "d < 2 * 10 ^ Suc k" "2 \<le> old" "old < 10"
  shows "format_int d < format_int old"
proof -
  have d0: "0 \<le> d" using assms(1) by (meson order_trans zero_le_numeral zero_le_power)
  have le: "10 ^ Suc k \<le> nat d" using nat_mono [OF assms(1)] by (simp add: nat_mult_distrib nat_power_eq)
  have lt: "nat d < 2 * 10 ^ Suc k" using assms(2) d0 by (simp add: nat_less_iff)
  have "nat d div 10 ^ Suc k = 1" using le lt by (simp add: div_nat_eqI)
  moreover have one: "(char_of (49 :: nat) :: char) = CHR ''1''" by code_simp
  ultimately have "hd (format_nat (nat d)) = CHR ''1''"
    using hd_format_nat [of "Suc k" "nat d"] le lt one by simp
  then obtain cs where "format_int d = CHR ''1'' # cs"
    using d0 format_nat_nonempty [of "nat d"] by (cases "format_nat (nat d)") (simp_all add: format_int_def)
  moreover have "format_int old = [char_of (48 + nat old)]"
    using assms(3,4) by (simp add: format_int_def format_nat.simps [of "nat old"])
  moreover have "CHR ''1'' < (char_of (48 + nat old) :: char)"
    using assms(3,4) by (simp add: less_char_def of_char_of)
  ultimately show ?thesis by simp
qed

subsection \<open>Hexadecimal numbers\<close>

definition hex_digit :: "nat \<Rightarrow> char" where
  "hex_digit d = (if d < 10 then char_of (48 + d) else char_of (87 + d))"

fun format_hex :: "nat \<Rightarrow> string" where
  "format_hex n = (if n < 16 then [hex_digit n] else format_hex (n div 16) @ [hex_digit (n mod 16)])"

declare format_hex.simps [simp del]

text \<open>The verb \<open>%04x\<close>: at least four digits, padded with zeros on the left.\<close>

definition format_04x :: "nat \<Rightarrow> string" where
  "format_04x n = (let h = format_hex n in replicate (4 - length h) (CHR ''0'') @ h)"

lemma length_format_hex: "n < 16 ^ Suc k \<Longrightarrow> length (format_hex n) \<le> Suc k"
proof (induction k arbitrary: n)
  case 0
  then show ?case by (simp add: format_hex.simps [of n])
next
  case (Suc k)
  have "n div 16 < 16 ^ Suc k" using Suc.prems by (simp add: less_mult_imp_div_less mult.commute)
  then have "length (format_hex (n div 16)) \<le> Suc k" by (rule Suc.IH)
  then show ?case by (simp add: format_hex.simps [of n])
qed

lemma length_format_04x: "n < 65536 \<Longrightarrow> length (format_04x n) = 4"
  using length_format_hex [of n 3] by (simp add: format_04x_def Let_def)

subsection \<open>The order of a range over a map\<close>

text \<open>
  Each iteration of \<open>range\<close> takes one of the keys not yet visited: the choices say which.
\<close>

fun pick_order :: "nat list \<Rightarrow> 'a list \<Rightarrow> 'a list" where
  "pick_order [] xs = xs"
| "pick_order (n # ns) xs =
     (if xs = [] then []
      else let i = n mod length xs in xs ! i # pick_order ns (take i xs @ drop (Suc i) xs))"

lemma mset_take_drop_Suc: "i < length xs \<Longrightarrow> mset xs = add_mset (xs ! i) (mset (take i xs @ drop (Suc i) xs))"
  by (subst id_take_nth_drop [of i xs]) simp_all

lemma mset_pick_order [simp]: "mset (pick_order ns xs) = mset xs"
proof (induction ns xs rule: pick_order.induct)
  case (1 xs)
  show ?case by simp
next
  case (2 n ns xs)
  show ?case
  proof (cases "xs = []")
    case False
    then have "n mod length xs < length xs" by simp
    with 2 False show ?thesis
      using mset_take_drop_Suc [of "n mod length xs" xs] by (simp add: Let_def)
  qed simp
qed

lemma set_pick_order [simp]: "set (pick_order ns xs) = set xs"
  using mset_pick_order by (metis set_mset_mset)

lemma pick_order_all: "mset ys = mset xs \<Longrightarrow> \<exists>ns. pick_order ns xs = ys"
proof (induction ys arbitrary: xs)
  case Nil
  then show ?case by (intro exI [of _ "[]"]) simp
next
  case (Cons y ys)
  from Cons.prems have "y \<in> set xs" by (metis list.set_intros(1) set_mset_mset)
  then obtain i where i: "i < length xs" "xs ! i = y" by (auto simp: in_set_conv_nth)
  have "mset ys = mset (take i xs @ drop (Suc i) xs)"
    using mset_take_drop_Suc [OF i(1)] i(2) Cons.prems by simp
  from Cons.IH [OF this] obtain ns where "pick_order ns (take i xs @ drop (Suc i) xs) = ys" by blast
  with i show ?case by (intro exI [of _ "i # ns"]) (auto simp: Let_def)
qed

end
