(* ===== verification/Objects.thy ===== *)
theory Objects
  imports GoLib
begin

text \<open>
  The data the controllers work on: the configuration record of \<open>pkg/config/config.go\<close>, and, of the
  Kubernetes and OCM objects, the fields that the source reads or writes. The types of those objects
  are declared by other Go modules; a field \<open>*_rest\<close> stands for everything else in an
  object, which copies keep. Pointers are options (nil is \<^const>\<open>None\<close>).
\<close>

subsection \<open>Configuration (pkg/config/config.go)\<close>

record secret_ref =
  ref_namespace :: string
  ref_name :: string

record config =
  OCMSecretRef :: "secret_ref option"
  MaxScaleoutAllowed :: int32
  MachineSetsStrategy :: string

subsection \<open>Machine API objects\<close>

record taint =
  t_key :: string
  t_value :: string
  t_effect :: string

record machineset =
  ms_name :: string
  ms_namespace :: string
  ms_resourceVersion :: string
  ms_labels :: dict
  ms_replicas :: "int32 option"
  ms_matchLabels :: dict
  ms_matchExpressions :: "string list"
  ms_templateLabels :: dict
  ms_taints :: "taint list"
  ms_providerSpec :: "string option"
  ms_availableReplicas :: int32
  ms_rest :: string

text \<open>\<open>mc_nodeRef\<close> is the name inside the pointer \<open>Status.NodeRef\<close>.\<close>

record machine =
  mc_name :: string
  mc_namespace :: string
  mc_labels :: dict
  mc_annotations :: dict
  mc_phase :: "string option"
  mc_nodeRef :: "string option"
  mc_rest :: string

record node =
  nd_name :: string
  nd_labels :: dict
  nd_annotations :: dict
  nd_rest :: string

record aws_config =
  instanceType :: string
  aws_rest :: string

subsection \<open>AppWrappers\<close>

text \<open>
  \<open>CustomPodResources\<close> of a generic item is the list of its \<open>Replicas\<close>. A deletion timestamp is nil
  or an instant, counted from Go's zero time.
\<close>

record appwrapper =
  aw_name :: string
  aw_namespace :: string
  aw_labels :: dict
  aw_finalizers :: "string list"
  aw_deletionTimestamp :: "int option"
  aw_state :: string
  aw_conditions :: "string list"
  aw_genericItems :: "int list list"
  aw_rest :: string

definition time_is_zero :: "int option \<Rightarrow> bool" where
  "time_is_zero t = (case t of None \<Rightarrow> True | Some n \<Rightarrow> n = 0)"

text \<open>The string \<open>name-namespace\<close> that the source builds with \<open>fmt.Sprintf\<close> everywhere.\<close>

definition aw_id :: "appwrapper \<Rightarrow> string" where
  "aw_id aw = aw_name aw @ ''-'' @ aw_namespace aw"

subsection \<open>OCM objects and Kubernetes secrets\<close>

record machinepool =
  mp_id :: string
  mp_instanceType :: string
  mp_labels :: dict
  mp_replicas :: int

text \<open>\<open>np_awsInstanceType\<close> is the instance type inside the pointer \<open>AWSNodePool()\<close>.\<close>

record nodepool =
  np_id :: string
  np_awsInstanceType :: "string option"
  np_labels :: dict
  np_replicas :: int

record secret =
  sec_namespace :: string
  sec_name :: string
  sec_data :: dict

record ocm_cluster =
  cl_id :: string
  cl_name :: string
  cl_state :: string

type_synonym connection = nat

subsection \<open>Label selectors and JSON patches\<close>

text \<open>
  \<open>MatchSet kvs\<close> is \<open>labels.SelectorFromSet\<close> of a map, \<open>HasLabels ks\<close> is \<open>client.HasLabels\<close>, and
  \<open>Everything\<close> is a list call without options. A JSON patch is the document its text denotes: the
  list of its operations, each with \<open>op\<close>, \<open>path\<close> and \<open>value\<close>.
\<close>

datatype selector = Everything | MatchSet "(string \<times> string) list" | HasLabels "string list"

record patch_op =
  p_op :: string
  p_path :: string
  p_value :: string

type_synonym patch = "patch_op list"

subsection \<open>Demand per instance type\<close>

text \<open>The map \<open>map[string]int\<close> of the replicas wanted of each instance type, with distinct keys.\<close>

type_synonym demand = "(string \<times> int) list"

text \<open>\<open>demandPerInstanceType[t]\<close>, with Go's zero for a missing key.\<close>

definition demand_at :: "demand \<Rightarrow> string \<Rightarrow> int" where
  "demand_at demand t = (case map_of demand t of None \<Rightarrow> 0 | Some n \<Rightarrow> n)"

subsection \<open>Results of a reconciliation\<close>

record reconcile_result =
  Requeue :: bool
  RequeueAfter :: int

definition no_requeue :: reconcile_result where
  "no_requeue = \<lparr>Requeue = False, RequeueAfter = 0\<rparr>"

text \<open>\<open>time.Duration\<close> counts nanoseconds.\<close>

definition second :: int where
  "second = 1000000000"

definition timeFiveSeconds :: int where
  "timeFiveSeconds = 5 * second"

definition timeThirtySeconds :: int where
  "timeThirtySeconds = 30 * second"

type_synonym reconcile_ret = "reconcile_result \<times> go_error option"

end
