(* ===== verification/Api.thy ===== *)
theory Api
  imports GoMonad Objects
begin

text \<open>
  The controller's state, and its interface to the code outside the repository. The Kubernetes
  clients (controller-runtime's \<open>client.Client\<close> and client-go's clientset), the OCM SDK, the
  JSON decoder on the provider's configuration type, and the helpers of controller-runtime are
  parameters: the fields of the records \<open>kube\<close>, \<open>ocm\<close> and \<open>lib\<close>, functions over an arbitrary
  type \<^typ>\<open>'w\<close> of worlds. A call gets the world and gives a result and the next world, so the
  answer of one call may depend on every earlier one, and on anything else that happens outside.

  Every call is recorded with its answer in the \<open>trace\<close> of the state, which no operation reads:
  the trace is what the theorems speak about when they say which calls a function makes.
  Randomness (\<open>math/rand\<close>, the order of a range over a map) is a sequence of arbitrary numbers.
\<close>

subsection \<open>Controller state\<close>

text \<open>\<open>MachineTypeNone\<close> is the zero value of the string type \<open>MachineType\<close>.\<close>

datatype machine_type = MachineTypeNone | MachineTypeMachineSet | MachineTypeMachinePool | MachineTypeNodePool

type_synonym key = "string \<times> string"
type_synonym 'o answer = "'o \<times> go_error option"

datatype event =
    GetAppWrapper key "appwrapper answer"
  | UpdateAppWrapper appwrapper "appwrapper answer"
  | ListAppWrappers selector "appwrapper list answer"
  | ListMachineSets selector "machineset list answer"
  | GetMachineSet key "machineset answer"
  | CreateMachineSet machineset "go_error option"
  | UpdateMachineSet machineset "machineset answer"
  | PatchMachineSet machineset patch "go_error option"
  | DeleteMachineSet machineset "go_error option"
  | ListMachines selector "machine list answer"
  | GetMachine key "machine answer"
  | UpdateMachine machine "machine answer"
  | PatchMachine machine patch "go_error option"
  | ListNodes selector "node list answer"
  | PatchNode string patch "node answer"
  | GetClusterVersion key "string answer"
  | GetSecret key "secret answer"
  | GetConfigMap key "dict answer"
  | OcmConnect string "go_error + connection"
  | OcmClose "connection option"
  | OcmSearchClusters string "ocm_cluster list answer"
  | OcmGetCluster string "go_error + bool option option"
  | OcmListMachinePools string "machinepool list answer"
  | OcmAddMachinePool string "machinepool option" "go_error option"
  | OcmDeleteMachinePool string string "go_error option"
  | OcmListNodePools string "nodepool list answer"
  | OcmAddNodePool string "nodepool option" "go_error option"
  | OcmDeleteNodePool string string "go_error option"
  | NewKubeClient "go_error option"
  | RegisterController "go_error option"
  | NewManager "go_error option"
  | AddCheck string "go_error option"
  | StartManager "go_error option"

text \<open>The calls that change the cluster or the OCM service.\<close>

fun is_write :: "event \<Rightarrow> bool" where
  "is_write (UpdateAppWrapper _ _) = True"
| "is_write (CreateMachineSet _ _) = True"
| "is_write (UpdateMachineSet _ _) = True"
| "is_write (PatchMachineSet _ _ _) = True"
| "is_write (DeleteMachineSet _ _) = True"
| "is_write (UpdateMachine _ _) = True"
| "is_write (PatchMachine _ _ _) = True"
| "is_write (PatchNode _ _ _) = True"
| "is_write (OcmAddMachinePool _ _ _) = True"
| "is_write (OcmDeleteMachinePool _ _ _) = True"
| "is_write (OcmAddNodePool _ _ _) = True"
| "is_write (OcmDeleteNodePool _ _ _) = True"
| "is_write _ = False"

text \<open>The fields of \<open>AppWrapperReconciler\<close> and the two package variables.\<close>

record 'w gstate =
  world :: 'w
  trace :: "event list"
  entropy :: "nat \<Rightarrow> nat"
  Config :: config
  ocmClusterID :: string
  ocmToken :: string
  ocmConnection :: "connection option"
  MachineType :: machine_type
  machineCheck :: bool
  machineNameCharacterLimit :: int
  deletionMessage :: string
  maxScaleNodesAllowed :: int

subsection \<open>The clients\<close>

record 'w kube =
  k_get_appwrapper :: "key \<Rightarrow> 'w \<Rightarrow> appwrapper answer \<times> 'w"
  k_update_appwrapper :: "appwrapper \<Rightarrow> 'w \<Rightarrow> appwrapper answer \<times> 'w"
  k_list_appwrappers :: "selector \<Rightarrow> appwrapper list \<Rightarrow> 'w \<Rightarrow> appwrapper list answer \<times> 'w"
  k_list_machinesets :: "selector \<Rightarrow> machineset list \<Rightarrow> 'w \<Rightarrow> machineset list answer \<times> 'w"
  k_get_machineset :: "key \<Rightarrow> 'w \<Rightarrow> machineset answer \<times> 'w"
  k_create_machineset :: "machineset \<Rightarrow> 'w \<Rightarrow> go_error option \<times> 'w"
  k_update_machineset :: "machineset \<Rightarrow> 'w \<Rightarrow> machineset answer \<times> 'w"
  k_patch_machineset :: "machineset \<Rightarrow> patch \<Rightarrow> 'w \<Rightarrow> go_error option \<times> 'w"
  k_delete_machineset :: "machineset \<Rightarrow> 'w \<Rightarrow> go_error option \<times> 'w"
  k_list_machines :: "selector \<Rightarrow> machine list \<Rightarrow> 'w \<Rightarrow> machine list answer \<times> 'w"
  k_get_machine :: "key \<Rightarrow> 'w \<Rightarrow> machine answer \<times> 'w"
  k_update_machine :: "machine \<Rightarrow> 'w \<Rightarrow> machine answer \<times> 'w"
  k_patch_machine :: "machine \<Rightarrow> patch \<Rightarrow> 'w \<Rightarrow> go_error option \<times> 'w"
  k_list_nodes :: "selector \<Rightarrow> 'w \<Rightarrow> node list answer \<times> 'w"
  k_patch_node :: "string \<Rightarrow> patch \<Rightarrow> 'w \<Rightarrow> node answer \<times> 'w"
  k_get_clusterversion :: "key \<Rightarrow> 'w \<Rightarrow> string answer \<times> 'w"
  k_get_secret :: "key \<Rightarrow> 'w \<Rightarrow> secret answer \<times> 'w"

text \<open>
  An OCM call may be made on a nil connection, and what it does then is up to the SDK: it may
  panic, so these calls give an outcome.
\<close>

record 'w ocm =
  o_build_logger :: "'w \<Rightarrow> go_error option \<times> 'w"
  o_connect :: "string \<Rightarrow> 'w \<Rightarrow> (go_error + connection) \<times> 'w"
  o_close :: "connection option \<Rightarrow> 'w \<Rightarrow> unit outcome \<times> 'w"
  o_search_clusters :: "connection option \<Rightarrow> string \<Rightarrow> 'w \<Rightarrow> ocm_cluster list answer outcome \<times> 'w"
  o_get_cluster :: "connection option \<Rightarrow> string \<Rightarrow> 'w \<Rightarrow> (go_error + bool option option) outcome \<times> 'w"
  o_list_machinepools :: "connection option \<Rightarrow> string \<Rightarrow> 'w \<Rightarrow> machinepool list answer outcome \<times> 'w"
  o_add_machinepool :: "connection option \<Rightarrow> string \<Rightarrow> machinepool option \<Rightarrow> 'w \<Rightarrow> go_error option outcome \<times> 'w"
  o_delete_machinepool :: "connection option \<Rightarrow> string \<Rightarrow> string \<Rightarrow> 'w \<Rightarrow> go_error option outcome \<times> 'w"
  o_list_nodepools :: "connection option \<Rightarrow> string \<Rightarrow> 'w \<Rightarrow> nodepool list answer outcome \<times> 'w"
  o_add_nodepool :: "connection option \<Rightarrow> string \<Rightarrow> nodepool option \<Rightarrow> 'w \<Rightarrow> go_error option outcome \<times> 'w"
  o_delete_nodepool :: "connection option \<Rightarrow> string \<Rightarrow> string \<Rightarrow> 'w \<Rightarrow> go_error option outcome \<times> 'w"

record lib =
  json_unmarshal :: "string \<Rightarrow> go_error + aws_config option"
  is_not_found :: "go_error \<Rightarrow> bool"
  contains_finalizer :: "appwrapper \<Rightarrow> string \<Rightarrow> bool"
  add_finalizer :: "appwrapper \<Rightarrow> string \<Rightarrow> appwrapper"
  remove_finalizer :: "appwrapper \<Rightarrow> string \<Rightarrow> appwrapper"
  state_completed :: string
  state_enqueued :: string
  build_machinepool :: "string \<Rightarrow> string \<Rightarrow> int \<Rightarrow> dict \<Rightarrow> machinepool option \<times> go_error option"
  build_nodepool :: "string \<Rightarrow> string \<Rightarrow> int \<Rightarrow> dict \<Rightarrow> nodepool option \<times> go_error option"

record 'w api =
  kube :: "'w kube"
  ocm :: "'w ocm"
  lib :: lib

end
