(* ===== verification/Calls.thy ===== *)
theory Calls
  imports Api
begin

text \<open>
  The external calls as programs over the controller's state: each runs the client's function on the
  world and records the call with its answer. Then the two program orders the components use:
  \<open>emits P m\<close> says that every call the program \<open>m\<close> makes satisfies \<open>P\<close>, and
  \<open>stays_in (same f) m\<close> that it keeps \<open>f\<close>, with one rule for each call.
\<close>

subsection \<open>Calls\<close>

definition call :: "('r \<Rightarrow> event) \<Rightarrow> ('w \<Rightarrow> 'r \<times> 'w) \<Rightarrow> ('w gstate, 'r) prog" where
  "call ev f = (\<lambda>s. case f (world s) of (r, w) \<Rightarrow>
     (Ok r, s\<lparr>world := w, trace := trace s @ [ev r]\<rparr>))"

text \<open>A call that may panic is recorded when it returns.\<close>

definition ocall :: "('r \<Rightarrow> event) \<Rightarrow> ('w \<Rightarrow> 'r outcome \<times> 'w) \<Rightarrow> ('w gstate, 'r) prog" where
  "ocall ev f = (\<lambda>s. case f (world s) of
     (Ok r, w) \<Rightarrow> (Ok r, s\<lparr>world := w, trace := trace s @ [ev r]\<rparr>)
   | (Panic msg, w) \<Rightarrow> (Panic msg, s\<lparr>world := w\<rparr>))"

definition draw :: "('w gstate, nat) prog" where
  "draw = (\<lambda>s. (Ok (entropy s 0), s\<lparr>entropy := \<lambda>i. entropy s (Suc i)\<rparr>))"

definition draws :: "nat \<Rightarrow> ('w gstate, nat list) prog" where
  "draws n = (\<lambda>s. (Ok (map (entropy s) [0..<n]), s\<lparr>entropy := \<lambda>i. entropy s (n + i)\<rparr>))"

text \<open>\<open>rand.Intn(n)\<close> for a positive \<open>n\<close>, and the order in which \<open>range\<close> visits the keys of a map.\<close>

definition rand_intn :: "int \<Rightarrow> ('w gstate, nat) prog" where
  "rand_intn n = bnd draw (\<lambda>k. ret (nat (int k mod n)))"

definition range_order :: "'a list \<Rightarrow> ('w gstate, 'a list) prog" where
  "range_order xs = bnd (draws (length xs)) (\<lambda>ns. ret (pick_order ns xs))"

definition get_appwrapper :: "'w api \<Rightarrow> key \<Rightarrow> ('w gstate, appwrapper answer) prog" where
  "get_appwrapper api k = call (GetAppWrapper k) (k_get_appwrapper (kube api) k)"

definition update_appwrapper :: "'w api \<Rightarrow> appwrapper \<Rightarrow> ('w gstate, appwrapper answer) prog" where
  "update_appwrapper api aw = call (UpdateAppWrapper aw) (k_update_appwrapper (kube api) aw)"

text \<open>
  A list call fills a list the caller owns: its previous content is an argument, since after an
  error the list may hold it still.
\<close>

definition list_appwrappers :: "'w api \<Rightarrow> selector \<Rightarrow> appwrapper list \<Rightarrow> ('w gstate, appwrapper list answer) prog" where
  "list_appwrappers api sel prev = call (ListAppWrappers sel) (k_list_appwrappers (kube api) sel prev)"

definition list_machinesets :: "'w api \<Rightarrow> selector \<Rightarrow> machineset list \<Rightarrow> ('w gstate, machineset list answer) prog" where
  "list_machinesets api sel prev = call (ListMachineSets sel) (k_list_machinesets (kube api) sel prev)"

definition get_machineset :: "'w api \<Rightarrow> key \<Rightarrow> ('w gstate, machineset answer) prog" where
  "get_machineset api k = call (GetMachineSet k) (k_get_machineset (kube api) k)"

definition create_machineset :: "'w api \<Rightarrow> machineset \<Rightarrow> ('w gstate, go_error option) prog" where
  "create_machineset api ms = call (CreateMachineSet ms) (k_create_machineset (kube api) ms)"

definition update_machineset :: "'w api \<Rightarrow> machineset \<Rightarrow> ('w gstate, machineset answer) prog" where
  "update_machineset api ms = call (UpdateMachineSet ms) (k_update_machineset (kube api) ms)"

definition patch_machineset :: "'w api \<Rightarrow> machineset \<Rightarrow> patch \<Rightarrow> ('w gstate, go_error option) prog" where
  "patch_machineset api ms p = call (PatchMachineSet ms p) (k_patch_machineset (kube api) ms p)"

definition delete_machineset :: "'w api \<Rightarrow> machineset \<Rightarrow> ('w gstate, go_error option) prog" where
  "delete_machineset api ms = call (DeleteMachineSet ms) (k_delete_machineset (kube api) ms)"

definition list_machines :: "'w api \<Rightarrow> selector \<Rightarrow> machine list \<Rightarrow> ('w gstate, machine list answer) prog" where
  "list_machines api sel prev = call (ListMachines sel) (k_list_machines (kube api) sel prev)"

definition get_machine :: "'w api \<Rightarrow> key \<Rightarrow> ('w gstate, machine answer) prog" where
  "get_machine api k = call (GetMachine k) (k_get_machine (kube api) k)"

definition update_machine :: "'w api \<Rightarrow> machine \<Rightarrow> ('w gstate, machine answer) prog" where
  "update_machine api mc = call (UpdateMachine mc) (k_update_machine (kube api) mc)"

definition patch_machine :: "'w api \<Rightarrow> machine \<Rightarrow> patch \<Rightarrow> ('w gstate, go_error option) prog" where
  "patch_machine api mc p = call (PatchMachine mc p) (k_patch_machine (kube api) mc p)"

definition list_nodes :: "'w api \<Rightarrow> selector \<Rightarrow> ('w gstate, node list answer) prog" where
  "list_nodes api sel = call (ListNodes sel) (k_list_nodes (kube api) sel)"

definition patch_node :: "'w api \<Rightarrow> string \<Rightarrow> patch \<Rightarrow> ('w gstate, node answer) prog" where
  "patch_node api n p = call (PatchNode n p) (k_patch_node (kube api) n p)"

definition get_clusterversion :: "'w api \<Rightarrow> key \<Rightarrow> ('w gstate, string answer) prog" where
  "get_clusterversion api k = call (GetClusterVersion k) (k_get_clusterversion (kube api) k)"

definition get_secret :: "'w api \<Rightarrow> key \<Rightarrow> ('w gstate, secret answer) prog" where
  "get_secret api k = call (GetSecret k) (k_get_secret (kube api) k)"

definition build_logger :: "'w api \<Rightarrow> ('w gstate, go_error option) prog" where
  "build_logger api = (\<lambda>s. case o_build_logger (ocm api) (world s) of (r, w) \<Rightarrow> (Ok r, s\<lparr>world := w\<rparr>))"

definition connect :: "'w api \<Rightarrow> string \<Rightarrow> ('w gstate, go_error + connection) prog" where
  "connect api token = call (OcmConnect token) (o_connect (ocm api) token)"

definition close_connection :: "'w api \<Rightarrow> connection option \<Rightarrow> ('w gstate, unit) prog" where
  "close_connection api c = ocall (\<lambda>_. OcmClose c) (o_close (ocm api) c)"

definition search_clusters :: "'w api \<Rightarrow> connection option \<Rightarrow> string \<Rightarrow> ('w gstate, ocm_cluster list answer) prog" where
  "search_clusters api c q = ocall (OcmSearchClusters q) (o_search_clusters (ocm api) c q)"

definition get_cluster :: "'w api \<Rightarrow> connection option \<Rightarrow> string \<Rightarrow> ('w gstate, go_error + bool option option) prog" where
  "get_cluster api c cl = ocall (OcmGetCluster cl) (o_get_cluster (ocm api) c cl)"

definition list_machinepools :: "'w api \<Rightarrow> connection option \<Rightarrow> string \<Rightarrow> ('w gstate, machinepool list answer) prog" where
  "list_machinepools api c cl = ocall (OcmListMachinePools cl) (o_list_machinepools (ocm api) c cl)"

definition add_machinepool :: "'w api \<Rightarrow> connection option \<Rightarrow> string \<Rightarrow> machinepool option \<Rightarrow> ('w gstate, go_error option) prog" where
  "add_machinepool api c cl p = ocall (OcmAddMachinePool cl p) (o_add_machinepool (ocm api) c cl p)"

definition delete_machinepool :: "'w api \<Rightarrow> connection option \<Rightarrow> string \<Rightarrow> string \<Rightarrow> ('w gstate, go_error option) prog" where
  "delete_machinepool api c cl i = ocall (OcmDeleteMachinePool cl i) (o_delete_machinepool (ocm api) c cl i)"

definition list_nodepools :: "'w api \<Rightarrow> connection option \<Rightarrow> string \<Rightarrow> ('w gstate, nodepool list answer) prog" where
  "list_nodepools api c cl = ocall (OcmListNodePools cl) (o_list_nodepools (ocm api) c cl)"

definition add_nodepool :: "'w api \<Rightarrow> connection option \<Rightarrow> string \<Rightarrow> nodepool option \<Rightarrow> ('w gstate, go_error option) prog" where
  "add_nodepool api c cl p = ocall (OcmAddNodePool cl p) (o_add_nodepool (ocm api) c cl p)"

definition delete_nodepool :: "'w api \<Rightarrow> connection option \<Rightarrow> string \<Rightarrow> string \<Rightarrow> ('w gstate, go_error option) prog" where
  "delete_nodepool api c cl i = ocall (OcmDeleteNodePool cl i) (o_delete_nodepool (ocm api) c cl i)"

lemmas call_defs =
  get_appwrapper_def update_appwrapper_def list_appwrappers_def
  list_machinesets_def get_machineset_def create_machineset_def update_machineset_def
  patch_machineset_def delete_machineset_def
  list_machines_def get_machine_def update_machine_def patch_machine_def
  list_nodes_def patch_node_def get_clusterversion_def get_secret_def
  build_logger_def connect_def close_connection_def search_clusters_def get_cluster_def
  list_machinepools_def add_machinepool_def delete_machinepool_def
  list_nodepools_def add_nodepool_def delete_nodepool_def

subsection \<open>Which calls a program makes\<close>

definition extends :: "(event \<Rightarrow> bool) \<Rightarrow> 'w gstate \<Rightarrow> 'w gstate \<Rightarrow> bool" where
  "extends P s t \<longleftrightarrow> (\<exists>es. trace t = trace s @ es \<and> list_all P es)"

interpretation extends: program_order "extends P" for P
proof unfold_locales
  show "extends P s s" for s :: "'w gstate"
    by (simp add: extends_def)
  show "extends P s u" if "extends P s t" "extends P t u" for s t u :: "'w gstate"
    using that by (fastforce simp: extends_def)
qed

abbreviation emits :: "(event \<Rightarrow> bool) \<Rightarrow> ('w gstate, 'a) prog \<Rightarrow> bool" where
  "emits P \<equiv> stays_in (extends P)"

lemmas extends_rules [emits_intros] = extends.stays_rules

lemma emitsD:
  assumes "emits P m" "m s = (r, t)"
  obtains es where "trace t = trace s @ es" "list_all P es"
  using assms by (metis extends_def snd_conv stays_in_def)

lemma emits_mono: "emits P m \<Longrightarrow> (\<And>e. P e \<Longrightarrow> Q e) \<Longrightarrow> emits Q m"
  unfolding stays_in_def extends_def by (metis list_all_iff)

lemma emits_modify [emits_intros]: "(\<And>s. trace (f s) = trace s) \<Longrightarrow> emits P (modify f)"
  by (simp add: stays_in_def extends_def modify_def)

lemma emits_call: "(\<And>r. P (ev r)) \<Longrightarrow> emits P (call ev f)"
  by (simp add: stays_in_def extends_def call_def split: prod.split)

lemma emits_ocall: "(\<And>r. P (ev r)) \<Longrightarrow> emits P (ocall ev f)"
  by (simp add: stays_in_def extends_def ocall_def split: prod.split outcome.split)

lemma emits_draws [emits_intros]: "emits P draw" "emits P (draws n)"
  by (simp_all add: stays_in_def extends_def draw_def draws_def)

lemma emits_random [emits_intros]: "emits P (rand_intn n)" "emits P (range_order xs)"
  unfolding rand_intn_def range_order_def
  by (intro extends.stays_bnd extends.stays_ret emits_draws)+

lemma emits_build_logger [emits_intros]: "emits P (build_logger api)"
  by (simp add: stays_in_def extends_def build_logger_def split: prod.split)

text \<open>One rule per call, from the two generic ones.\<close>

lemma emits_appwrapper_calls [emits_intros]:
  "(\<And>r. P (GetAppWrapper k r)) \<Longrightarrow> emits P (get_appwrapper api k)"
  "(\<And>r. P (UpdateAppWrapper aw r)) \<Longrightarrow> emits P (update_appwrapper api aw)"
  "(\<And>r. P (ListAppWrappers sel r)) \<Longrightarrow> emits P (list_appwrappers api sel awl)"
  by (simp_all add: call_defs emits_call)

lemma emits_machineset_calls [emits_intros]:
  "(\<And>r. P (ListMachineSets sel r)) \<Longrightarrow> emits P (list_machinesets api sel msl)"
  "(\<And>r. P (GetMachineSet k r)) \<Longrightarrow> emits P (get_machineset api k)"
  "(\<And>r. P (CreateMachineSet ms r)) \<Longrightarrow> emits P (create_machineset api ms)"
  "(\<And>r. P (UpdateMachineSet ms r)) \<Longrightarrow> emits P (update_machineset api ms)"
  "(\<And>r. P (PatchMachineSet ms p r)) \<Longrightarrow> emits P (patch_machineset api ms p)"
  "(\<And>r. P (DeleteMachineSet ms r)) \<Longrightarrow> emits P (delete_machineset api ms)"
  by (simp_all add: call_defs emits_call)

lemma emits_machine_calls [emits_intros]:
  "(\<And>r. P (ListMachines sel r)) \<Longrightarrow> emits P (list_machines api sel mcl)"
  "(\<And>r. P (GetMachine k r)) \<Longrightarrow> emits P (get_machine api k)"
  "(\<And>r. P (UpdateMachine mc r)) \<Longrightarrow> emits P (update_machine api mc)"
  "(\<And>r. P (PatchMachine mc p r)) \<Longrightarrow> emits P (patch_machine api mc p)"
  "(\<And>r. P (ListNodes sel r)) \<Longrightarrow> emits P (list_nodes api sel)"
  "(\<And>r. P (PatchNode n p r)) \<Longrightarrow> emits P (patch_node api n p)"
  by (simp_all add: call_defs emits_call)

lemma emits_ocm_calls [emits_intros]:
  "(\<And>r. P (GetClusterVersion k r)) \<Longrightarrow> emits P (get_clusterversion api k)"
  "(\<And>r. P (GetSecret k r)) \<Longrightarrow> emits P (get_secret api k)"
  "(\<And>r. P (OcmConnect tok r)) \<Longrightarrow> emits P (connect api tok)"
  "P (OcmClose c) \<Longrightarrow> emits P (close_connection api c)"
  "(\<And>r. P (OcmSearchClusters q r)) \<Longrightarrow> emits P (search_clusters api c q)"
  "(\<And>r. P (OcmGetCluster cl r)) \<Longrightarrow> emits P (get_cluster api c cl)"
  by (simp_all add: call_defs emits_call emits_ocall)

lemma emits_pool_calls [emits_intros]:
  "(\<And>r. P (OcmListMachinePools cl r)) \<Longrightarrow> emits P (list_machinepools api c cl)"
  "(\<And>r. P (OcmAddMachinePool cl mp r)) \<Longrightarrow> emits P (add_machinepool api c cl mp)"
  "(\<And>r. P (OcmDeleteMachinePool cl i r)) \<Longrightarrow> emits P (delete_machinepool api c cl i)"
  "(\<And>r. P (OcmListNodePools cl r)) \<Longrightarrow> emits P (list_nodepools api c cl)"
  "(\<And>r. P (OcmAddNodePool cl np r)) \<Longrightarrow> emits P (add_nodepool api c cl np)"
  "(\<And>r. P (OcmDeleteNodePool cl i r)) \<Longrightarrow> emits P (delete_nodepool api c cl i)"
  by (simp_all add: call_defs emits_ocall)

lemma range_order_set: "range_order xs s = (Ok ys, t) \<Longrightarrow> set ys = set xs"
  by (auto simp: range_order_def bnd_Ok draws_def)

subsection \<open>What calls keep\<close>

text \<open>\<open>settings\<close> are the fields of the reconciler: a call changes the world and the trace only.\<close>

definition settings :: "'w gstate \<Rightarrow> config \<times> string \<times> string \<times> connection option \<times>
    machine_type \<times> bool \<times> int \<times> string \<times> int" where
  "settings s = (Config s, ocmClusterID s, ocmToken s, ocmConnection s, MachineType s,
     machineCheck s, machineNameCharacterLimit s, deletionMessage s, maxScaleNodesAllowed s)"

text \<open>\<open>outside f\<close>: the observation \<open>f\<close> does not depend on the world, the trace and the randomness.\<close>

definition outside :: "('w gstate \<Rightarrow> 'v) \<Rightarrow> bool" where
  "outside f \<longleftrightarrow> (\<forall>s w tr e. f (s\<lparr>world := w, trace := tr, entropy := e\<rparr>) = f s)"

lemma outsideD: "outside f \<Longrightarrow> f (s\<lparr>world := w\<rparr>) = f s"
    "outside f \<Longrightarrow> f (s\<lparr>world := w, trace := tr\<rparr>) = f s"
    "outside f \<Longrightarrow> f (s\<lparr>entropy := e\<rparr>) = f s"
proof -
  assume o: "outside f"
  have "f (s\<lparr>world := w, trace := trace s, entropy := entropy s\<rparr>) = f s"
    using o unfolding outside_def by blast
  then show "f (s\<lparr>world := w\<rparr>) = f s" by simp
  have "f (s\<lparr>world := w, trace := tr, entropy := entropy s\<rparr>) = f s"
    using o unfolding outside_def by blast
  then show "f (s\<lparr>world := w, trace := tr\<rparr>) = f s" by simp
  have "f (s\<lparr>world := world s, trace := trace s, entropy := e\<rparr>) = f s"
    using o unfolding outside_def by blast
  then show "f (s\<lparr>entropy := e\<rparr>) = f s" by simp
qed

lemma keeps_call: "outside f \<Longrightarrow> stays_in (same f) (call ev g)"
  by (simp add: stays_in_def same_def call_def outsideD split: prod.split)

lemma keeps_ocall: "outside f \<Longrightarrow> stays_in (same f) (ocall ev g)"
  by (simp add: stays_in_def same_def ocall_def outsideD split: prod.split outcome.split)

lemma keeps_random [frame_intros]:
  assumes "outside f"
  shows "stays_in (same f) (rand_intn n)" "stays_in (same f) (range_order xs)"
  using assms
  by (simp_all add: stays_in_def same_def rand_intn_def range_order_def bnd_def draw_def draws_def
    ret_def outsideD)

lemma keeps_calls [frame_intros]:
  assumes "outside f"
  shows "stays_in (same f) (get_appwrapper api k)" "stays_in (same f) (update_appwrapper api aw)"
    "stays_in (same f) (list_appwrappers api sel awl)"
    "stays_in (same f) (list_machinesets api sel msl)" "stays_in (same f) (get_machineset api k)"
    "stays_in (same f) (create_machineset api ms)" "stays_in (same f) (update_machineset api ms)"
    "stays_in (same f) (patch_machineset api ms p)" "stays_in (same f) (delete_machineset api ms)"
    "stays_in (same f) (list_machines api sel mcl)" "stays_in (same f) (get_machine api k)"
    "stays_in (same f) (update_machine api mc)" "stays_in (same f) (patch_machine api mc p)"
    "stays_in (same f) (list_nodes api sel)" "stays_in (same f) (patch_node api n p)"
    "stays_in (same f) (get_clusterversion api k)" "stays_in (same f) (get_secret api k)"
    "stays_in (same f) (connect api tok)"
  by (simp_all add: call_defs keeps_call assms)

lemma keeps_ocm_calls [frame_intros]:
  assumes "outside f"
  shows "stays_in (same f) (close_connection api c)" "stays_in (same f) (search_clusters api c q)"
    "stays_in (same f) (get_cluster api c cl)"
    "stays_in (same f) (list_machinepools api c cl)" "stays_in (same f) (add_machinepool api c cl mp)"
    "stays_in (same f) (delete_machinepool api c cl i)"
    "stays_in (same f) (list_nodepools api c cl)" "stays_in (same f) (add_nodepool api c cl np)"
    "stays_in (same f) (delete_nodepool api c cl i)"
  by (simp_all add: call_defs keeps_ocall assms)

lemma keeps_build_logger [frame_intros]:
  "outside f \<Longrightarrow> stays_in (same f) (build_logger api)"
  by (simp add: stays_in_def same_def build_logger_def outsideD split: prod.split)

lemma outside_fields [frame_intros]:
  "outside settings" "outside Config" "outside MachineType" "outside machineCheck"
  "outside machineNameCharacterLimit" "outside ocmClusterID" "outside maxScaleNodesAllowed"
  "outside ocmToken"
  by (simp_all add: outside_def settings_def)

end
