(* ===== verification/RefCluster.thy ===== *)
theory RefCluster
  imports Calls
begin

text \<open>
  A reference environment: an in-memory cluster and OCM service that instantiates every parameter of
  the model by a concrete function. The witnesses run the controllers on it. It behaves as the API
  server documents for a single client: lists filter by label, a get or an update of an object that
  does not exist fails with \<open>NotFound\<close>, an update replaces the object, a JSON patch fails where its
  path does not exist, an object under deletion takes no new finalizer and goes away with its last
  one. \<open>c_broken\<close> names calls that fail, for the witnesses of error paths.
\<close>

record cluster =
  c_appwrappers :: "appwrapper list"
  c_machinesets :: "machineset list"
  c_machines :: "machine list"
  c_nodes :: "node list"
  c_secrets :: "secret list"
  c_clusterID :: string
  c_ocmClusters :: "ocm_cluster list"
  c_hypershift :: bool
  c_machinepools :: "machinepool list"
  c_nodepools :: "nodepool list"
  c_broken :: "string list"

definition empty_cluster :: cluster where
  "empty_cluster = \<lparr>c_appwrappers = [], c_machinesets = [], c_machines = [], c_nodes = [],
     c_secrets = [], c_clusterID = ''ext'', c_ocmClusters = [\<lparr>cl_id = ''int'', cl_name = ''n'', cl_state = ''ready''\<rparr>],
     c_hypershift = False, c_machinepools = [], c_nodepools = [], c_broken = []\<rparr>"

fun selects :: "selector \<Rightarrow> dict \<Rightarrow> bool" where
  "selects Everything d = True"
| "selects (MatchSet kvs) d = list_all (\<lambda>(k, v). dict_get d k = Some v) kvs"
| "selects (HasLabels ks) d = list_all (\<lambda>k. dict_get d k \<noteq> None) ks"

definition not_found :: go_error where
  "not_found = Foreign ''NotFound'' ''object not found''"

definition server_error :: go_error where
  "server_error = Foreign ''InternalError'' ''server error''"

definition attempt :: "string \<Rightarrow> cluster \<Rightarrow> (go_error \<Rightarrow> 'r) \<Rightarrow> 'r \<times> cluster \<Rightarrow> 'r \<times> cluster" where
  "attempt op w bad good = (if op \<in> set (c_broken w) then (bad server_error, w) else good)"

subsection \<open>Patches of labels\<close>

definition labels_path :: string where
  "labels_path = ''/metadata/labels/''"

definition patch_label :: "patch_op \<Rightarrow> dict \<Rightarrow> dict option" where
  "patch_label p d = (let k = drop (length labels_path) (p_path p) in
     if \<not> prefix labels_path (p_path p) then None
     else if p_op p = ''add'' then dict_set d k (p_value p)
     else if p_op p = ''remove'' then
       (case dict_get d k of None \<Rightarrow> None | Some _ \<Rightarrow> Some (Some (AList.delete k (dict_entries d))))
     else None)"

fun patch_labels :: "patch \<Rightarrow> dict \<Rightarrow> dict option" where
  "patch_labels [] d = Some d"
| "patch_labels (p # ps) d = (case patch_label p d of None \<Rightarrow> None | Some d' \<Rightarrow> patch_labels ps d')"

definition bad_patch :: go_error where
  "bad_patch = Foreign ''Invalid'' ''patch does not apply''"

subsection \<open>Stores\<close>

definition find_by :: "('a \<Rightarrow> 'k) \<Rightarrow> 'k \<Rightarrow> 'a list \<Rightarrow> 'a option" where
  "find_by key k xs = find (\<lambda>x. key x = k) xs"

definition replace_by :: "('a \<Rightarrow> 'k) \<Rightarrow> 'a \<Rightarrow> 'a list \<Rightarrow> 'a list" where
  "replace_by key y xs = map (\<lambda>x. if key x = key y then y else x) xs"

definition remove_by :: "('a \<Rightarrow> 'k) \<Rightarrow> 'k \<Rightarrow> 'a list \<Rightarrow> 'a list" where
  "remove_by key k xs = filter (\<lambda>x. key x \<noteq> k) xs"

definition aw_key :: "appwrapper \<Rightarrow> key" where
  "aw_key aw = (aw_namespace aw, aw_name aw)"

definition ms_key :: "machineset \<Rightarrow> key" where
  "ms_key ms = (ms_namespace ms, ms_name ms)"

definition mc_key :: "machine \<Rightarrow> key" where
  "mc_key mc = (mc_namespace mc, mc_name mc)"

definition zero_appwrapper :: appwrapper where
  "zero_appwrapper = \<lparr>aw_name = [], aw_namespace = [], aw_labels = None, aw_finalizers = [],
     aw_deletionTimestamp = None, aw_state = [], aw_conditions = [], aw_genericItems = [], aw_rest = []\<rparr>"

definition zero_machineset :: machineset where
  "zero_machineset = \<lparr>ms_name = [], ms_namespace = [], ms_resourceVersion = [], ms_labels = None,
     ms_replicas = None, ms_matchLabels = None, ms_matchExpressions = [], ms_templateLabels = None,
     ms_taints = [], ms_providerSpec = None, ms_availableReplicas = 0, ms_rest = []\<rparr>"

definition zero_machine :: machine where
  "zero_machine = \<lparr>mc_name = [], mc_namespace = [], mc_labels = None, mc_annotations = None,
     mc_phase = None, mc_nodeRef = None, mc_rest = []\<rparr>"

definition zero_node :: node where
  "zero_node = \<lparr>nd_name = [], nd_labels = None, nd_annotations = None, nd_rest = []\<rparr>"

definition zero_secret :: secret where
  "zero_secret = \<lparr>sec_namespace = [], sec_name = [], sec_data = None\<rparr>"

definition ref_update_appwrapper :: "appwrapper \<Rightarrow> cluster \<Rightarrow> appwrapper answer \<times> cluster" where
  "ref_update_appwrapper aw w = attempt ''update_appwrapper'' w (\<lambda>e. (aw, Some e))
     (case find_by aw_key (aw_key aw) (c_appwrappers w) of
       None \<Rightarrow> ((aw, Some not_found), w)
     | Some old \<Rightarrow>
         if \<not> time_is_zero (aw_deletionTimestamp old) \<and> \<not> set (aw_finalizers aw) \<subseteq> set (aw_finalizers old)
         then ((aw, Some (Foreign ''Forbidden'' ''no new finalizers'')), w)
         else if \<not> time_is_zero (aw_deletionTimestamp old) \<and> aw_finalizers aw = []
         then ((aw, None), w\<lparr>c_appwrappers := remove_by aw_key (aw_key aw) (c_appwrappers w)\<rparr>)
         else ((aw, None), w\<lparr>c_appwrappers := replace_by aw_key aw (c_appwrappers w)\<rparr>))"

definition ref_update_machineset :: "machineset \<Rightarrow> cluster \<Rightarrow> machineset answer \<times> cluster" where
  "ref_update_machineset ms w = attempt ''update_machineset'' w (\<lambda>e. (ms, Some e))
     (case find_by ms_key (ms_key ms) (c_machinesets w) of
       None \<Rightarrow> ((ms, Some not_found), w)
     | Some _ \<Rightarrow> ((ms, None), w\<lparr>c_machinesets := replace_by ms_key ms (c_machinesets w)\<rparr>))"

definition ref_create_machineset :: "machineset \<Rightarrow> cluster \<Rightarrow> go_error option \<times> cluster" where
  "ref_create_machineset ms w = attempt ''create_machineset'' w Some
     (case find_by ms_key (ms_key ms) (c_machinesets w) of
       Some _ \<Rightarrow> (Some (Foreign ''AlreadyExists'' ''object exists''), w)
     | None \<Rightarrow> (None, w\<lparr>c_machinesets := c_machinesets w @ [ms]\<rparr>))"

definition ref_patch_machineset :: "machineset \<Rightarrow> patch \<Rightarrow> cluster \<Rightarrow> go_error option \<times> cluster" where
  "ref_patch_machineset ms p w = attempt ''patch_machineset'' w Some
     (case find_by ms_key (ms_key ms) (c_machinesets w) of
       None \<Rightarrow> (Some not_found, w)
     | Some old \<Rightarrow> (case patch_labels p (ms_labels old) of
         None \<Rightarrow> (Some bad_patch, w)
       | Some d \<Rightarrow> (None, w\<lparr>c_machinesets := replace_by ms_key (old\<lparr>ms_labels := d\<rparr>) (c_machinesets w)\<rparr>)))"

definition ref_delete_machineset :: "machineset \<Rightarrow> cluster \<Rightarrow> go_error option \<times> cluster" where
  "ref_delete_machineset ms w = attempt ''delete_machineset'' w Some
     (case find_by ms_key (ms_key ms) (c_machinesets w) of
       None \<Rightarrow> (Some not_found, w)
     | Some _ \<Rightarrow> (None, w\<lparr>c_machinesets := remove_by ms_key (ms_key ms) (c_machinesets w)\<rparr>))"

definition ref_update_machine :: "machine \<Rightarrow> cluster \<Rightarrow> machine answer \<times> cluster" where
  "ref_update_machine mc w = attempt ''update_machine'' w (\<lambda>e. (mc, Some e))
     (case find_by mc_key (mc_key mc) (c_machines w) of
       None \<Rightarrow> ((mc, Some not_found), w)
     | Some _ \<Rightarrow> ((mc, None), w\<lparr>c_machines := replace_by mc_key mc (c_machines w)\<rparr>))"

definition ref_patch_machine :: "machine \<Rightarrow> patch \<Rightarrow> cluster \<Rightarrow> go_error option \<times> cluster" where
  "ref_patch_machine mc p w = attempt ''patch_machine'' w Some
     (case find_by mc_key (mc_key mc) (c_machines w) of
       None \<Rightarrow> (Some not_found, w)
     | Some old \<Rightarrow> (case patch_labels p (mc_labels old) of
         None \<Rightarrow> (Some bad_patch, w)
       | Some d \<Rightarrow> (None, w\<lparr>c_machines := replace_by mc_key (old\<lparr>mc_labels := d\<rparr>) (c_machines w)\<rparr>)))"

definition ref_patch_node :: "string \<Rightarrow> patch \<Rightarrow> cluster \<Rightarrow> node answer \<times> cluster" where
  "ref_patch_node n p w = attempt ''patch_node'' w (\<lambda>e. (zero_node, Some e))
     (case find_by nd_name n (c_nodes w) of
       None \<Rightarrow> ((zero_node, Some not_found), w)
     | Some old \<Rightarrow> (case patch_labels p (nd_labels old) of
         None \<Rightarrow> ((zero_node, Some bad_patch), w)
       | Some d \<Rightarrow> ((old\<lparr>nd_labels := d\<rparr>, None),
           w\<lparr>c_nodes := replace_by nd_name (old\<lparr>nd_labels := d\<rparr>) (c_nodes w)\<rparr>)))"

definition ref_get :: "string \<Rightarrow> ('a \<Rightarrow> 'k) \<Rightarrow> (cluster \<Rightarrow> 'a list) \<Rightarrow> 'a \<Rightarrow> 'k \<Rightarrow> cluster \<Rightarrow> 'a answer \<times> cluster" where
  "ref_get op key store zero k w = attempt op w (\<lambda>e. (zero, Some e))
     (case find_by key k (store w) of None \<Rightarrow> ((zero, Some not_found), w) | Some x \<Rightarrow> ((x, None), w))"

definition ref_list :: "string \<Rightarrow> ('a \<Rightarrow> dict) \<Rightarrow> (cluster \<Rightarrow> 'a list) \<Rightarrow> selector \<Rightarrow> 'a list \<Rightarrow> cluster \<Rightarrow> 'a list answer \<times> cluster" where
  "ref_list op lbls store sel prev w = attempt op w (\<lambda>e. (prev, Some e))
     ((filter (\<lambda>x. selects sel (lbls x)) (store w), None), w)"

definition ref_kube :: "cluster kube" where
  "ref_kube = \<lparr>
     k_get_appwrapper = ref_get ''get_appwrapper'' aw_key c_appwrappers zero_appwrapper,
     k_update_appwrapper = ref_update_appwrapper,
     k_list_appwrappers = ref_list ''list_appwrappers'' aw_labels c_appwrappers,
     k_list_machinesets = ref_list ''list_machinesets'' ms_labels c_machinesets,
     k_get_machineset = ref_get ''get_machineset'' ms_key c_machinesets zero_machineset,
     k_create_machineset = ref_create_machineset,
     k_update_machineset = ref_update_machineset,
     k_patch_machineset = ref_patch_machineset,
     k_delete_machineset = ref_delete_machineset,
     k_list_machines = ref_list ''list_machines'' mc_labels c_machines,
     k_get_machine = ref_get ''get_machine'' mc_key c_machines zero_machine,
     k_update_machine = ref_update_machine,
     k_patch_machine = ref_patch_machine,
     k_list_nodes = (\<lambda>sel. ref_list ''list_nodes'' nd_labels c_nodes sel []),
     k_patch_node = ref_patch_node,
     k_get_clusterversion = (\<lambda>_ w. attempt ''get_clusterversion'' w (\<lambda>e. ([], Some e)) ((c_clusterID w, None), w)),
     k_get_secret = ref_get ''get_secret'' (\<lambda>x. (sec_namespace x, sec_name x)) c_secrets zero_secret\<rparr>"

text \<open>The OCM service has one cluster; a call on a nil connection panics.\<close>

definition ref_ocall :: "string \<Rightarrow> connection option \<Rightarrow> cluster \<Rightarrow> (go_error \<Rightarrow> 'r) \<Rightarrow> 'r \<times> cluster \<Rightarrow> 'r outcome \<times> cluster" where
  "ref_ocall op c w bad good = (case c of
     None \<Rightarrow> (Panic ''nil connection'', w)
   | Some _ \<Rightarrow> (case attempt op w bad good of (r, w') \<Rightarrow> (Ok r, w')))"

definition ref_ocm :: "cluster ocm" where
  "ref_ocm = \<lparr>
     o_build_logger = (\<lambda>w. (None, w)),
     o_connect = (\<lambda>token w. attempt ''connect'' w Inl (Inr 1, w)),
     o_close = (\<lambda>c w. (case c of None \<Rightarrow> (Panic ''nil connection'', w) | Some _ \<Rightarrow> (Ok (), w))),
     o_search_clusters = (\<lambda>c q w. ref_ocall ''search_clusters'' c w (\<lambda>e. ([], Some e)) ((c_ocmClusters w, None), w)),
     o_get_cluster = (\<lambda>c i w. ref_ocall ''get_cluster'' c w Inl (Inr (Some (Some (c_hypershift w))), w)),
     o_list_machinepools = (\<lambda>c i w. ref_ocall ''list_machinepools'' c w (\<lambda>e. ([], Some e)) ((c_machinepools w, None), w)),
     o_add_machinepool = (\<lambda>c i p w. ref_ocall ''add_machinepool'' c w Some
       (None, w\<lparr>c_machinepools := c_machinepools w @ (case p of None \<Rightarrow> [] | Some x \<Rightarrow> [x])\<rparr>)),
     o_delete_machinepool = (\<lambda>c i k w. ref_ocall ''delete_machinepool'' c w Some
       (None, w\<lparr>c_machinepools := remove_by mp_id k (c_machinepools w)\<rparr>)),
     o_list_nodepools = (\<lambda>c i w. ref_ocall ''list_nodepools'' c w (\<lambda>e. ([], Some e)) ((c_nodepools w, None), w)),
     o_add_nodepool = (\<lambda>c i p w. ref_ocall ''add_nodepool'' c w Some
       (None, w\<lparr>c_nodepools := c_nodepools w @ (case p of None \<Rightarrow> [] | Some x \<Rightarrow> [x])\<rparr>)),
     o_delete_nodepool = (\<lambda>c i k w. ref_ocall ''delete_nodepool'' c w Some
       (None, w\<lparr>c_nodepools := remove_by np_id k (c_nodepools w)\<rparr>))\<rparr>"

text \<open>
  The decoder of the reference environment reads provider specs of the form
  \<open>{"instanceType":"t"}\<close>.
\<close>

definition spec_prefix :: string where
  "spec_prefix = ''{'' @ [CHR 34] @ ''instanceType'' @ [CHR 34] @ '':'' @ [CHR 34]"

definition ref_unmarshal :: "string \<Rightarrow> go_error + aws_config option" where
  "ref_unmarshal raw = (if prefix spec_prefix raw
     then Inr (Some \<lparr>instanceType = takeWhile (\<lambda>c. c \<noteq> CHR 34) (drop (length spec_prefix) raw), aws_rest = []\<rparr>)
     else Inl (Foreign ''Json'' ''invalid character''))"

definition spec_of :: "string \<Rightarrow> string" where
  "spec_of t = spec_prefix @ t @ [CHR 34] @ ''}''"

definition ref_lib :: lib where
  "ref_lib = \<lparr>
     json_unmarshal = ref_unmarshal,
     is_not_found = (\<lambda>e. case e of Foreign r _ \<Rightarrow> r = ''NotFound'' | _ \<Rightarrow> False),
     contains_finalizer = (\<lambda>aw f. f \<in> set (aw_finalizers aw)),
     add_finalizer = (\<lambda>aw f. if f \<in> set (aw_finalizers aw) then aw
       else aw\<lparr>aw_finalizers := aw_finalizers aw @ [f]\<rparr>),
     remove_finalizer = (\<lambda>aw f. aw\<lparr>aw_finalizers := filter (\<lambda>g. g \<noteq> f) (aw_finalizers aw)\<rparr>),
     state_completed = ''Completed'',
     state_enqueued = ''Pending'',
     build_machinepool = (\<lambda>i t n d. (Some \<lparr>mp_id = i, mp_instanceType = t, mp_labels = d, mp_replicas = n\<rparr>, None)),
     build_nodepool = (\<lambda>i t n d. (Some \<lparr>np_id = i, np_awsInstanceType = Some t, np_labels = d, np_replicas = n\<rparr>, None))\<rparr>"

definition ref_api :: "cluster api" where
  "ref_api = \<lparr>kube = ref_kube, ocm = ref_ocm, lib = ref_lib\<rparr>"

text \<open>A reconciler as it is before \<open>SetupWithManager\<close>, on a given cluster.\<close>

definition ref_state :: "config \<Rightarrow> cluster \<Rightarrow> cluster gstate" where
  "ref_state cfg w = \<lparr>world = w, trace = [], entropy = (\<lambda>_. 0), Config = cfg, ocmClusterID = [],
     ocmToken = [], ocmConnection = None, MachineType = MachineTypeNone, machineCheck = False,
     machineNameCharacterLimit = 0, deletionMessage = [], maxScaleNodesAllowed = 0\<rparr>"

lemmas ref_defs = ref_api_def ref_kube_def ref_ocm_def ref_lib_def ref_state_def empty_cluster_def
  ref_get_def ref_list_def ref_update_appwrapper_def ref_update_machineset_def
  ref_create_machineset_def ref_patch_machineset_def ref_delete_machineset_def
  ref_update_machine_def ref_patch_machine_def ref_patch_node_def ref_ocall_def attempt_def
  find_by_def replace_by_def remove_by_def aw_key_def ms_key_def mc_key_def

end
