(* ===== verification/Scenarios.thy ===== *)
theory Scenarios
  imports RefCluster
begin

text \<open>
  Concrete inputs for the witnesses: an AppWrapper that asks for instances of type \<open>m5\<close>, a machine
  set of that type, a running machine and its node, and a reconciler in the state that a set-up
  with machine sets leaves, on the reference environment.
\<close>

definition job :: appwrapper where
  "job = \<lparr>aw_name = ''job'', aw_namespace = ''ns'', aw_labels = Some [(''orderedinstance'', ''m5'')],
     aw_finalizers = [''instascale.codeflare.dev/finalizer''], aw_deletionTimestamp = None,
     aw_state = ''Pending'', aw_conditions = [''Insufficient resources''], aw_genericItems = [[2]],
     aw_rest = []\<rparr>"

definition machineset_m5 :: "string \<Rightarrow> (string \<times> string) list \<Rightarrow> int32 \<Rightarrow> machineset" where
  "machineset_m5 namespace lbls n = \<lparr>ms_name = ''set'', ms_namespace = namespace, ms_resourceVersion = ''1'',
     ms_labels = Some lbls, ms_replicas = Some n, ms_matchLabels = Some [(''a'', ''b'')],
     ms_matchExpressions = [], ms_templateLabels = Some [], ms_taints = [],
     ms_providerSpec = Some (spec_of ''m5''), ms_availableReplicas = 0, ms_rest = ''r''\<rparr>"

definition machine_m5 :: "(string \<times> string) list \<Rightarrow> machine" where
  "machine_m5 lbls = \<lparr>mc_name = ''m1'', mc_namespace = ''openshift-machine-api'', mc_labels = Some lbls,
     mc_annotations = Some [], mc_phase = Some ''Running'', mc_nodeRef = Some ''n1'', mc_rest = []\<rparr>"

definition node_m5 :: "(string \<times> string) list \<Rightarrow> node" where
  "node_m5 lbls = \<lparr>nd_name = ''n1'', nd_labels = Some lbls,
     nd_annotations = Some [(''machine.openshift.io/machine'', ''openshift-machine-api/m1'')], nd_rest = []\<rparr>"

definition reuse_config :: config where
  "reuse_config = \<lparr>OCMSecretRef = None, MaxScaleoutAllowed = 3, MachineSetsStrategy = ''Reuse''\<rparr>"

definition duplicate_config :: config where
  "duplicate_config = reuse_config\<lparr>MachineSetsStrategy := ''duplicate''\<rparr>"

definition ocm_config :: config where
  "ocm_config = reuse_config\<lparr>OCMSecretRef := Some \<lparr>ref_namespace = ''sys'', ref_name = ''ocm''\<rparr>\<rparr>"

definition ready :: "config \<Rightarrow> machine_type \<Rightarrow> cluster \<Rightarrow> cluster gstate" where
  "ready cfg mt w = (ref_state cfg w)\<lparr>MachineType := mt, machineCheck := True,
     machineNameCharacterLimit := 30, maxScaleNodesAllowed := 3, ocmToken := ''token'', ocmClusterID := ''int''\<rparr>"

definition openshift_ns :: string where
  "openshift_ns = ''openshift-machine-api''"

definition machinesets_on :: "machineset list \<Rightarrow> cluster" where
  "machinesets_on mss = empty_cluster\<lparr>c_machinesets := mss\<rparr>"

lemma run_eq: "fst p = r \<Longrightarrow> p = (r, snd p)"
  by (cases p) simp

lemma ready_fields:
  "trace (ready cfg mt w) = []" "maxScaleNodesAllowed (ready cfg mt w) = 3"
  "machineNameCharacterLimit (ready cfg mt w) = 30" "ocmToken (ready cfg mt w) = ''token''"
  "ocmClusterID (ready cfg mt w) = ''int''"
  by (simp_all add: ready_def ref_state_def)

end
