(* ===== verification/Utils.thy ===== *)
theory Utils
  imports Calls Scenarios
begin

text \<open>
  \<open>controllers/utils.go\<close>: the instance types an AppWrapper asks for, the generated names of machine
  and node pools, the condition that triggers a scale-out, the decoding of a provider
  configuration, and the test whether an object carries an AppWrapper's label.
\<close>

definition orderedinstance :: string where
  "orderedinstance = ''orderedinstance''"

definition getInstanceRequired :: "dict \<Rightarrow> string list" where
  "getInstanceRequired labels = (case dict_get labels orderedinstance of
     Some value \<Rightarrow> split_on CHR ''_'' value
   | None \<Rightarrow> [])"

definition randomSuffixLength :: int where
  "randomSuffixLength = 4"

text \<open>A slice \<open>s[:n]\<close> panics where \<open>n\<close> is negative or beyond the length.\<close>

definition slice_to :: "string \<Rightarrow> int \<Rightarrow> ('s, string) prog" where
  "slice_to s n = (if 0 \<le> n \<and> n \<le> int (length s) then ret (take (nat n) s)
     else panic ''slice bounds out of range'')"

definition generateMachineName :: "string \<Rightarrow> ('w gstate, string) prog" where
  "generateMachineName awName =
     bnd (gets machineNameCharacterLimit) (\<lambda>limit.
     let maxBaseNameLength = limit - randomSuffixLength - 1 in
     bnd (if int (length awName) > maxBaseNameLength then slice_to awName maxBaseNameLength
          else ret awName) (\<lambda>base.
     bnd (rand_intn (2 ^ 16)) (\<lambda>n.
     ret (base @ ''-'' @ format_04x n))))"

fun containsInsufficientCondition :: "string list \<Rightarrow> bool" where
  "containsInsufficientCondition [] = False"
| "containsInsufficientCondition (msg # msgs) =
     (if str_contains msg ''Insufficient'' then True else containsInsufficientCondition msgs)"

text \<open>
  The pointer to the decoded configuration and the error. The decoder writes through a pointer to
  the pointer, so a JSON \<open>null\<close> gives a nil configuration and no error.
\<close>

definition zero_aws_config :: aws_config where
  "zero_aws_config = \<lparr>instanceType = [], aws_rest = []\<rparr>"

definition ProviderSpecFromRawExtension :: "'w api \<Rightarrow> string option \<Rightarrow> aws_config option \<times> go_error option" where
  "ProviderSpecFromRawExtension api rawExtension = (case rawExtension of
     None \<Rightarrow> (Some zero_aws_config, None)
   | Some raw \<Rightarrow> (case json_unmarshal (lib api) raw of
       Inl err \<Rightarrow> (None, Some (Errorf ''error unmarshalling providerSpec: '' err))
     | Inr spec \<Rightarrow> (spec, None)))"

fun contains :: "string list \<Rightarrow> string \<Rightarrow> bool" where
  "contains [] str = False"
| "contains (v # s) str = (if v = str then True else contains s str)"

definition hasAwLabel :: "dict \<Rightarrow> appwrapper \<Rightarrow> bool" where
  "hasAwLabel labels aw = (case dict_get labels (aw_id aw) of
     None \<Rightarrow> False | Some value \<Rightarrow> value = aw_id aw)"

subsection \<open>Lemmas\<close>

lemma contains_set [simp]: "contains s str \<longleftrightarrow> str \<in> set s"
  by (induction s) auto

lemma containsInsufficientCondition_set:
  "containsInsufficientCondition msgs \<longleftrightarrow> (\<exists>m \<in> set msgs. sublist ''Insufficient'' m)"
  by (induction msgs) (simp_all add: str_contains_sublist)

lemma wp_rand_intn:
  assumes "0 < n" "\<And>k e. k < nat n \<Longrightarrow> Q k (s\<lparr>entropy := e\<rparr>)"
  shows "wp (rand_intn n) Q E s"
  using assms by (simp add: rand_intn_def wp_def bnd_def draw_def ret_def nat_less_iff)

text \<open>A name is the beginning of the AppWrapper's name, a dash and four hexadecimal digits.\<close>

lemma wp_generateMachineName:
  assumes limit: "5 \<le> machineNameCharacterLimit s"
    and post: "\<And>n e. n < 2 ^ 16 \<Longrightarrow>
      Q (take (nat (machineNameCharacterLimit s - 5)) awName @ ''-'' @ format_04x n) (s\<lparr>entropy := e\<rparr>)"
  shows "wp (generateMachineName awName) Q E s"
proof -
  have short: "\<not> int (length awName) > machineNameCharacterLimit s - 5 \<Longrightarrow>
      take (nat (machineNameCharacterLimit s - 5)) awName = awName"
    using limit by (intro take_all) linarith
  show ?thesis
    using limit post short
    by (auto simp: generateMachineName_def randomSuffixLength_def slice_to_def Let_def
      intro!: wp_rand_intn)
qed

definition machine_name :: "int \<Rightarrow> string \<Rightarrow> nat \<Rightarrow> string" where
  "machine_name limit awName n = take (nat (limit - 5)) awName @ ''-'' @ format_04x n"

lemma generateMachineName_Ok:
  assumes "generateMachineName awName s = (Ok name, t)"
  shows "\<exists>n < 2 ^ 16. name = machine_name (machineNameCharacterLimit s) awName n"
proof -
  let ?lim = "machineNameCharacterLimit s"
  have "\<not> int (length awName) > ?lim - 5 \<Longrightarrow> take (nat (?lim - 5)) awName = awName"
    by (intro take_all) linarith
  with assms have "name = machine_name ?lim awName (nat (int (entropy s 0) mod 2 ^ 16))"
    by (auto simp: generateMachineName_def machine_name_def randomSuffixLength_def slice_to_def
      rand_intn_def draw_def Let_def bnd_Ok split: if_splits)
  then show ?thesis by (intro exI [of _ "nat (int (entropy s 0) mod 2 ^ 16)"]) (simp add: nat_less_iff)
qed

lemma emits_slice_to [emits_intros]: "emits P (slice_to s n)"
  by (simp add: slice_to_def extends.stays_ret extends.stays_panic)

lemma keeps_slice_to [frame_intros]: "stays_in (same f) (slice_to s n)"
  by (simp add: slice_to_def keeps.stays_ret keeps.stays_panic)

lemma emits_generateMachineName [emits_intros]: "emits P (generateMachineName awName)"
  unfolding generateMachineName_def Let_def by (intro emits_intros)

lemma keeps_generateMachineName [frame_intros]:
  "outside f \<Longrightarrow> stays_in (same f) (generateMachineName awName)"
  unfolding generateMachineName_def Let_def by (intro frame_intros)

lemma length_machine_name:
  "5 \<le> limit \<Longrightarrow> n < 2 ^ 16 \<Longrightarrow> int (length (machine_name limit awName n)) \<le> limit"
  using length_format_04x [of n] by (simp add: machine_name_def)

lemma generateMachineName_panics:
  "(\<exists>msg t. generateMachineName awName s = (Panic msg, t)) \<longleftrightarrow>
    machineNameCharacterLimit s < 5 \<and> machineNameCharacterLimit s - 5 < int (length awName)"
  by (auto simp: generateMachineName_def randomSuffixLength_def slice_to_def Let_def bnd_def gets_def
    ret_def panic_def rand_intn_def draw_def)

subsection \<open>Properties\<close>

text \<open>
  C24 (generateMachineName_bounded): with a limit of at least five characters, a name is always
  generated: the beginning of the AppWrapper's name, a dash and four hexadecimal digits, no longer
  than the limit, and nothing but the random source is used.
\<close>

theorem generateMachineName_bounded:
  assumes "5 \<le> machineNameCharacterLimit s"
  shows "\<exists>name n e. generateMachineName awName s = (Ok name, s\<lparr>entropy := e\<rparr>) \<and> n < 2 ^ 16 \<and>
    name = take (nat (machineNameCharacterLimit s - 5)) awName @ ''-'' @ format_04x n \<and>
    length (format_04x n) = 4 \<and> int (length name) \<le> machineNameCharacterLimit s"
proof -
  have "wp (generateMachineName awName) (\<lambda>name t. \<exists>n e. t = s\<lparr>entropy := e\<rparr> \<and> n < 2 ^ 16 \<and>
      name = machine_name (machineNameCharacterLimit s) awName n) (\<lambda>_. False) s"
    by (rule wp_generateMachineName [OF assms]) (auto simp: machine_name_def)
  then obtain name n e where "generateMachineName awName s = (Ok name, s\<lparr>entropy := e\<rparr>)" "n < 2 ^ 16"
    "name = machine_name (machineNameCharacterLimit s) awName n"
    by (auto simp: wp_def split: prod.splits outcome.splits)
  then show ?thesis
    using length_machine_name [OF assms, of n awName] length_format_04x [of n]
    by (intro exI [of _ name] exI [of _ n] exI [of _ e] conjI) (simp_all add: machine_name_def)
qed

theorem generateMachineName_bounded_witness:
  "\<exists>name e. generateMachineName ''a-very-long-appwrapper-name-indeed'' (ready ocm_config MachineTypeMachinePool empty_cluster) =
     (Ok name, (ready ocm_config MachineTypeMachinePool empty_cluster)\<lparr>entropy := e\<rparr>) \<and> length name \<le> 30"
  using generateMachineName_bounded [of "ready ocm_config MachineTypeMachinePool empty_cluster"
    "''a-very-long-appwrapper-name-indeed''"]
  by (auto simp: ready_fields)

end
