(* ===== verification/MachineLabels.thy ===== *)
theory MachineLabels
  imports Utils Scenarios
begin

text \<open>
  The label operations of \<open>controllers/machineset.go\<close>: putting an AppWrapper's label on a machine and
  on its node, moving the labels of one AppWrapper to another (\<open>swapNodeLabels\<close>), and taking the
  scale-out label off a machine set. \<open>json.Marshal\<close> of the patches cannot fail, so the branch for its
  error is left out.
\<close>

definition namespaceToList :: string where
  "namespaceToList = ''openshift-machine-api''"

text \<open>The label that records on a machine set how many replicas an AppWrapper has asked for.\<close>

definition scale_label :: "appwrapper \<Rightarrow> string" where
  "scale_label aw = ''instascale.codeflare.dev-'' @ aw_id aw"

definition label_path :: "string \<Rightarrow> string" where
  "label_path k = ''/metadata/labels/'' @ k"

definition add_label_patch :: "appwrapper \<Rightarrow> patch" where
  "add_label_patch aw = [\<lparr>p_op = ''add'', p_path = label_path (aw_id aw), p_value = aw_id aw\<rparr>]"

definition addLabelToMachine :: "'w api \<Rightarrow> appwrapper \<Rightarrow> string \<Rightarrow> ('w gstate, go_error option) prog" where
  "addLabelToMachine api aw machineName =
     bnd (get_machine api (namespaceToList, machineName)) (\<lambda>(machine, err). case err of
       Some e \<Rightarrow> ret (Some e)
     | None \<Rightarrow>
         bnd (patch_machine api machine (add_label_patch aw)) (\<lambda>err. ret err))"

definition addLabelToNode :: "'w api \<Rightarrow> appwrapper \<Rightarrow> string \<Rightarrow> ('w gstate, go_error option) prog" where
  "addLabelToNode api aw nodeName =
     bnd (patch_node api nodeName (add_label_patch aw)) (\<lambda>(_, err). ret err)"

definition machine_swap_patch :: "appwrapper \<Rightarrow> appwrapper \<Rightarrow> patch" where
  "machine_swap_patch oldAw newAw =
     [\<lparr>p_op = ''remove'', p_path = label_path (aw_name oldAw @ ''-'' @ aw_namespace oldAw), p_value = aw_name oldAw\<rparr>,
      \<lparr>p_op = ''add'', p_path = label_path (aw_name newAw @ ''-'' @ aw_namespace newAw), p_value = aw_name newAw\<rparr>]"

definition patchMachineLabels :: "'w api \<Rightarrow> appwrapper \<Rightarrow> appwrapper \<Rightarrow> string \<Rightarrow> ('w gstate, go_error option) prog" where
  "patchMachineLabels api oldAw newAw machineName =
     bnd (get_machine api (namespaceToList, machineName)) (\<lambda>(machine, err). case err of
       Some e \<Rightarrow> ret (Some e)
     | None \<Rightarrow>
         bnd (patch_machine api machine (machine_swap_patch oldAw newAw)) (\<lambda>err. ret err))"

text \<open>The label added to a node joins the new AppWrapper's name with the old one's namespace.\<close>

definition node_swap_patch :: "appwrapper \<Rightarrow> appwrapper \<Rightarrow> patch" where
  "node_swap_patch oldAw newAw =
     [\<lparr>p_op = ''remove'', p_path = label_path (aw_name oldAw @ ''-'' @ aw_namespace oldAw), p_value = aw_name oldAw\<rparr>,
      \<lparr>p_op = ''add'', p_path = label_path (aw_name newAw @ ''-'' @ aw_namespace oldAw), p_value = aw_name newAw\<rparr>]"

definition patchNodeLabels :: "'w api \<Rightarrow> appwrapper \<Rightarrow> appwrapper \<Rightarrow> string \<Rightarrow> ('w gstate, go_error option) prog" where
  "patchNodeLabels api oldAw newAw nodeName =
     bnd (patch_node api nodeName (node_swap_patch oldAw newAw)) (\<lambda>(_, err). ret err)"

definition swapMachine :: "'w api \<Rightarrow> appwrapper \<Rightarrow> appwrapper \<Rightarrow> machine \<Rightarrow> unit \<Rightarrow>
    ('w gstate, (unit, go_error option) ctl) prog" where
  "swapMachine api oldAw newAw machine _ =
     bnd (deref (mc_nodeRef machine)) (\<lambda>nodeName.
     bnd (patchMachineLabels api oldAw newAw (mc_name machine)) (\<lambda>err. case err of
       Some e \<Rightarrow> ret (Return (Some e))
     | None \<Rightarrow>
         bnd (patchNodeLabels api oldAw newAw nodeName) (\<lambda>err. case err of
           Some e \<Rightarrow> ret (Return (Some e))
         | None \<Rightarrow> ret (Next ()))))"

definition swapNodeLabels :: "'w api \<Rightarrow> appwrapper \<Rightarrow> appwrapper \<Rightarrow> ('w gstate, go_error option) prog" where
  "swapNodeLabels api oldAw newAw =
     bnd (list_machines api (MatchSet [(aw_name oldAw, aw_name oldAw)]) []) (\<lambda>(allMachines, err). case err of
       Some e \<Rightarrow> ret (Some e)
     | None \<Rightarrow> after_loop (for_each allMachines (swapMachine api oldAw newAw) ()) (\<lambda>_. ret None))"

definition removeMachineSetLabel :: "'w api \<Rightarrow> appwrapper \<Rightarrow> string \<Rightarrow> ('w gstate, go_error option) prog" where
  "removeMachineSetLabel api aw machineSetName =
     bnd (get_machineset api (namespaceToList, machineSetName)) (\<lambda>(machineSet, err). case err of
       Some e \<Rightarrow> ret (Some e)
     | None \<Rightarrow>
         (let labelValue = dict_index (ms_labels machineSet) (scale_label aw) in
         bnd (patch_machineset api machineSet
           [\<lparr>p_op = ''remove'', p_path = label_path (scale_label aw), p_value = labelValue\<rparr>]) (\<lambda>err.
         ret err)))"

subsection \<open>Calls and settings\<close>

lemma emits_label_operations [emits_intros]:
  "(\<And>k r. P (GetMachine k r)) \<Longrightarrow> (\<And>m r. P (PatchMachine m (add_label_patch aw) r)) \<Longrightarrow>
    emits P (addLabelToMachine api aw mn)"
  "(\<And>n r. P (PatchNode n (add_label_patch aw) r)) \<Longrightarrow> emits P (addLabelToNode api aw nn)"
  "(\<And>k r. P (GetMachine k r)) \<Longrightarrow> (\<And>m r. P (PatchMachine m (machine_swap_patch oldAw newAw) r)) \<Longrightarrow>
    emits P (patchMachineLabels api oldAw newAw mn)"
  "(\<And>n r. P (PatchNode n (node_swap_patch oldAw newAw) r)) \<Longrightarrow> emits P (patchNodeLabels api oldAw newAw nn)"
  "(\<And>k r. P (GetMachineSet k r)) \<Longrightarrow> (\<And>m p r. P (PatchMachineSet m p r)) \<Longrightarrow>
    emits P (removeMachineSetLabel api aw sn)"
  unfolding addLabelToMachine_def addLabelToNode_def patchMachineLabels_def patchNodeLabels_def
    removeMachineSetLabel_def
  by (intro emits_intros; simp)+

lemma emits_swapNodeLabels [emits_intros]:
  assumes "\<And>sel r. P (ListMachines sel r)" "\<And>k r. P (GetMachine k r)"
    "\<And>m r. P (PatchMachine m (machine_swap_patch oldAw newAw) r)"
    "\<And>n r. P (PatchNode n (node_swap_patch oldAw newAw) r)"
  shows "emits P (swapNodeLabels api oldAw newAw)"
  unfolding swapNodeLabels_def swapMachine_def by (intro emits_intros assms)

lemma keeps_label_operations [frame_intros]:
  assumes "outside f"
  shows "stays_in (same f) (addLabelToMachine api aw mn)" "stays_in (same f) (addLabelToNode api aw nn)"
    "stays_in (same f) (patchMachineLabels api oldAw newAw mn)"
    "stays_in (same f) (patchNodeLabels api oldAw newAw nn)"
    "stays_in (same f) (removeMachineSetLabel api aw sn)"
    "stays_in (same f) (swapNodeLabels api oldAw newAw)"
  unfolding addLabelToMachine_def addLabelToNode_def patchMachineLabels_def patchNodeLabels_def
    removeMachineSetLabel_def swapNodeLabels_def swapMachine_def
  by (intro frame_intros assms)+

subsection \<open>Runs\<close>

text \<open>The calls for one machine of a swap that succeeds.\<close>

definition swap_step :: "appwrapper \<Rightarrow> appwrapper \<Rightarrow> machine \<Rightarrow> event list \<Rightarrow> bool" where
  "swap_step oldAw newAw machine es \<longleftrightarrow> (\<exists>nodeName obj nd. mc_nodeRef machine = Some nodeName \<and>
     es = [GetMachine (namespaceToList, mc_name machine) (obj, None),
           PatchMachine obj (machine_swap_patch oldAw newAw) None,
           PatchNode nodeName (node_swap_patch oldAw newAw) (nd, None)])"

lemma call_Ok:
  "call ev f s = (Ok r, t) \<Longrightarrow> trace t = trace s @ [ev r]"
  by (auto simp: call_def split: prod.splits)

lemma swapMachine_Next:
  assumes "swapMachine api oldAw newAw machine u s = (Ok (Next l), t)"
  shows "\<exists>es. trace t = trace s @ es \<and> swap_step oldAw newAw machine es"
  using assms
  by (auto simp: swapMachine_def patchMachineLabels_def patchNodeLabels_def bnd_Ok deref_def
      swap_step_def call_defs dest!: call_Ok split: option.splits)

lemma swapMachine_no_Break: "swapMachine api oldAw newAw machine u s \<noteq> (Ok (Break l), t)"
  by (auto simp: swapMachine_def bnd_Ok split: option.splits)

lemma swapMachine_Return: "swapMachine api oldAw newAw machine u s = (Ok (Return r), t) \<Longrightarrow> r \<noteq> None"
  by (auto simp: swapMachine_def bnd_Ok split: option.splits)

lemma swap_loop:
  assumes "for_each ms (swapMachine api oldAw newAw) () s = (Ok z, t)" "z = Inl () \<or> z = Inr None"
  shows "\<exists>ess. trace t = trace s @ concat ess \<and> list_all2 (swap_step oldAw newAw) ms ess"
  using assms
proof (induction ms arbitrary: s)
  case Nil
  then show ?case by (intro exI [of _ "[]"]) simp
next
  case (Cons m ms)
  from Cons.prems(1) show ?case
  proof (cases rule: for_each_ConsE)
    case (continued l' s1)
    from swapMachine_Next [OF continued(1)] obtain es where
      es: "trace s1 = trace s @ es" "swap_step oldAw newAw m es" by blast
    from continued(2) have "for_each ms (swapMachine api oldAw newAw) () s1 = (Ok z, t)" by simp
    from Cons.IH [OF this Cons.prems(2)] obtain ess where
      "trace t = trace s1 @ concat ess" "list_all2 (swap_step oldAw newAw) ms ess" by blast
    with es show ?thesis by (intro exI [of _ "es # ess"]) simp
  next
    case (broken l')
    then show ?thesis by (simp add: swapMachine_no_Break)
  next
    case (returned r)
    with Cons.prems(2) show ?thesis by (auto dest: swapMachine_Return)
  qed
qed

lemma swapNodeLabels_run:
  assumes "swapNodeLabels api oldAw newAw s = (Ok None, t)"
  shows "\<exists>machines ess. list_all2 (swap_step oldAw newAw) machines ess \<and>
    trace t = trace s @
      ListMachines (MatchSet [(aw_name oldAw, aw_name oldAw)]) (machines, None) # concat ess"
proof -
  from assms obtain machines s1 where
    l: "list_machines api (MatchSet [(aw_name oldAw, aw_name oldAw)]) [] s = (Ok (machines, None), s1)" and
    loop: "after_loop (for_each machines (swapMachine api oldAw newAw) ()) (\<lambda>_. ret None) s1 = (Ok None, t)"
    by (auto simp: swapNodeLabels_def bnd_Ok split: option.splits)
  from loop have "\<exists>z. for_each machines (swapMachine api oldAw newAw) () s1 = (Ok z, t) \<and>
      (z = Inl () \<or> z = Inr None)"
    by (cases rule: after_loop_OkE) auto
  then obtain ess where "trace t = trace s1 @ concat ess" "list_all2 (swap_step oldAw newAw) machines ess"
    using swap_loop by blast
  moreover have "trace s1 = trace s @
      [ListMachines (MatchSet [(aw_name oldAw, aw_name oldAw)]) (machines, None)]"
    using l by (simp add: list_machines_def call_Ok)
  ultimately show ?thesis by (intro exI [of _ machines] exI [of _ ess]) simp
qed

subsection \<open>Properties\<close>

text \<open>
  C15 (swapNodeLabels_calls): a swap that succeeds has listed the machines whose label maps the old
  AppWrapper's name to itself, and then, for each of them in order, read the machine, patched it, and
  patched the node it refers to, with no other call. In particular every listed machine had a node,
  and no machine was left half moved.
\<close>

theorem swapNodeLabels_calls:
  assumes "swapNodeLabels api oldAw newAw s = (Ok None, t)"
  shows "\<exists>machines ess. list_all2 (swap_step oldAw newAw) machines ess \<and>
    trace t = trace s @
      ListMachines (MatchSet [(aw_name oldAw, aw_name oldAw)]) (machines, None) # concat ess"
  using assms by (rule swapNodeLabels_run)

definition other_job :: appwrapper where
  "other_job = job\<lparr>aw_name := ''other'', aw_namespace := ''ns2''\<rparr>"

definition swap_cluster :: cluster where
  "swap_cluster = empty_cluster\<lparr>c_machines := [machine_m5 [(''job'', ''job''), (''job-ns'', ''job-ns'')]],
     c_nodes := [node_m5 [(''job-ns'', ''job-ns'')]]\<rparr>"

theorem swapNodeLabels_calls_witness:
  "\<exists>machines ess. list_all2 (swap_step job other_job) machines ess \<and>
    trace (snd (swapNodeLabels ref_api job other_job (ready reuse_config MachineTypeMachineSet swap_cluster))) =
      ListMachines (MatchSet [(aw_name job, aw_name job)]) (machines, None) # concat ess"
proof -
  let ?s = "ready reuse_config MachineTypeMachineSet swap_cluster"
  have "fst (swapNodeLabels ref_api job other_job ?s) = Ok None" by code_simp
  from swapNodeLabels_calls [OF run_eq [OF this]] show ?thesis
    unfolding ready_fields append_Nil .
qed

end
