(* ===== verification/Budget.thy ===== *)
theory Budget
  imports Calls
begin

text \<open>
  How often a program makes a certain kind of call. \<open>bounded K c m\<close>: when \<open>m\<close> ends with the result
  \<open>r\<close>, it has made at most \<open>c r\<close> calls of kind \<open>K\<close>. The bound depends on the result, because the
  controllers leave their loops right after a change: a loop body that goes on (\<open>Next\<close>, \<open>Break\<close>)
  has changed nothing, one that returns has made its changes (\<open>ctl_cost\<close>), and so the whole loop
  makes the changes of one iteration only (\<open>loop_cost\<close>).
\<close>

definition bounded :: "(event \<Rightarrow> bool) \<Rightarrow> ('a outcome \<Rightarrow> nat) \<Rightarrow> ('w gstate, 'a) prog \<Rightarrow> bool" where
  "bounded K c m \<longleftrightarrow> (\<forall>s r t. m s = (r, t) \<longrightarrow>
     (\<exists>es. trace t = trace s @ es \<and> length (filter K es) \<le> c r))"

definition ctl_cost :: "nat \<Rightarrow> ('l, 'r) ctl outcome \<Rightarrow> nat" where
  "ctl_cost n r = (case r of Ok (Next _) \<Rightarrow> 0 | Ok (Break _) \<Rightarrow> 0 | _ \<Rightarrow> n)"

definition loop_cost :: "nat \<Rightarrow> ('l + 'r) outcome \<Rightarrow> nat" where
  "loop_cost n r = (case r of Ok (Inl _) \<Rightarrow> 0 | _ \<Rightarrow> n)"

lemma ctl_cost_simps [simp]:
  "ctl_cost n (Ok (Next l)) = 0" "ctl_cost n (Ok (Break l)) = 0"
  "ctl_cost n (Ok (Return r)) = n" "ctl_cost n (Panic msg) = n"
  by (simp_all add: ctl_cost_def)

lemma loop_cost_simps [simp]:
  "loop_cost n (Ok (Inl l)) = 0" "loop_cost n (Ok (Inr r)) = n" "loop_cost n (Panic msg) = n"
  by (simp_all add: loop_cost_def)

lemma bounded_quiet:
  assumes "emits (\<lambda>e. \<not> K e) m"
  shows "bounded K c m"
  unfolding bounded_def
proof (intro allI impI)
  fix s r t assume "m s = (r, t)"
  with assms obtain es where "trace t = trace s @ es" "list_all (\<lambda>e. \<not> K e) es" by (rule emitsD)
  then show "\<exists>es. trace t = trace s @ es \<and> length (filter K es) \<le> c r"
    by (intro exI [of _ es]) (simp add: filter_empty_conv list_all_iff)
qed

text \<open>One call of any kind costs at most one.\<close>

lemma bounded_call: "bounded K (\<lambda>_. 1) (call ev f)"
  by (auto simp: bounded_def call_def split: prod.splits)

text \<open>A quiet program before, and a quiet program after that ends with a result of that cost.\<close>

lemma bounded_before:
  assumes m: "emits (\<lambda>e. \<not> K e) m" and k: "\<And>x. bounded K c (k x)"
  shows "bounded K c (bnd m k)"
  unfolding bounded_def
proof (intro allI impI)
  fix s r t assume run: "bnd m k s = (r, t)"
  obtain q u where mu: "m s = (q, u)" by (cases "m s")
  from m mu obtain es where es: "trace u = trace s @ es" "list_all (\<lambda>e. \<not> K e) es" by (rule emitsD)
  then have none: "filter K es = []" by (simp add: filter_empty_conv list_all_iff)
  show "\<exists>es. trace t = trace s @ es \<and> length (filter K es) \<le> c r"
  proof (cases q)
    case (Ok x)
    with run mu have "k x u = (r, t)" by (simp add: bnd_def)
    with k obtain fs where "trace t = trace u @ fs" "length (filter K fs) \<le> c r"
      unfolding bounded_def by blast
    with es none show ?thesis by (intro exI [of _ "es @ fs"]) simp
  next
    case (Panic msg)
    with run mu es none show ?thesis by (intro exI [of _ es]) (simp add: bnd_def)
  qed
qed

lemma bounded_after:
  assumes m: "bounded K (\<lambda>_. n) m" and k: "\<And>x. emits (\<lambda>e. \<not> K e) (k x)"
    and cost: "\<And>x s r t. k x s = (r, t) \<Longrightarrow> n \<le> c r" and panic: "\<And>msg. n \<le> c (Panic msg)"
  shows "bounded K c (bnd m k)"
  unfolding bounded_def
proof (intro allI impI)
  fix s r t assume run: "bnd m k s = (r, t)"
  obtain q u where mu: "m s = (q, u)" by (cases "m s")
  with m obtain es where es: "trace u = trace s @ es" "length (filter K es) \<le> n"
    unfolding bounded_def by blast
  show "\<exists>es. trace t = trace s @ es \<and> length (filter K es) \<le> c r"
  proof (cases q)
    case (Ok x)
    with run mu have ku: "k x u = (r, t)" by (simp add: bnd_def)
    with k obtain fs where "trace t = trace u @ fs" "list_all (\<lambda>e. \<not> K e) fs" by (meson emitsD)
    moreover from this have "filter K fs = []" by (simp add: filter_empty_conv list_all_iff)
    ultimately show ?thesis using es cost [OF ku] by (intro exI [of _ "es @ fs"]) simp
  next
    case (Panic msg)
    with run mu es panic [of msg] show ?thesis by (intro exI [of _ es]) (simp add: bnd_def)
  qed
qed

lemma bounded_weaken:
  assumes "bounded K c m" "\<And>r. c r \<le> d r"
  shows "bounded K d m"
  unfolding bounded_def
proof (intro allI impI)
  fix s r t assume "m s = (r, t)"
  with assms(1) obtain es where "trace t = trace s @ es" "length (filter K es) \<le> c r"
    unfolding bounded_def by blast
  with assms(2) [of r] show "\<exists>es. trace t = trace s @ es \<and> length (filter K es) \<le> d r"
    by (intro exI [of _ es]) simp
qed

text \<open>The loop rule.\<close>

lemma bounded_for_each:
  assumes "\<And>x l. x \<in> set xs \<Longrightarrow> bounded K (ctl_cost n) (body x l)"
  shows "bounded K (loop_cost n) (for_each xs body l)"
  using assms
proof (induction xs arbitrary: l)
  case Nil
  show ?case by (rule bounded_quiet) (simp add: extends.stays_ret)
next
  case (Cons x xs)
  have body: "bounded K (ctl_cost n) (body x l)" by (rule Cons.prems) simp
  have rest: "bounded K (loop_cost n) (for_each xs body l')" for l'
    by (rule Cons.IH) (simp add: Cons.prems)
  show ?case
    unfolding bounded_def
  proof (intro allI impI)
    fix s r t assume run: "for_each (x # xs) body l s = (r, t)"
    obtain q u where bu: "body x l s = (q, u)" by (cases "body x l s")
    with body obtain es where es: "trace u = trace s @ es" "length (filter K es) \<le> ctl_cost n q"
      unfolding bounded_def by blast
    show "\<exists>es. trace t = trace s @ es \<and> length (filter K es) \<le> loop_cost n r"
    proof (cases "\<exists>l'. q = Ok (Next l')")
      case True
      then obtain l' where q: "q = Ok (Next l')" by blast
      with run bu have "for_each xs body l' u = (r, t)" by (simp add: bnd_def)
      with rest obtain fs where "trace t = trace u @ fs" "length (filter K fs) \<le> loop_cost n r"
        unfolding bounded_def by blast
      with es q show ?thesis by (intro exI [of _ "es @ fs"]) simp
    next
      case False
      with run bu es show ?thesis
        by (intro exI [of _ es]) (auto simp: bnd_def ret_def split: outcome.splits ctl.splits)
    qed
  qed
qed

lemma ctl_cost_loop_ctl [simp]: "ctl_cost n (Ok (loop_ctl z)) = loop_cost n (Ok z)"
  by (cases z) simp_all

lemma bounded_loop_ctl:
  assumes "bounded K (loop_cost n) m"
  shows "bounded K (ctl_cost n) (bnd m (\<lambda>z. ret (loop_ctl z)))"
  unfolding bounded_def
proof (intro allI impI)
  fix s r t assume run: "bnd m (\<lambda>z. ret (loop_ctl z)) s = (r, t)"
  obtain q u where mu: "m s = (q, u)" by (cases "m s")
  with assms obtain es where "trace u = trace s @ es" "length (filter K es) \<le> loop_cost n q"
    unfolding bounded_def by blast
  with run mu show "\<exists>es. trace t = trace s @ es \<and> length (filter K es) \<le> ctl_cost n r"
    by (intro exI [of _ es]) (auto simp: bnd_def ret_def split: outcome.splits)
qed

lemma bounded_after_loop:
  assumes m: "bounded K (loop_cost n) m" and k: "\<And>l. bounded K (\<lambda>_. n) (k l)"
  shows "bounded K (\<lambda>_. n) (after_loop m k)"
  unfolding bounded_def
proof (intro allI impI)
  fix s r t assume run: "after_loop m k s = (r, t)"
  obtain q u where mu: "m s = (q, u)" by (cases "m s")
  with m obtain es where es: "trace u = trace s @ es" "length (filter K es) \<le> loop_cost n q"
    unfolding bounded_def by blast
  show "\<exists>es. trace t = trace s @ es \<and> length (filter K es) \<le> n"
  proof (cases "\<exists>l. q = Ok (Inl l)")
    case True
    then obtain l where q: "q = Ok (Inl l)" by blast
    with run mu have "k l u = (r, t)" by (simp add: after_loop_def bnd_def)
    with k obtain fs where "trace t = trace u @ fs" "length (filter K fs) \<le> n"
      unfolding bounded_def by blast
    with es q show ?thesis by (intro exI [of _ "es @ fs"]) simp
  next
    case False
    with run mu es show ?thesis
      by (intro exI [of _ es])
        (auto simp: after_loop_def bnd_def ret_def loop_cost_def split: outcome.splits sum.splits)
  qed
qed

lemma bounded_if: "(b \<Longrightarrow> bounded K c m) \<Longrightarrow> (\<not> b \<Longrightarrow> bounded K c n) \<Longrightarrow> bounded K c (if b then m else n)"
  by simp

lemma bounded_pair: "(\<And>x y. p = (x, y) \<Longrightarrow> bounded K c (k x y)) \<Longrightarrow> bounded K c (case p of (x, y) \<Rightarrow> k x y)"
  by (cases p) simp

lemma bounded_option:
  "(p = None \<Longrightarrow> bounded K c m) \<Longrightarrow> (\<And>x. p = Some x \<Longrightarrow> bounded K c (k x)) \<Longrightarrow>
    bounded K c (case p of None \<Rightarrow> m | Some x \<Rightarrow> k x)"
  by (cases p) simp_all

lemma bounded_sum:
  "(\<And>x. p = Inl x \<Longrightarrow> bounded K c (h x)) \<Longrightarrow> (\<And>x. p = Inr x \<Longrightarrow> bounded K c (k x)) \<Longrightarrow>
    bounded K c (case p of Inl x \<Rightarrow> h x | Inr x \<Rightarrow> k x)"
  by (cases p) simp_all

lemma bounded_let: "bounded K c (k x) \<Longrightarrow> bounded K c (let y = x in k y)"
  by simp

lemma boundedD:
  assumes "bounded K (\<lambda>_. n) m" "m s = (r, t)"
  obtains es where "trace t = trace s @ es" "length (filter K es) \<le> n"
  using assms unfolding bounded_def by blast

end
