(* ===== verification/Evidence.thy ===== *)
theory Evidence
  imports Calls
begin

text \<open>
  Updates of machine sets that are backed by what the program has read. \<open>backed K A\<close> says that every
  machine set the program sends in an update satisfies \<open>K\<close>, a condition on the machine set and on a
  set of calls with their answers: the calls \<open>A\<close> that were made before, and the calls of the program
  itself. So \<open>K\<close> may say that the machine set is a changed copy of a \<^emph>\<open>listed\<close> one, and \<open>n\<close> the number of
  machines in some list. The locale \<open>evidence\<close> asks that more calls never hurt, and gives the rules: the
  order for the program combinators, and the ones by which a program learns from a call.
\<close>

definition backed :: "(event set \<Rightarrow> machineset \<Rightarrow> bool) \<Rightarrow> event set \<Rightarrow> 'w gstate \<Rightarrow> 'w gstate \<Rightarrow> bool" where
  "backed K A s t \<longleftrightarrow> (\<exists>es. trace t = trace s @ es \<and>
     (\<forall>ms r. UpdateMachineSet ms r \<in> set es \<longrightarrow> K (A \<union> set es) ms))"

definition no_update :: "event \<Rightarrow> bool" where
  "no_update e \<longleftrightarrow> (\<forall>ms r. e \<noteq> UpdateMachineSet ms r)"

lemma no_update_simps [simp]:
  "no_update (ListMachineSets sel r1)" "no_update (GetMachineSet k r2)" "no_update (PatchMachineSet m p r3)"
  "no_update (ListMachines sel' r4)" "no_update (GetMachine k r5)" "no_update (UpdateMachine mc r6)"
  "no_update (PatchMachine mc p r7)" "no_update (ListNodes sel r8)" "no_update (PatchNode n p r9)"
  by (simp_all add: no_update_def)

locale evidence =
  fixes K :: "event set \<Rightarrow> machineset \<Rightarrow> bool"
  assumes more: "K A ms \<Longrightarrow> A \<subseteq> B \<Longrightarrow> K B ms"
begin

lemma order: "program_order (backed K A)"
proof
  show "backed K A s s" for s :: "'w gstate"
    by (simp add: backed_def)
  fix s t u :: "'w gstate"
  assume "backed K A s t" "backed K A t u"
  then obtain es fs where es: "trace t = trace s @ es"
      "\<forall>ms r. UpdateMachineSet ms r \<in> set es \<longrightarrow> K (A \<union> set es) ms"
    and fs: "trace u = trace t @ fs"
      "\<forall>ms r. UpdateMachineSet ms r \<in> set fs \<longrightarrow> K (A \<union> set fs) ms"
    unfolding backed_def by blast
  have "K (A \<union> set (es @ fs)) ms" if "UpdateMachineSet ms r \<in> set (es @ fs)" for ms r
  proof (cases "UpdateMachineSet ms r \<in> set es")
    case True
    then show ?thesis by (rule more [OF es(2) [rule_format]]) auto
  next
    case False
    with that have "UpdateMachineSet ms r \<in> set fs" by simp
    then show ?thesis by (rule more [OF fs(2) [rule_format]]) auto
  qed
  with es(1) fs(1) show "backed K A s u"
    unfolding backed_def by (intro exI [of _ "es @ fs"]) auto
qed

lemma quiet: "emits no_update m \<Longrightarrow> stays_in (backed K A) m"
  unfolding stays_in_def extends_def backed_def by (metis list_all_iff no_update_def)

lemma update: "K A ms \<Longrightarrow> stays_in (backed K A) (update_machineset api ms)"
  by (auto simp: stays_in_def backed_def update_machineset_def call_def intro: more split: prod.split)

text \<open>What follows a program may use the calls the program has made.\<close>

lemma learn_run:
  assumes m: "emits no_update m"
    and k: "\<And>s x t es. m s = (Ok x, t) \<Longrightarrow> trace t = trace s @ es \<Longrightarrow> stays_in (backed K (A \<union> set es)) (k x)"
  shows "stays_in (backed K A) (bnd m k)"
  unfolding stays_in_def
proof
  fix s
  obtain q t where mt: "m s = (q, t)" by (cases "m s")
  from m mt obtain es where es: "trace t = trace s @ es" "list_all no_update es" by (rule emitsD)
  then have none: "UpdateMachineSet ms r \<notin> set es" for ms r
    unfolding list_all_iff no_update_def by blast
  show "backed K A s (snd (bnd m k s))"
  proof (cases q)
    case (Ok x)
    with k mt es(1) have "stays_in (backed K (A \<union> set es)) (k x)" by blast
    then obtain fs where fs: "trace (snd (k x t)) = trace t @ fs"
      "\<forall>ms r. UpdateMachineSet ms r \<in> set fs \<longrightarrow> K ((A \<union> set es) \<union> set fs) ms"
      unfolding stays_in_def backed_def by blast
    have "A \<union> set (es @ fs) = (A \<union> set es) \<union> set fs" by auto
    with Ok mt es(1) fs none show ?thesis
      unfolding backed_def by (intro exI [of _ "es @ fs"]) (auto simp: bnd_def)
  next
    case (Panic msg)
    with mt es(1) none show ?thesis by (auto simp: bnd_def backed_def)
  qed
qed

lemma learn:
  assumes "\<And>r. no_update (ev r)" and k: "\<And>r. stays_in (backed K (insert (ev r) A)) (k r)"
  shows "stays_in (backed K A) (bnd (call ev f) k)"
proof (rule learn_run)
  show "emits no_update (call ev f)" by (rule emits_call) (rule assms(1))
  show "stays_in (backed K (A \<union> set es)) (k x)" if "call ev f s = (Ok x, t)" "trace t = trace s @ es" for s x t es
  proof -
    have "es = [ev x]" using that by (auto simp: call_def split: prod.splits)
    with k show ?thesis by simp
  qed
qed

end

text \<open>A weaker condition, on what is known at the end.\<close>

lemma backed_weaken:
  assumes m: "stays_in (backed K A) m" and K: "\<And>B ms. A \<subseteq> B \<Longrightarrow> K B ms \<Longrightarrow> K' B ms"
  shows "stays_in (backed K' A) m"
  unfolding stays_in_def
proof
  fix s
  obtain es where es: "trace (snd (m s)) = trace s @ es"
    "\<forall>ms r. UpdateMachineSet ms r \<in> set es \<longrightarrow> K (A \<union> set es) ms"
    using m unfolding stays_in_def backed_def by blast
  have "\<forall>ms r. UpdateMachineSet ms r \<in> set es \<longrightarrow> K' (A \<union> set es) ms"
    using es(2) K [of "A \<union> set es"] by blast
  with es(1) show "backed K' A s (snd (m s))" unfolding backed_def by blast
qed

lemma backedD:
  assumes "stays_in (backed K {}) m" "trace (snd (m s)) = trace s @ es" "UpdateMachineSet ms r \<in> set es"
  shows "K (set es) ms"
  using assms unfolding stays_in_def backed_def by (metis same_append_eq sup_bot.left_neutral)

end
