(* ===== verification/MachineSetReuse.thy ===== *)
theory MachineSetReuse
  imports MachineLabels Budget Evidence Scenarios
begin

text \<open>
  The "reuse" strategy of \<open>controllers/machineset.go\<close>: scaling existing machine sets up and down for
  an AppWrapper. \<open>reconcileReuseMachineSet\<close> is split along its comments: \<open>labelMachines\<close> is its loop
  over the machines of a machine set, \<open>reuseApply\<close> the part behind the test that a scale-out is
  possible, \<open>reuseMachineSet\<close> the body of the inner loop. \<open>removeMachinesBasedOnReplicas\<close> handles an
  AppWrapper that wants fewer replicas, \<open>annotateToDeleteMachine\<close> the end of an AppWrapper.
\<close>

definition instance_type_label :: string where
  "instance_type_label = ''machine.openshift.io/instance-type''"

definition machineset_label :: string where
  "machineset_label = ''machine.openshift.io/cluster-api-machineset''"

definition delete_annotation :: string where
  "delete_annotation = ''machine.openshift.io/cluster-api-delete-machine''"

definition machine_annotation :: string where
  "machine_annotation = ''machine.openshift.io/machine''"

subsection \<open>Counting machines\<close>

text \<open>The names of the machines whose phase passes a test; reading a nil phase panics.\<close>

fun names_where :: "(string \<Rightarrow> bool) \<Rightarrow> machine list \<Rightarrow> string list \<Rightarrow> ('s, string list) prog" where
  "names_where P [] names = ret names"
| "names_where P (machine # machines) names =
     bnd (deref (mc_phase machine)) (\<lambda>machinePhase.
     names_where P machines (if P machinePhase then names @ [mc_name machine] else names))"

definition aw_machine_selector :: "appwrapper \<Rightarrow> string \<Rightarrow> selector" where
  "aw_machine_selector aw t = MatchSet [(aw_id aw, aw_id aw), (instance_type_label, t)]"

definition filterAwMachines :: "'w api \<Rightarrow> appwrapper \<Rightarrow> string \<Rightarrow> ('w gstate, string list) prog" where
  "filterAwMachines api aw userRequestedInstanceType =
     bnd (list_machines api (aw_machine_selector aw userRequestedInstanceType) []) (\<lambda>(machines, err).
     names_where (\<lambda>ph. ph = ''Running'') machines [])"

definition filterAllRunningAwMachines :: "'w api \<Rightarrow> appwrapper \<Rightarrow> ('w gstate, string list) prog" where
  "filterAllRunningAwMachines api aw =
     bnd (list_machines api (MatchSet [(aw_name aw, aw_name aw)]) []) (\<lambda>(machines, err).
     names_where (\<lambda>ph. ph \<noteq> ''Deleting'') machines [])"

text \<open>The sum is an \<open>int32\<close>: the conversions truncate and the additions wrap.\<close>

definition total_nodes :: "nat \<Rightarrow> demand \<Rightarrow> int32" where
  "total_nodes running demand =
     fold (\<lambda>(_, count) total. total + word_of_int count) demand (0 + word_of_int (int running))"

definition canScaleMachineset :: "'w api \<Rightarrow> appwrapper \<Rightarrow> demand \<Rightarrow> ('w gstate, bool) prog" where
  "canScaleMachineset api aw demandPerInstanceType =
     bnd (filterAllRunningAwMachines api aw) (\<lambda>allRunningAwMachines.
     bnd (gets maxScaleNodesAllowed) (\<lambda>limit.
     ret (sint (total_nodes (length allRunningAwMachines) demandPerInstanceType)
       \<le> sint (word_of_int limit :: int32))))"

subsection \<open>Scaling down\<close>

text \<open>The last value that the loop over the labels finds under the key, from an empty start.\<close>

definition last_label :: "string \<Rightarrow> dict \<Rightarrow> string" where
  "last_label key d = fold (\<lambda>(k, v) found. if k = key then v else found) (dict_entries d) []"

definition removeFromMachineSet :: "'w api \<Rightarrow> appwrapper \<Rightarrow> int \<Rightarrow> string \<Rightarrow> machineset \<Rightarrow> unit \<Rightarrow>
    ('w gstate, (unit, reconcile_ret) ctl) prog" where
  "removeFromMachineSet api aw replicas updateMachinesetName aMachineSet _ =
     (if ms_name aMachineSet = updateMachinesetName then
        bnd (deref (ms_replicas aMachineSet)) (\<lambda>n.
        let newReplicas = n - 1 in
        bnd (set_entry (ms_labels aMachineSet) (scale_label aw) (format_int replicas)) (\<lambda>lbls.
        bnd (update_machineset api (aMachineSet\<lparr>ms_replicas := Some newReplicas, ms_labels := lbls\<rparr>)) (\<lambda>_.
        ret (Return (\<lparr>Requeue = True, RequeueAfter = 0\<rparr>, None)))))
      else ret (Next ()))"

definition removeNodeMachine :: "'w api \<Rightarrow> appwrapper \<Rightarrow> int \<Rightarrow> string \<times> string \<Rightarrow> unit \<Rightarrow>
    ('w gstate, (unit, reconcile_ret) ctl) prog" where
  "removeNodeMachine api aw replicas kv _ =
     (if fst kv = machine_annotation then
        bnd (index_at (split_on CHR ''/'' (snd kv)) 1) (\<lambda>machineName.
        bnd (get_machine api (namespaceToList, machineName)) (\<lambda>(nodeMachine, _).
        bnd (set_entry (mc_annotations nodeMachine) delete_annotation ''true'') (\<lambda>anns.
        bnd (update_machine api (nodeMachine\<lparr>mc_annotations := anns\<rparr>)) (\<lambda>(updateMachine, _).
        let updateMachinesetName = last_label machineset_label (mc_labels updateMachine) in
        if updateMachinesetName \<noteq> [] then
          bnd (list_machinesets api Everything []) (\<lambda>(allMachineSet, _).
          bnd (for_each allMachineSet (removeFromMachineSet api aw replicas updateMachinesetName) ()) (\<lambda>z.
          ret (loop_ctl z)))
        else ret (Next ())))))
      else ret (Next ()))"

definition removeNode :: "'w api \<Rightarrow> appwrapper \<Rightarrow> int \<Rightarrow> int \<Rightarrow> node \<Rightarrow> unit \<Rightarrow>
    ('w gstate, (unit, reconcile_ret) ctl) prog" where
  "removeNode api aw replicas numberOfmachines node _ =
     (if replicas = numberOfmachines then ret (Break ())
      else bnd (for_each (dict_entries (nd_annotations node)) (removeNodeMachine api aw replicas) ()) (\<lambda>z.
        ret (loop_ctl z)))"

text \<open>The outer loop of the source ends with \<open>break\<close>, so its body runs at most once.\<close>

definition removeMachinesBasedOnReplicas :: "'w api \<Rightarrow> appwrapper \<Rightarrow> string \<Rightarrow> int \<Rightarrow>
    ('w gstate, reconcile_ret) prog" where
  "removeMachinesBasedOnReplicas api aw userRequestedInstanceType replicas =
     bnd (list_nodes api (MatchSet [(aw_name aw, aw_name aw),
       (''node.kubernetes.io/instance-type'', userRequestedInstanceType)])) (\<lambda>(nodes, _).
     bnd (filterAwMachines api aw userRequestedInstanceType) (\<lambda>running.
     let numberOfmachines = int (length running) in
     if replicas < numberOfmachines then
       after_loop (for_each nodes (removeNode api aw replicas numberOfmachines) ()) (\<lambda>_. ret (no_requeue, None))
     else ret (no_requeue, None)))"

subsection \<open>Scaling up\<close>

text \<open>The new number of replicas: what the set has beyond the running machines, and the demand.\<close>

definition scaled_up :: "machineset \<Rightarrow> int32 \<Rightarrow> nat \<Rightarrow> int \<Rightarrow> machineset" where
  "scaled_up ms n running replicas =
     (let existingReplicas = n - word_of_int (int running);
          totalReplicas = word_of_int replicas + existingReplicas
      in ms\<lparr>ms_replicas := Some totalReplicas\<rparr>)"

text \<open>The loop that sets \<open>isScaled\<close>.\<close>

definition has_scale_label :: "appwrapper \<Rightarrow> int \<Rightarrow> machineset \<Rightarrow> bool" where
  "has_scale_label aw replicas ms =
     list_ex (\<lambda>(k, v). k = scale_label aw \<and> v = format_int replicas) (dict_entries (ms_labels ms))"

definition labelMachine :: "'w api \<Rightarrow> appwrapper \<Rightarrow> string \<Rightarrow> int \<Rightarrow> machine \<Rightarrow> machine list \<Rightarrow>
    ('w gstate, (machine list, reconcile_ret) ctl) prog" where
  "labelMachine api aw t replicas machine prev =
     bnd (list_machines api (aw_machine_selector aw t) prev) (\<lambda>(machinesWithAwLabel, _).
     if int (length machinesWithAwLabel) \<noteq> replicas then
       bnd (deref (mc_phase machine)) (\<lambda>machinePhase.
       if machinePhase = ''Running'' then
         bnd (deref (mc_nodeRef machine)) (\<lambda>nodeName.
         bnd (addLabelToMachine api aw (mc_name machine)) (\<lambda>err. case err of
           Some e \<Rightarrow> ret (Return (no_requeue, Some e))
         | None \<Rightarrow>
             bnd (addLabelToNode api aw nodeName) (\<lambda>err. case err of
               Some e \<Rightarrow> ret (Return (no_requeue, Some e))
             | None \<Rightarrow> ret (Next machinesWithAwLabel))))
       else ret (Next machinesWithAwLabel))
     else ret (Next machinesWithAwLabel))"

text \<open>The names of the machines the set owns; the phase is read for names not yet in the list.\<close>

fun existing_owned :: "machine list \<Rightarrow> string list \<Rightarrow> ('s, string list) prog" where
  "existing_owned [] names = ret names"
| "existing_owned (machine # machines) names =
     (if contains names (mc_name machine) then existing_owned machines names
      else bnd (deref (mc_phase machine)) (\<lambda>machinePhase.
        existing_owned machines (if machinePhase \<noteq> ''Deleting'' then names @ [mc_name machine] else names)))"

text \<open>
  The branch that changes the machine set: \<open>copy\<close> is the scaled copy of \<open>ms\<close>. The two values of the
  label are compared as strings.
\<close>

definition reuseApply :: "'w api \<Rightarrow> appwrapper \<Rightarrow> string \<Rightarrow> int \<Rightarrow> machineset \<Rightarrow> machineset \<Rightarrow>
    machine list \<Rightarrow> nat \<Rightarrow> bool \<Rightarrow> ('w gstate, (bool, reconcile_ret) ctl) prog" where
  "reuseApply api aw t replicas ms copy allExistingMachinesInMs running isScaled =
     bnd (existing_owned allExistingMachinesInMs []) (\<lambda>_.
     bnd (set_entry (ms_labels copy) (scale_label aw) (format_int replicas)) (\<lambda>lbls.
     let copyOfaMachineSet = copy\<lparr>ms_labels := lbls\<rparr>;
         current = dict_index (ms_labels ms) (scale_label aw) in
     if current \<noteq> format_int replicas then
       (if format_int replicas < current then
          bnd (removeMachinesBasedOnReplicas api aw t replicas) (\<lambda>(_, err). case err of
            Some e \<Rightarrow> ret (Return (no_requeue, Some e))
          | None \<Rightarrow> ret (Return (\<lparr>Requeue = True, RequeueAfter = 0\<rparr>, None)))
        else
          bnd (update_machineset api copyOfaMachineSet) (\<lambda>_.
          ret (Return (\<lparr>Requeue = True, RequeueAfter = 0\<rparr>, None))))
     else if replicas \<noteq> int running then
       ret (Return (\<lparr>Requeue = True, RequeueAfter = timeThirtySeconds\<rparr>, None))
     else ret (Next isScaled)))"

text \<open>What follows the labelling of the machines: the second count, the limit, and the decision.\<close>

definition reuseDecide :: "'w api \<Rightarrow> appwrapper \<Rightarrow> demand \<Rightarrow> string \<Rightarrow> machineset \<Rightarrow> machineset \<Rightarrow>
    machine list \<Rightarrow> bool \<Rightarrow> ('w gstate, (bool, reconcile_ret) ctl) prog" where
  "reuseDecide api aw demand t ms copyOfaMachineSet allExistingMachinesInMs isScaled =
     (let replicas = demand_at demand t in
     bnd (filterAwMachines api aw t) (\<lambda>runningAwMachines.
     bnd (canScaleMachineset api aw demand) (\<lambda>canScaleMachineSets.
     if (\<not> isScaled \<or> int (length runningAwMachines) \<noteq> replicas) \<and> canScaleMachineSets
     then reuseApply api aw t replicas ms copyOfaMachineSet allExistingMachinesInMs
       (length runningAwMachines) isScaled
     else ret (Next isScaled))))"

definition reuseMachineSet :: "'w api \<Rightarrow> appwrapper \<Rightarrow> demand \<Rightarrow> string \<Rightarrow> machineset \<Rightarrow> bool \<Rightarrow>
    ('w gstate, (bool, reconcile_ret) ctl) prog" where
  "reuseMachineSet api aw demand t ms isScaled =
     (let (providerConfig, _) = ProviderSpecFromRawExtension api (ms_providerSpec ms) in
     bnd (deref providerConfig) (\<lambda>cfg.
     if t = instanceType cfg then
       bnd (filterAwMachines api aw t) (\<lambda>runningAwMachines.
       bnd (deref (ms_replicas ms)) (\<lambda>n.
       let replicas = demand_at demand t;
           copyOfaMachineSet = scaled_up ms n (length runningAwMachines) replicas;
           isScaled' = (isScaled \<or> has_scale_label aw replicas ms) in
       bnd (list_machines api (MatchSet [(instance_type_label, t), (machineset_label, ms_name ms)]) [])
         (\<lambda>(allExistingMachinesInMs, _).
       bnd (for_each allExistingMachinesInMs (labelMachine api aw t replicas) []) (\<lambda>z. case z of
         Inr r \<Rightarrow> ret (Return r)
       | Inl _ \<Rightarrow>
           reuseDecide api aw demand t ms copyOfaMachineSet allExistingMachinesInMs isScaled'))))
     else ret (Next isScaled)))"

definition reconcileReuseMachineSet :: "'w api \<Rightarrow> appwrapper \<Rightarrow> demand \<Rightarrow> ('w gstate, reconcile_ret) prog" where
  "reconcileReuseMachineSet api aw demandMapPerInstanceType =
     bnd (list_machinesets api Everything []) (\<lambda>(allMachineSets, _).
     bnd (range_order (map fst demandMapPerInstanceType)) (\<lambda>types.
     after_loop (for_each types (\<lambda>t isScaled.
         bnd (for_each allMachineSets (reuseMachineSet api aw demandMapPerInstanceType t) isScaled) (\<lambda>z.
         ret (loop_ctl z))) False)
       (\<lambda>_. ret (no_requeue, None))))"

subsection \<open>The end of an AppWrapper\<close>

definition annotateMachine :: "'w api \<Rightarrow> string list \<Rightarrow> machine \<Rightarrow> unit \<Rightarrow>
    ('w gstate, (unit, go_error option) ctl) prog" where
  "annotateMachine api machineName aMachine _ =
     bnd (index_at machineName 1) (\<lambda>wanted.
     if mc_name aMachine = wanted then
       bnd (deref (mc_phase aMachine)) (\<lambda>machinePhase.
       if machinePhase \<noteq> ''Deleting'' then
         bnd (set_entry (mc_annotations aMachine) delete_annotation ''true'') (\<lambda>anns.
         bnd (update_machine api (aMachine\<lparr>mc_annotations := anns\<rparr>)) (\<lambda>(_, err). case err of
           Some e \<Rightarrow> ret (Return (Some e))
         | None \<Rightarrow> ret (Next ())))
       else ret (Next ()))
     else ret (Next ()))"

definition annotateNode :: "'w api \<Rightarrow> node \<Rightarrow> unit \<Rightarrow> ('w gstate, (unit, go_error option) ctl) prog" where
  "annotateNode api node _ = (case dict_get (nd_annotations node) machine_annotation of
     None \<Rightarrow> ret (Next ())
   | Some v \<Rightarrow>
       bnd (list_machines api Everything []) (\<lambda>(allMachines, err). case err of
         Some e \<Rightarrow> ret (Return (Some e))
       | None \<Rightarrow>
           bnd (for_each allMachines (annotateMachine api (split_on CHR ''/'' v)) ()) (\<lambda>z.
           ret (loop_ctl z))))"

definition scaled_down :: "machineset \<Rightarrow> int32 \<Rightarrow> int32 \<Rightarrow> machineset" where
  "scaled_down ms n replicaCount = ms\<lparr>ms_replicas := Some (n - replicaCount)\<rparr>"

text \<open>The new value of \<open>replicaCount\<close>: it keeps its value where the label is missing.\<close>

definition read_replica_count :: "appwrapper \<Rightarrow> machineset \<Rightarrow> int32 \<Rightarrow> go_error + int32" where
  "read_replica_count aw ms replicaCount = (case dict_get (ms_labels ms) (scale_label aw) of
     None \<Rightarrow> Inr replicaCount
   | Some value \<Rightarrow> (case atoi value of Inl e \<Rightarrow> Inl e | Inr intValue \<Rightarrow> Inr (word_of_int intValue)))"

definition releaseMachineSet :: "'w api \<Rightarrow> appwrapper \<Rightarrow> machineset \<Rightarrow> int32 \<Rightarrow>
    ('w gstate, (int32, go_error option) ctl) prog" where
  "releaseMachineSet api aw aMachineSet replicaCount =
     (case read_replica_count aw aMachineSet replicaCount of
       Inl e \<Rightarrow> ret (Return (Some e))
     | Inr replicaCount' \<Rightarrow>
         bnd (deref (ms_replicas aMachineSet)) (\<lambda>existingReplicas.
         bnd (update_machineset api (scaled_down aMachineSet existingReplicas replicaCount')) (\<lambda>(_, err). case err of
           Some e \<Rightarrow> ret (Return (Some e))
         | None \<Rightarrow>
             bnd (removeMachineSetLabel api aw (ms_name aMachineSet)) (\<lambda>err. case err of
               Some e \<Rightarrow> ret (Return (Some e))
             | None \<Rightarrow> ret (Next replicaCount')))))"

definition annotateToDeleteMachine :: "'w api \<Rightarrow> appwrapper \<Rightarrow> ('w gstate, go_error option) prog" where
  "annotateToDeleteMachine api aw =
     bnd (list_nodes api (MatchSet [(aw_id aw, aw_id aw)])) (\<lambda>(nodes, _).
     after_loop (for_each nodes (annotateNode api) ()) (\<lambda>_.
     bnd (list_machinesets api (HasLabels [scale_label aw]) []) (\<lambda>(machineSets, err). case err of
       Some e \<Rightarrow> ret (Some e)
     | None \<Rightarrow> after_loop (for_each machineSets (releaseMachineSet api aw) 0) (\<lambda>_. ret None))))"

subsection \<open>Calls and settings\<close>

lemma emits_names_where [emits_intros]: "emits P (names_where Q ms ns)"
  by (induction ms arbitrary: ns) (auto intro!: emits_intros)

lemma emits_existing_owned [emits_intros]: "emits P (existing_owned ms ns)"
  by (induction ms arbitrary: ns) (auto simp del: contains_set intro!: emits_intros)

lemma keeps_names_where [frame_intros]: "stays_in (same f) (names_where Q ms ns)"
  by (induction ms arbitrary: ns) (auto intro!: frame_intros)

lemma keeps_existing_owned [frame_intros]: "stays_in (same f) (existing_owned ms ns)"
  by (induction ms arbitrary: ns) (auto simp del: contains_set intro!: frame_intros)

lemma emits_filters [emits_intros]:
  "(\<And>sel r. P (ListMachines sel r)) \<Longrightarrow> emits P (filterAwMachines api aw t)"
  "(\<And>sel r. P (ListMachines sel r)) \<Longrightarrow> emits P (filterAllRunningAwMachines api aw)"
  "(\<And>sel r. P (ListMachines sel r)) \<Longrightarrow> emits P (canScaleMachineset api aw demand)"
  unfolding filterAwMachines_def filterAllRunningAwMachines_def canScaleMachineset_def
  by (intro emits_intros; simp)+

lemma keeps_filters [frame_intros]:
  assumes "outside f"
  shows "stays_in (same f) (filterAwMachines api aw t)"
    "stays_in (same f) (filterAllRunningAwMachines api aw)"
    "stays_in (same f) (canScaleMachineset api aw demand)"
  unfolding filterAwMachines_def filterAllRunningAwMachines_def canScaleMachineset_def
  by (intro frame_intros assms)+

lemma emits_labelMachine [emits_intros]:
  assumes "\<And>sel r. P (ListMachines sel r)" "\<And>k r. P (GetMachine k r)"
    "\<And>m r. P (PatchMachine m (add_label_patch aw) r)" "\<And>n r. P (PatchNode n (add_label_patch aw) r)"
  shows "emits P (labelMachine api aw t replicas machine prev)"
  unfolding labelMachine_def by (intro emits_intros assms)

lemma keeps_removeMachines [frame_intros]:
  assumes "outside f"
  shows "stays_in (same f) (removeMachinesBasedOnReplicas api aw t replicas)"
  unfolding removeMachinesBasedOnReplicas_def removeNode_def removeNodeMachine_def removeFromMachineSet_def
  by (intro frame_intros assms)

lemma keeps_reuseApply [frame_intros]:
  assumes "outside f"
  shows "stays_in (same f) (reuseApply api aw t replicas ms cp existing running isScaled)"
  unfolding reuseApply_def by (intro frame_intros assms)

lemma keeps_reuse [frame_intros]:
  assumes "outside f"
  shows "stays_in (same f) (reconcileReuseMachineSet api aw demand)"
  unfolding reconcileReuseMachineSet_def reuseMachineSet_def reuseDecide_def labelMachine_def
  by (intro frame_intros assms)

lemma keeps_annotateToDeleteMachine [frame_intros]:
  assumes "outside f"
  shows "stays_in (same f) (annotateToDeleteMachine api aw)"
  unfolding annotateToDeleteMachine_def annotateNode_def annotateMachine_def releaseMachineSet_def
  by (intro frame_intros assms)

subsection \<open>How often a machine set changes\<close>

fun resizes :: "event \<Rightarrow> bool" where
  "resizes (CreateMachineSet _ _) = True"
| "resizes (UpdateMachineSet _ _) = True"
| "resizes (DeleteMachineSet _ _) = True"
| "resizes _ = False"

lemma bounded_update_machineset: "bounded K (\<lambda>_. 1) (update_machineset api ms)"
  unfolding update_machineset_def by (rule bounded_call)

lemma bounded_update_return:
  "bounded resizes (ctl_cost 1) (bnd (update_machineset api ms) (\<lambda>_. ret (Return x)))"
  by (rule bounded_after [OF bounded_update_machineset extends.stays_ret]) (auto simp: ret_def)

lemma bounded_quiet_ret: "bounded K c (ret x)"
  by (rule bounded_quiet) (rule extends.stays_ret)

lemma bounded_removeFromMachineSet:
  "bounded resizes (ctl_cost 1) (removeFromMachineSet api aw replicas name ms u)"
  unfolding removeFromMachineSet_def Let_def
  by (intro bounded_if bounded_before bounded_update_return bounded_quiet_ret
      extends.stays_deref extends.stays_set_entry)

lemma bounded_removeNodeMachine:
  "bounded resizes (ctl_cost 1) (removeNodeMachine api aw replicas kv u)"
  unfolding removeNodeMachine_def Let_def
  by (intro bounded_if bounded_before bounded_pair bounded_loop_ctl bounded_for_each
      bounded_removeFromMachineSet bounded_quiet_ret emits_intros; simp)

lemma bounded_removeNode: "bounded resizes (ctl_cost 1) (removeNode api aw replicas n nd u)"
  unfolding removeNode_def
  by (intro bounded_if bounded_loop_ctl bounded_for_each bounded_removeNodeMachine bounded_quiet_ret)

lemma bounded_removeMachines:
  "bounded resizes (\<lambda>_. 1) (removeMachinesBasedOnReplicas api aw t replicas)"
  unfolding removeMachinesBasedOnReplicas_def Let_def
  by (intro bounded_if bounded_before bounded_pair bounded_after_loop bounded_for_each
      bounded_removeNode bounded_quiet_ret emits_intros; simp)

lemma bounded_remove_return:
  "bounded resizes (ctl_cost 1) (bnd (removeMachinesBasedOnReplicas api aw t replicas)
    (\<lambda>(x, err). case err of Some e \<Rightarrow> ret (Return (f e)) | None \<Rightarrow> ret (Return y)))"
  by (rule bounded_after [OF bounded_removeMachines])
    (auto intro!: emits_intros simp: ret_def split: option.splits)

lemma bounded_reuseApply:
  "bounded resizes (ctl_cost 1) (reuseApply api aw t replicas ms cp existing running isScaled)"
  unfolding reuseApply_def Let_def
  by (intro bounded_if bounded_before bounded_remove_return bounded_update_return bounded_quiet_ret
      emits_existing_owned extends.stays_set_entry)

lemma bounded_reuseMachineSet:
  "bounded resizes (ctl_cost 1) (reuseMachineSet api aw demand t ms isScaled)"
  unfolding reuseMachineSet_def reuseDecide_def Let_def
  by (intro bounded_if bounded_before bounded_pair bounded_sum bounded_reuseApply bounded_quiet_ret
      emits_intros; simp)

lemma bounded_reuse: "bounded resizes (\<lambda>_. 1) (reconcileReuseMachineSet api aw demand)"
  unfolding reconcileReuseMachineSet_def
  by (intro bounded_before bounded_pair bounded_after_loop bounded_for_each bounded_loop_ctl
      bounded_reuseMachineSet bounded_quiet_ret emits_intros; simp)

subsection \<open>The limit\<close>

lemma names_where_Ok:
  "names_where P ms ns s = (Ok names, t) \<Longrightarrow>
    t = s \<and> names = ns @ map mc_name (filter (\<lambda>m. \<exists>p. mc_phase m = Some p \<and> P p) ms)"
proof (induction ms arbitrary: ns)
  case Nil
  then show ?case by simp
next
  case (Cons m ms)
  from Cons.prems obtain p where p: "mc_phase m = Some p"
    by (auto simp: bnd_Ok deref_def split: option.splits)
  with Cons.prems have "names_where P ms (if P p then ns @ [mc_name m] else ns) s = (Ok names, t)"
    by (simp add: bnd_Ok deref_def)
  from Cons.IH [OF this] p show ?case by simp
qed

lemma total_nodes_fold:
  "fold (\<lambda>(_, count) total. total + word_of_int count) demand x =
    (x + word_of_int (sum_list (map snd demand)) :: int32)"
  by (induction demand arbitrary: x) (auto simp: algebra_simps)

lemma total_nodes_eq: "total_nodes running demand = word_of_int (int running + sum_list (map snd demand))"
  by (simp add: total_nodes_def total_nodes_fold)

definition not_deleting :: "machine list \<Rightarrow> machine list" where
  "not_deleting = filter (\<lambda>m. \<exists>p. mc_phase m = Some p \<and> p \<noteq> ''Deleting'')"

lemma canScaleMachineset_run:
  assumes "canScaleMachineset api aw demand s = (Ok b, t)"
  shows "\<exists>machines err w. k_list_machines (kube api) (MatchSet [(aw_name aw, aw_name aw)]) [] (world s) = ((machines, err), w) \<and>
    trace t = trace s @ [ListMachines (MatchSet [(aw_name aw, aw_name aw)]) (machines, err)] \<and>
    b = (sint (word_of_int (int (length (not_deleting machines)) + sum_list (map snd demand)) :: int32)
      \<le> sint (word_of_int (maxScaleNodesAllowed s) :: int32))"
  using assms
  by (auto simp: canScaleMachineset_def filterAllRunningAwMachines_def bnd_Ok list_machines_def call_def
      total_nodes_eq not_deleting_def dest!: names_where_Ok split: prod.splits)

definition int32_range :: "int \<Rightarrow> bool" where
  "int32_range i \<longleftrightarrow> - (2 ^ 31) \<le> i \<and> i < 2 ^ 31"

lemma int32_range_sint: "int32_range i \<Longrightarrow> sint (word_of_int i :: int32) = i"
  unfolding int32_range_def by (simp add: sint_word_of_int32)

text \<open>
  The environments in which the sum of \<open>canScaleMachineset\<close> cannot wrap: no list of machines is that
  long.
\<close>

definition machines_fit :: "'w api \<Rightarrow> demand \<Rightarrow> bool" where
  "machines_fit api demand \<longleftrightarrow> (\<forall>sel prev w. \<forall>items err w'.
     k_list_machines (kube api) sel prev w = ((items, err), w') \<longrightarrow>
     int (length items) + sum_list (map snd demand) < 2 ^ 31)"

definition over_limit :: "demand \<Rightarrow> int \<Rightarrow> bool" where
  "over_limit demand limit \<longleftrightarrow> int32_range limit \<and> limit < sum_list (map snd demand)"

lemma canScale_over_limit:
  assumes fit: "machines_fit api demand" and over: "over_limit demand (maxScaleNodesAllowed s)"
    and run: "canScaleMachineset api aw demand s = (Ok b, t)"
  shows "\<not> b"
proof -
  let ?sum = "sum_list (map snd demand)"
  from canScaleMachineset_run [OF run] obtain machines err w where
    l: "k_list_machines (kube api) (MatchSet [(aw_name aw, aw_name aw)]) [] (world s) = ((machines, err), w)"
    and b: "b = (sint (word_of_int (int (length (not_deleting machines)) + ?sum) :: int32)
      \<le> sint (word_of_int (maxScaleNodesAllowed s) :: int32))"
    by blast
  have "int (length machines) + ?sum < 2 ^ 31"
    using fit l unfolding machines_fit_def by blast
  moreover have "length (not_deleting machines) \<le> length machines"
    by (simp add: not_deleting_def)
  ultimately have "int32_range (int (length (not_deleting machines)) + ?sum)"
    using over by (simp add: over_limit_def int32_range_def)
  from int32_range_sint [OF this] b
  have "b = (int (length (not_deleting machines)) + ?sum \<le> sint (word_of_int (maxScaleNodesAllowed s) :: int32))"
    by metis
  with over int32_range_sint [of "maxScaleNodesAllowed s"] show ?thesis
    unfolding over_limit_def by linarith
qed

text \<open>Calls that scale: they change a machine set, or mark a machine for deletion.\<close>

definition scales :: "event \<Rightarrow> bool" where
  "scales e \<longleftrightarrow> resizes e \<or> (\<exists>mc r. e = UpdateMachine mc r)"

lemma scales_simps [simp]:
  "\<not> scales (ListMachineSets sel r1)" "\<not> scales (ListMachines sel r2)" "\<not> scales (GetMachine k r3)"
  "\<not> scales (PatchMachine m p r4)" "\<not> scales (PatchNode n p r5)"
  by (simp_all add: scales_def)

text \<open>
  The relation "the limit stays, and where the demand is over the limit nothing scales" is a program
  order.
\<close>

definition capped :: "demand \<Rightarrow> 'w gstate \<Rightarrow> 'w gstate \<Rightarrow> bool" where
  "capped demand s t \<longleftrightarrow> maxScaleNodesAllowed t = maxScaleNodesAllowed s \<and>
     (over_limit demand (maxScaleNodesAllowed s) \<longrightarrow> extends (\<lambda>e. \<not> scales e) s t)"

interpretation capped: program_order "capped demand" for demand
proof unfold_locales
  show "capped demand s s" for s :: "'w gstate"
    by (simp add: capped_def extends.order_refl)
  show "capped demand s u" if "capped demand s t" "capped demand t u" for s t u :: "'w gstate"
    using that extends.order_trans unfolding capped_def by metis
qed

lemma capped_quiet:
  "emits (\<lambda>e. \<not> scales e) m \<Longrightarrow> stays_in (same maxScaleNodesAllowed) m \<Longrightarrow> stays_in (capped demand) m"
  by (simp add: stays_in_def capped_def same_def)

lemma capped_guard:
  assumes fit: "machines_fit api demand"
    and m: "stays_in (same maxScaleNodesAllowed) m" and n: "stays_in (capped demand) n"
  shows "stays_in (capped demand) (bnd (canScaleMachineset api aw demand) (\<lambda>can. if b \<and> can then m else n))"
    (is "stays_in _ ?prog")
  unfolding stays_in_def
proof
  fix s
  have can: "stays_in (capped demand) (canScaleMachineset api aw demand)"
    by (rule capped_quiet) (intro emits_intros frame_intros; simp)+
  show "capped demand s (snd (?prog s))"
  proof (cases "over_limit demand (maxScaleNodesAllowed s)")
    case True
    obtain q t where run: "canScaleMachineset api aw demand s = (q, t)" by (cases "canScaleMachineset api aw demand s")
    have st: "capped demand s t" using can run by (metis snd_conv stays_in_def)
    show ?thesis
    proof (cases q)
      case (Ok can)
      with run fit True have "\<not> can" using canScale_over_limit by blast
      moreover have "capped demand t (snd (n t))" using n by (simp add: stays_in_def)
      with st have "capped demand s (snd (n t))" by (rule capped.order_trans)
      ultimately show ?thesis using run Ok by (simp add: bnd_def)
    next
      case (Panic msg)
      with run st show ?thesis by (simp add: bnd_def)
    qed
  next
    case False
    have "stays_in (same maxScaleNodesAllowed) ?prog"
      using m n by (intro frame_intros) (simp_all add: stays_in_def capped_def same_def)
    with False show ?thesis by (simp add: stays_in_def capped_def same_def)
  qed
qed

lemma capped_reuseDecide:
  assumes "machines_fit api demand"
  shows "stays_in (capped demand) (reuseDecide api aw demand t ms cp existing isScaled)"
  unfolding reuseDecide_def Let_def
proof (rule capped.stays_bnd)
  show "stays_in (capped demand) (filterAwMachines api aw t)"
    by (rule capped_quiet) (intro emits_intros frame_intros; simp)+
qed (intro capped_guard assms frame_intros capped.stays_ret)

lemma capped_quiet_calls:
  "stays_in (capped demand) (filterAwMachines api aw t)"
  "stays_in (capped demand) (list_machines api sel prev)"
  "stays_in (capped demand) (list_machinesets api sel prevs)"
  "stays_in (capped demand) (labelMachine api aw t replicas mc mcs)"
  "stays_in (capped demand) (range_order xs)"
  unfolding labelMachine_def by (rule capped_quiet; intro emits_intros frame_intros; simp)+

lemma capped_reuse:
  assumes "machines_fit api demand"
  shows "stays_in (capped demand) (reconcileReuseMachineSet api aw demand)"
  unfolding reconcileReuseMachineSet_def reuseMachineSet_def Let_def
  by (intro capped.stays_rules capped_quiet_calls capped_reuseDecide assms)

subsection \<open>The end of an AppWrapper\<close>

definition remove_label_patch :: "appwrapper \<Rightarrow> machineset \<Rightarrow> patch" where
  "remove_label_patch aw ms = [\<lparr>p_op = ''remove'', p_path = label_path (scale_label aw),
     p_value = dict_index (ms_labels ms) (scale_label aw)\<rparr>]"

text \<open>
  The calls of a release that succeeds: each machine set in turn is updated to its replicas less the
  count of its label, then read again, and its label removed.
\<close>

fun release_run :: "appwrapper \<Rightarrow> int32 \<Rightarrow> machineset list \<Rightarrow> event list \<Rightarrow> bool" where
  "release_run aw rc [] es = (es = [])"
| "release_run aw rc (ms # mss) es =
     (case read_replica_count aw ms rc of
       Inl e \<Rightarrow> False
     | Inr rc' \<Rightarrow> (\<exists>n ans obj rest. ms_replicas ms = Some n \<and>
         es = UpdateMachineSet (ms\<lparr>ms_replicas := Some (n - rc')\<rparr>) (ans, None) #
           GetMachineSet (namespaceToList, ms_name ms) (obj, None) #
           PatchMachineSet obj (remove_label_patch aw obj) None # rest \<and>
         release_run aw rc' mss rest))"

lemma removeMachineSetLabel_Ok:
  assumes "removeMachineSetLabel api aw name s = (Ok None, t)"
  shows "\<exists>obj. trace t = trace s @ [GetMachineSet (namespaceToList, name) (obj, None),
    PatchMachineSet obj (remove_label_patch aw obj) None]"
  using assms
  by (auto simp: removeMachineSetLabel_def remove_label_patch_def bnd_Ok call_defs Let_def
    dest!: call_Ok split: option.splits)

lemma releaseMachineSet_cases:
  assumes "releaseMachineSet api aw ms rc s = (Ok c, t)"
  shows "(\<exists>rc' n ans obj. c = Next rc' \<and> read_replica_count aw ms rc = Inr rc' \<and> ms_replicas ms = Some n \<and>
      trace t = trace s @ [UpdateMachineSet (scaled_down ms n rc') (ans, None),
        GetMachineSet (namespaceToList, ms_name ms) (obj, None),
        PatchMachineSet obj (remove_label_patch aw obj) None]) \<or>
    (\<exists>e. c = Return (Some e))"
proof (cases c)
  case (Next l)
  with assms obtain n ans s1 where r: "read_replica_count aw ms rc = Inr l" "ms_replicas ms = Some n"
    "update_machineset api (scaled_down ms n l) s = (Ok (ans, None), s1)"
    "removeMachineSetLabel api aw (ms_name ms) s1 = (Ok None, t)"
    by (auto simp: releaseMachineSet_def bnd_Ok deref_def split: sum.splits option.splits)
  from r(3) have "trace s1 = trace s @ [UpdateMachineSet (scaled_down ms n l) (ans, None)]"
    by (simp add: update_machineset_def call_Ok)
  with removeMachineSetLabel_Ok [OF r(4)] r Next show ?thesis by auto
next
  case (Break l)
  with assms show ?thesis by (auto simp: releaseMachineSet_def bnd_Ok split: sum.splits option.splits)
next
  case (Return r)
  with assms show ?thesis by (auto simp: releaseMachineSet_def bnd_Ok split: sum.splits option.splits)
qed

lemma release_loop:
  assumes "for_each mss (releaseMachineSet api aw) rc s = (Ok z, t)" "\<forall>e. z \<noteq> Inr (Some e)"
  shows "\<exists>es. trace t = trace s @ es \<and> release_run aw rc mss es"
  using assms
proof (induction mss arbitrary: rc s)
  case Nil
  then show ?case by simp
next
  case (Cons ms mss)
  from Cons.prems(1) show ?case
  proof (cases rule: for_each_ConsE)
    case (continued l' s1)
    from Cons.IH [OF continued(2) Cons.prems(2)] obtain es where
      "trace t = trace s1 @ es" "release_run aw l' mss es" by blast
    with releaseMachineSet_cases [OF continued(1)] show ?thesis by (auto simp: scaled_down_def)
  next
    case (broken l')
    with releaseMachineSet_cases [OF broken(1)] show ?thesis by simp
  next
    case (returned r)
    with releaseMachineSet_cases [OF returned(1)] Cons.prems(2) show ?thesis by auto
  qed
qed

lemma emits_annotateNode:
  assumes "\<And>sel r. P (ListMachines sel r)" "\<And>m r. P (UpdateMachine m r)"
  shows "emits P (annotateNode api nd u)"
  unfolding annotateNode_def annotateMachine_def by (intro emits_intros assms)

lemma annotateNode_Return:
  assumes "annotateNode api nd u s = (Ok (Return r), t)"
  shows "r \<noteq> None"
proof -
  have one: "annotateMachine api w m v s = (Ok (Return r), t) \<Longrightarrow> r \<noteq> None" for w m v s t
    by (auto simp: annotateMachine_def bnd_Ok split: option.splits if_splits)
  have "for_each ms (annotateMachine api w) v s = (Ok (Inr r), t) \<Longrightarrow> r \<noteq> None" for ms w v s t
  proof (induction ms arbitrary: v s)
    case (Cons m ms)
    from Cons.prems show ?case by (cases rule: for_each_ConsE) (auto dest: one Cons.IH)
  qed simp
  with assms show ?thesis
    by (auto simp: annotateNode_def bnd_Ok split: option.splits elim!: loop_ctl.elims [OF sym])
qed

lemma annotate_loop_Return:
  "for_each nds (annotateNode api) v s = (Ok (Inr r), t) \<Longrightarrow> r \<noteq> None"
proof (induction nds arbitrary: v s)
  case (Cons nd nds)
  from Cons.prems show ?case
    by (cases rule: for_each_ConsE) (auto dest: annotateNode_Return Cons.IH)
qed simp

lemma annotateToDeleteMachine_run:
  assumes "annotateToDeleteMachine api aw s = (Ok None, t)"
  shows "\<exists>pre machineSets es. list_all (\<lambda>e. \<not> resizes e) pre \<and> release_run aw 0 machineSets es \<and>
    trace t = trace s @ pre @ ListMachineSets (HasLabels [scale_label aw]) (machineSets, None) # es"
proof -
  from assms obtain nodes e0 s1 where
    n: "list_nodes api (MatchSet [(aw_id aw, aw_id aw)]) s = (Ok (nodes, e0), s1)" and
    rest: "after_loop (for_each nodes (annotateNode api) ()) (\<lambda>_.
       bnd (list_machinesets api (HasLabels [scale_label aw]) []) (\<lambda>(machineSets, err). case err of
         Some e \<Rightarrow> ret (Some e)
       | None \<Rightarrow> after_loop (for_each machineSets (releaseMachineSet api aw) 0) (\<lambda>_. ret None))) s1 = (Ok None, t)"
    by (auto simp: annotateToDeleteMachine_def bnd_Ok)
  from rest obtain s2 u where a: "for_each nodes (annotateNode api) () s1 = (Ok (Inl u), s2)" and
    rel: "bnd (list_machinesets api (HasLabels [scale_label aw]) []) (\<lambda>(machineSets, err). case err of
         Some e \<Rightarrow> ret (Some e)
       | None \<Rightarrow> after_loop (for_each machineSets (releaseMachineSet api aw) 0) (\<lambda>_. ret None)) s2 = (Ok None, t)"
    by (cases rule: after_loop_OkE) (auto dest: annotate_loop_Return)
  from rel obtain machineSets s3 where
    l: "list_machinesets api (HasLabels [scale_label aw]) [] s2 = (Ok (machineSets, None), s3)" and
    loop: "after_loop (for_each machineSets (releaseMachineSet api aw) 0) (\<lambda>_. ret None) s3 = (Ok None, t)"
    by (auto simp: bnd_Ok split: option.splits)
  from loop obtain es where es: "trace t = trace s3 @ es" "release_run aw 0 machineSets es"
    by (cases rule: after_loop_OkE) (auto dest: release_loop)
  have "emits (\<lambda>e. \<not> resizes e) (for_each nodes (annotateNode api) ())"
    by (intro emits_intros emits_annotateNode) simp_all
  from this a obtain pre where pre: "trace s2 = trace s1 @ pre" "list_all (\<lambda>e. \<not> resizes e) pre"
    by (rule emitsD)
  have "trace s1 = trace s @ [ListNodes (MatchSet [(aw_id aw, aw_id aw)]) (nodes, e0)]"
    using n by (simp add: list_nodes_def call_Ok)
  moreover have "trace s3 = trace s2 @ [ListMachineSets (HasLabels [scale_label aw]) (machineSets, None)]"
    using l by (simp add: list_machinesets_def call_Ok)
  ultimately show ?thesis using es pre
    by (intro exI [of _ "ListNodes (MatchSet [(aw_id aw, aw_id aw)]) (nodes, e0) # pre"] exI [of _ machineSets]
        exI [of _ es]) simp
qed

section \<open>Properties\<close>

text \<open>
  C22 (canScaleMachineset_limit): \<open>canScaleMachineset\<close> lists the machines whose label maps the
  AppWrapper's name to itself, and, unless the sum leaves the 32-bit range, allows a scale-out exactly
  when the listed machines that are not being deleted and the whole demand together are within
  \<open>maxScaleNodesAllowed\<close> (reaching the limit is allowed).
\<close>

theorem canScaleMachineset_limit:
  assumes "canScaleMachineset api aw demand s = (Ok b, t)"
  shows "\<exists>machines err. trace t = trace s @ [ListMachines (MatchSet [(aw_name aw, aw_name aw)]) (machines, err)] \<and>
    (let total = int (length (not_deleting machines)) + sum_list (map snd demand) in
     int32_range total \<and> int32_range (maxScaleNodesAllowed s) \<longrightarrow> (b \<longleftrightarrow> total \<le> maxScaleNodesAllowed s))"
proof -
  from canScaleMachineset_run [OF assms] obtain machines err where
    "trace t = trace s @ [ListMachines (MatchSet [(aw_name aw, aw_name aw)]) (machines, err)]" and
    b: "b = (sint (word_of_int (int (length (not_deleting machines)) + sum_list (map snd demand)) :: int32)
      \<le> sint (word_of_int (maxScaleNodesAllowed s) :: int32))"
    by blast
  moreover have "(let total = int (length (not_deleting machines)) + sum_list (map snd demand) in
     int32_range total \<and> int32_range (maxScaleNodesAllowed s) \<longrightarrow> (b \<longleftrightarrow> total \<le> maxScaleNodesAllowed s))"
    unfolding Let_def by (metis b int32_range_sint)
  ultimately show ?thesis by blast
qed

text \<open>A demand of three with the limit three: allowed, with the empty list of machines.\<close>

theorem canScaleMachineset_limit_witness:
  "\<exists>machines err. trace (snd (canScaleMachineset ref_api job [(''m5'', 3)]
      (ready reuse_config MachineTypeMachineSet (machinesets_on [])))) =
    [ListMachines (MatchSet [(aw_name job, aw_name job)]) (machines, err)]"
proof -
  let ?s = "ready reuse_config MachineTypeMachineSet (machinesets_on [])"
  have "fst (canScaleMachineset ref_api job [(''m5'', 3)] ?s) = Ok True" by code_simp
  from canScaleMachineset_limit [OF run_eq [OF this]] show ?thesis
    unfolding ready_fields append_Nil by blast
qed

text \<open>
  C3 (reuse_respects_limit): where the demand alone exceeds \<open>maxScaleNodesAllowed\<close>, the reuse strategy
  neither creates, updates or deletes a machine set nor marks a machine for deletion, whatever the
  API server answers, on errors and panics too, as long as no list of machines is so long that the
  32-bit sum wraps.
\<close>

theorem reuse_respects_limit:
  assumes "machines_fit api demand" and "over_limit demand (maxScaleNodesAllowed s)"
  shows "\<exists>es. trace (snd (reconcileReuseMachineSet api aw demand s)) = trace s @ es \<and>
    list_all (\<lambda>e. \<not> scales e) es"
proof -
  have "capped demand s (snd (reconcileReuseMachineSet api aw demand s))"
    using capped_reuse [OF assms(1)] by (simp add: stays_in_def)
  with assms(2) show ?thesis by (simp add: capped_def extends_def)
qed

definition no_machines :: "cluster api" where
  "no_machines = ref_api\<lparr>kube := (kube ref_api)\<lparr>k_list_machines := (\<lambda>_ _ w. (([], None), w))\<rparr>\<rparr>"

theorem reuse_respects_limit_witness:
  "\<exists>es. trace (snd (reconcileReuseMachineSet no_machines job [(''m5'', 4)]
      (ready reuse_config MachineTypeMachineSet (machinesets_on [machineset_m5 openshift_ns [] 1])))) = es \<and>
    list_all (\<lambda>e. \<not> scales e) es"
proof -
  let ?s = "ready reuse_config MachineTypeMachineSet (machinesets_on [machineset_m5 openshift_ns [] 1])"
  have "machines_fit no_machines [(''m5'', 4)]"
    by (simp add: machines_fit_def no_machines_def)
  moreover have "over_limit [(''m5'', 4)] (maxScaleNodesAllowed ?s)"
    by (simp add: over_limit_def int32_range_def ready_fields)
  ultimately have "\<exists>es. trace (snd (reconcileReuseMachineSet no_machines job [(''m5'', 4)] ?s)) = trace ?s @ es \<and>
      list_all (\<lambda>e. \<not> scales e) es"
    by (rule reuse_respects_limit)
  then show ?thesis unfolding ready_fields append_Nil .
qed

text \<open>
  C4 (annotateToDelete_releases): when \<open>annotateToDeleteMachine\<close> returns without an error, it has
  changed no machine set before it lists those with the AppWrapper's scale label, and then updated
  each listed machine set, in order, to its replicas less the number in its label, and removed the
  label.
\<close>

theorem annotateToDelete_releases:
  assumes "annotateToDeleteMachine api aw s = (Ok None, t)"
  shows "\<exists>pre machineSets es. list_all (\<lambda>e. \<not> resizes e) pre \<and> release_run aw 0 machineSets es \<and>
    trace t = trace s @ pre @ ListMachineSets (HasLabels [scale_label aw]) (machineSets, None) # es"
  using assms by (rule annotateToDeleteMachine_run)

theorem annotateToDelete_releases_witness:
  "\<exists>pre machineSets es. list_all (\<lambda>e. \<not> resizes e) pre \<and> release_run job 0 machineSets es \<and>
    trace (snd (annotateToDeleteMachine ref_api job
      (ready reuse_config MachineTypeMachineSet
        (machinesets_on [machineset_m5 openshift_ns [(scale_label job, ''2'')] 3])))) =
      pre @ ListMachineSets (HasLabels [scale_label job]) (machineSets, None) # es"
proof -
  let ?s = "ready reuse_config MachineTypeMachineSet
    (machinesets_on [machineset_m5 openshift_ns [(scale_label job, ''2'')] 3])"
  have "fst (annotateToDeleteMachine ref_api job ?s) = Ok None" by code_simp
  from annotateToDelete_releases [OF run_eq [OF this]] show ?thesis
    unfolding ready_fields append_Nil .
qed

subsection \<open>What an update is based on\<close>

definition running :: "machine list \<Rightarrow> machine list" where
  "running = filter (\<lambda>m. mc_phase m = Some ''Running'')"

lemma filterAwMachines_Ok:
  assumes "filterAwMachines api aw t s = (Ok names, u)"
  obtains ml err where "trace u = trace s @ [ListMachines (aw_machine_selector aw t) (ml, err)]"
    "length names = length (running ml)"
proof -
  from assms obtain ml err s1 where l: "list_machines api (aw_machine_selector aw t) [] s = (Ok (ml, err), s1)"
    and n: "names_where (\<lambda>ph. ph = ''Running'') ml [] s1 = (Ok names, u)"
    by (auto simp: filterAwMachines_def bnd_Ok)
  have "u = s1" "length names = length (running ml)"
    using names_where_Ok [OF n] by (simp_all add: running_def)
  moreover have "trace s1 = trace s @ [ListMachines (aw_machine_selector aw t) (ml, err)]"
    using l by (simp add: list_machines_def call_Ok)
  ultimately show thesis by (intro that) simp_all
qed

text \<open>
  A machine set that gives one replica up: a listed machine set, with one replica less and the wanted
  number in the AppWrapper's label, where a list of the AppWrapper's machines of the type has more
  running ones than are wanted, and a machine of this machine set was marked for deletion.
\<close>

definition one_less :: "appwrapper \<Rightarrow> string \<Rightarrow> int \<Rightarrow> event set \<Rightarrow> machineset \<Rightarrow> bool" where
  "one_less aw t replicas A ms' \<longleftrightarrow> (\<exists>mss err base n lbls mc mc' uerr ml lerr.
     ListMachines (aw_machine_selector aw t) (ml, lerr) \<in> A \<and> replicas < int (length (running ml)) \<and>
     UpdateMachine mc (mc', uerr) \<in> A \<and> dict_get (mc_annotations mc) delete_annotation = Some ''true'' \<and>
     ListMachineSets Everything (mss, err) \<in> A \<and> base \<in> set mss \<and>
     ms_name base = last_label machineset_label (mc_labels mc') \<and> ms_replicas base = Some n \<and>
     dict_set (ms_labels base) (scale_label aw) (format_int replicas) = Some lbls \<and>
     ms' = base\<lparr>ms_replicas := Some (n - 1), ms_labels := lbls\<rparr>)"

interpretation removal: evidence "one_less aw t replicas" for aw t replicas
proof
  fix A B :: "event set" and ms'
  assume o: "one_less aw t replicas A ms'" and AB: "A \<subseteq> B"
  have mono: "e \<in> A \<Longrightarrow> e \<in> B" for e using AB by blast
  from o show "one_less aw t replicas B ms'"
    unfolding one_less_def by (elim exE conjE) (intro exI conjI; (rule mono)?; assumption)
qed

interpretation removal_order: program_order "backed (one_less aw t replicas) A" for aw t replicas A
  by (rule removal.order)

lemma backed_removeFromMachineSet:
  assumes "ListMachines (aw_machine_selector aw t) (ml, lerr) \<in> A" "replicas < int (length (running ml))"
    and "UpdateMachine mc (mc', uerr) \<in> A" "dict_get (mc_annotations mc) delete_annotation = Some ''true''"
    and "ListMachineSets Everything (mss, err) \<in> A" "ms \<in> set mss"
    and "name = last_label machineset_label (mc_labels mc')"
  shows "stays_in (backed (one_less aw t replicas) A) (removeFromMachineSet api aw replicas name ms u)"
proof -
  have one: "one_less aw t replicas A (ms\<lparr>ms_replicas := Some (n - 1), ms_labels := lbls\<rparr>)"
    if "ms_name ms = name" "ms_replicas ms = Some n" "dict_set (ms_labels ms) (scale_label aw) (format_int replicas) = Some lbls"
    for n lbls
    unfolding one_less_def using assms that by blast
  show ?thesis
    unfolding removeFromMachineSet_def Let_def
    by (cases "ms_replicas ms"; cases "dict_set (ms_labels ms) (scale_label aw) (format_int replicas)")
      (auto simp: deref_simps bnd_ret bnd_panic set_entry_def one
        intro!: removal_order.stays_ret removal_order.stays_panic removal_order.stays_bnd removal.update)
qed

lemma backed_removeNodeMachine:
  assumes "ListMachines (aw_machine_selector aw t) (ml, lerr) \<in> A" "replicas < int (length (running ml))"
  shows "stays_in (backed (one_less aw t replicas) A) (removeNodeMachine api aw replicas kv u)"
proof -
  have set_step: "stays_in (backed (one_less aw t replicas)
        (insert (ListMachineSets Everything (all, err)) (insert (UpdateMachine mc (mc', uerr)) A)))
      (removeFromMachineSet api aw replicas (last_label machineset_label (mc_labels mc')) ms v)"
    if "dict_get (mc_annotations mc) delete_annotation = Some ''true''" "ms \<in> set all" for mc mc' uerr all err ms v
    by (rule backed_removeFromMachineSet [OF insertI2 [OF insertI2 [OF assms(1)]] assms(2)
        insertI2 [OF insertI1] that(1) insertI1 that(2) refl])
  have sets: "stays_in (backed (one_less aw t replicas) (insert (UpdateMachine mc (mc', uerr)) A))
      (bnd (list_machinesets api Everything []) (\<lambda>(all, _).
       bnd (for_each all (removeFromMachineSet api aw replicas (last_label machineset_label (mc_labels mc'))) ()) (\<lambda>z.
       ret (loop_ctl z))))"
    if "dict_get (mc_annotations mc) delete_annotation = Some ''true''" for mc mc' uerr
    unfolding list_machinesets_def
    by (rule removal.learn, simp, rule removal_order.stays_pair, rule removal_order.stays_bnd,
        rule removal_order.stays_for_each)
      (simp_all add: removal_order.stays_ret set_step that)
  have marked: "stays_in (backed (one_less aw t replicas) A)
      (bnd (update_machine api (mc\<lparr>mc_annotations := anns\<rparr>)) (\<lambda>(updateMachine, _).
       if last_label machineset_label (mc_labels updateMachine) \<noteq> [] then
         bnd (list_machinesets api Everything []) (\<lambda>(all, _).
         bnd (for_each all (removeFromMachineSet api aw replicas (last_label machineset_label (mc_labels updateMachine))) ()) (\<lambda>z.
         ret (loop_ctl z)))
       else ret (Next ())))"
    if "dict_set (mc_annotations mc) delete_annotation ''true'' = Some anns" for mc anns
  proof -
    have "dict_get anns delete_annotation = Some ''true''" using dict_set_get [OF that] by simp
    then show ?thesis
      unfolding update_machine_def
      by (intro removal.learn removal_order.stays_pair removal_order.stays_if removal_order.stays_ret)
        (simp_all add: sets)
  qed
  show ?thesis
    unfolding removeNodeMachine_def Let_def
    by (rule removal_order.stays_if, rule removal_order.stays_bnd, rule removal_order.stays_index,
        rule removal_order.stays_bnd, rule removal.quiet, rule emits_machine_calls, simp,
        rule removal_order.stays_pair, rule removal_order.stays_bnd_Ok, rule removal_order.stays_set_entry,
        drule set_entry_Ok, rule marked, simp, rule removal_order.stays_ret)
qed

lemma backed_removeMachines:
  "stays_in (backed (one_less aw t replicas) A) (removeMachinesBasedOnReplicas api aw t replicas)"
proof -
  have rest: "stays_in (backed (one_less aw t replicas) (B \<union> set es))
      (if replicas < int (length names) then
         after_loop (for_each nodes (removeNode api aw replicas (int (length names))) ()) (\<lambda>_. ret (no_requeue, None))
       else ret (no_requeue, None))"
    if "filterAwMachines api aw t s = (Ok names, u)" "trace u = trace s @ es" for names nodes s u es B
  proof -
    from that(1) obtain ml err where ml: "trace u = trace s @ [ListMachines (aw_machine_selector aw t) (ml, err)]"
      "length names = length (running ml)" by (rule filterAwMachines_Ok)
    from ml(1) that(2) have "es = [ListMachines (aw_machine_selector aw t) (ml, err)]" by simp
    then have "ListMachines (aw_machine_selector aw t) (ml, err) \<in> B \<union> set es" by simp
    with ml(2) show ?thesis
      unfolding removeNode_def
      by (intro removal_order.stays_if removal_order.stays_after_loop removal_order.stays_for_each
          removal_order.stays_bnd removal_order.stays_ret)
        (auto intro: backed_removeNodeMachine)
  qed
  show ?thesis
    unfolding removeMachinesBasedOnReplicas_def Let_def
    by (rule removal_order.stays_bnd, rule removal.quiet, intro emits_intros, simp,
        rule removal_order.stays_pair, rule removal.learn_run, intro emits_intros, simp, rule rest)
qed

text \<open>
  A machine set that is scaled up from \<open>ms\<close>: by the demand, less the AppWrapper's machines of the type
  that some list reports as running, with the demand in the AppWrapper's label.
\<close>

definition up_from :: "appwrapper \<Rightarrow> demand \<Rightarrow> machineset \<Rightarrow> string \<Rightarrow> event set \<Rightarrow> machineset \<Rightarrow> bool" where
  "up_from aw demand ms t A ms' \<longleftrightarrow> (\<exists>n ml lerr lbls.
     ListMachines (aw_machine_selector aw t) (ml, lerr) \<in> A \<and> ms_replicas ms = Some n \<and>
     dict_set (ms_labels ms) (scale_label aw) (format_int (demand_at demand t)) = Some lbls \<and>
     ms' = ms\<lparr>ms_replicas := Some (n - word_of_int (int (length (running ml))) + word_of_int (demand_at demand t)),
       ms_labels := lbls\<rparr>)"

definition has_type :: "'w api \<Rightarrow> machineset \<Rightarrow> string \<Rightarrow> bool" where
  "has_type api ms t \<longleftrightarrow> (\<exists>cfg err. ProviderSpecFromRawExtension api (ms_providerSpec ms) = (Some cfg, err) \<and>
     instanceType cfg = t)"

text \<open>Which of the two happens depends on the order of two strings.\<close>

definition resized_from :: "'w api \<Rightarrow> appwrapper \<Rightarrow> demand \<Rightarrow> machineset \<Rightarrow> string \<Rightarrow> event set \<Rightarrow> machineset \<Rightarrow> bool" where
  "resized_from api aw demand ms t A ms' \<longleftrightarrow> has_type api ms t \<and>
     (if format_int (demand_at demand t) < dict_index (ms_labels ms) (scale_label aw)
      then one_less aw t (demand_at demand t) A ms' else up_from aw demand ms t A ms')"

interpretation resize: evidence "resized_from api aw demand ms t" for api :: "'w api" and aw demand ms t
proof
  fix A B :: "event set" and ms'
  assume r: "resized_from api aw demand ms t A ms'" and AB: "A \<subseteq> B"
  have "up_from aw demand ms t A ms' \<Longrightarrow> up_from aw demand ms t B ms'"
    unfolding up_from_def using AB by blast
  with r removal.more [OF _ AB] show "resized_from api aw demand ms t B ms'"
    by (auto simp: resized_from_def)
qed

interpretation resize_order: program_order "backed (resized_from api aw demand ms t) A"
  for api :: "'w api" and aw demand ms t A
  by (rule resize.order)

lemma backed_reuseApply:
  assumes "ListMachines (aw_machine_selector aw t) (ml, lerr) \<in> A" "ms_replicas ms = Some n" "has_type api ms t"
  shows "stays_in (backed (resized_from api aw demand ms t) A)
    (reuseApply api aw t (demand_at demand t) ms (scaled_up ms n (length (running ml)) (demand_at demand t)) existing k sc)"
proof -
  let ?d = "demand_at demand t"
  have down: "stays_in (backed (resized_from api aw demand ms t) A) (removeMachinesBasedOnReplicas api aw t ?d)"
    if "format_int ?d < dict_index (ms_labels ms) (scale_label aw)"
    by (rule backed_weaken [OF backed_removeMachines]) (simp add: resized_from_def that assms(3))
  have up: "stays_in (backed (resized_from api aw demand ms t) A)
      (update_machineset api ((scaled_up ms n (length (running ml)) ?d)\<lparr>ms_labels := lbls\<rparr>))"
    if "\<not> format_int ?d < dict_index (ms_labels ms) (scale_label aw)"
      "dict_set (ms_labels (scaled_up ms n (length (running ml)) ?d)) (scale_label aw) (format_int ?d) = Some lbls" for lbls
  proof (rule resize.update)
    have "up_from aw demand ms t A ((scaled_up ms n (length (running ml)) ?d)\<lparr>ms_labels := lbls\<rparr>)"
      unfolding up_from_def
      by (intro exI [of _ n] exI [of _ ml] exI [of _ lerr] exI [of _ lbls])
        (use assms(1,2) that(2) in \<open>simp add: scaled_up_def Let_def algebra_simps\<close>)
    with that(1) assms(3) show "resized_from api aw demand ms t A ((scaled_up ms n (length (running ml)) ?d)\<lparr>ms_labels := lbls\<rparr>)"
      by (simp add: resized_from_def)
  qed
  show ?thesis
    unfolding reuseApply_def Let_def
    by (rule resize_order.stays_bnd, rule resize.quiet, rule emits_existing_owned,
        rule resize_order.stays_bnd_Ok, rule resize_order.stays_set_entry, drule set_entry_Ok,
        intro resize_order.stays_if resize_order.stays_bnd resize_order.stays_pair resize_order.stays_option
          resize_order.stays_ret down up)
      simp_all
qed

lemma backed_reuseDecide:
  assumes "ListMachines (aw_machine_selector aw t) (ml, lerr) \<in> A" "ms_replicas ms = Some n" "has_type api ms t"
  shows "stays_in (backed (resized_from api aw demand ms t) A)
    (reuseDecide api aw demand t ms (scaled_up ms n (length (running ml)) (demand_at demand t)) existing sc)"
  unfolding reuseDecide_def Let_def
  by (intro resize_order.stays_bnd resize_order.stays_if resize_order.stays_ret
      backed_reuseApply [OF assms(1) assms(2) assms(3)])
    (rule resize.quiet, intro emits_intros, simp)+

lemma backed_reuseMachineSet:
  "stays_in (backed (resized_from api aw demand ms t) A) (reuseMachineSet api aw demand t ms sc)"
proof -
  obtain pc perr where p: "ProviderSpecFromRawExtension api (ms_providerSpec ms) = (pc, perr)" by fastforce
  show ?thesis
  proof (cases "\<exists>cfg n. pc = Some cfg \<and> t = instanceType cfg \<and> ms_replicas ms = Some n")
    case True
    then obtain cfg n where c: "pc = Some cfg" "t = instanceType cfg" "ms_replicas ms = Some n" by blast
    have has: "has_type api ms t" using p c by (auto simp: has_type_def)
    let ?d = "demand_at demand t"
    have rest: "stays_in (backed (resized_from api aw demand ms t) (A \<union> set es))
        (bnd (list_machines api (MatchSet [(instance_type_label, t), (machineset_label, ms_name ms)]) [])
         (\<lambda>(allExistingMachinesInMs, _).
         bnd (for_each allExistingMachinesInMs (labelMachine api aw t ?d) []) (\<lambda>z. case z of
           Inr r \<Rightarrow> ret (Return r)
         | Inl _ \<Rightarrow> reuseDecide api aw demand t ms (scaled_up ms n (length names) ?d) allExistingMachinesInMs sc')))"
      if "filterAwMachines api aw t s = (Ok names, u)" "trace u = trace s @ es" for names s u es sc'
    proof -
      from that(1) obtain ml err where ml: "trace u = trace s @ [ListMachines (aw_machine_selector aw t) (ml, err)]"
        "length names = length (running ml)" by (rule filterAwMachines_Ok)
      from ml(1) that(2) have es: "es = [ListMachines (aw_machine_selector aw t) (ml, err)]" by simp
      show ?thesis
        unfolding ml(2)
        by (intro resize_order.stays_bnd resize_order.stays_pair resize_order.stays_sum resize_order.stays_ret
            backed_reuseDecide [of _ _ ml err] c(3) has)
          (auto simp: es labelMachine_def intro!: resize.quiet emits_intros)
    qed
    show ?thesis
      unfolding reuseMachineSet_def Let_def p prod.case c(1) deref_simps bnd_ret if_P [OF c(2)] c(3)
      by (rule resize.learn_run, intro emits_intros, simp, rule rest)
  next
    case False
    then show ?thesis
      unfolding reuseMachineSet_def Let_def p
      by (cases pc; cases "ms_replicas ms")
        (auto simp: deref_simps bnd_ret bnd_panic intro!: resize_order.stays_ret resize_order.stays_panic
          resize_order.stays_bnd resize.quiet emits_intros)
  qed
qed

text \<open>The same for all machine sets and types: each update comes from a listed machine set.\<close>

definition resized :: "'w api \<Rightarrow> appwrapper \<Rightarrow> demand \<Rightarrow> event set \<Rightarrow> machineset \<Rightarrow> bool" where
  "resized api aw demand A ms' \<longleftrightarrow> (\<exists>mss err ms t. ListMachineSets Everything (mss, err) \<in> A \<and> ms \<in> set mss \<and>
     t \<in> fst ` set demand \<and> resized_from api aw demand ms t A ms')"

interpretation resized: evidence "resized api aw demand" for api :: "'w api" and aw demand
proof
  fix A B :: "event set" and ms'
  assume r: "resized api aw demand A ms'" and AB: "A \<subseteq> B"
  with resize.more [OF _ AB] show "resized api aw demand B ms'"
    unfolding resized_def by blast
qed

interpretation resized_order: program_order "backed (resized api aw demand) A" for api :: "'w api" and aw demand A
  by (rule resized.order)

lemma backed_reuse: "stays_in (backed (resized api aw demand) A) (reconcileReuseMachineSet api aw demand)"
proof -
  have one: "stays_in (backed (resized api aw demand) (insert (ListMachineSets Everything (mss, err)) A))
      (reuseMachineSet api aw demand t ms sc)"
    if "ms \<in> set mss" "t \<in> fst ` set demand" for mss err ms t sc
    by (rule backed_weaken [OF backed_reuseMachineSet]) (use that in \<open>auto simp: resized_def\<close>)
  have loops: "stays_in (backed (resized api aw demand) (insert (ListMachineSets Everything (mss, err)) A))
      (bnd (range_order (map fst demand)) (\<lambda>types.
       after_loop (for_each types (\<lambda>t isScaled.
         bnd (for_each mss (reuseMachineSet api aw demand t) isScaled) (\<lambda>z. ret (loop_ctl z))) False)
       (\<lambda>_. ret (no_requeue, None))))" for mss err
    by (rule resized_order.stays_bnd_Ok, rule resized.quiet, intro emits_intros, drule range_order_set,
        intro resized_order.stays_after_loop resized_order.stays_for_each resized_order.stays_bnd
          resized_order.stays_ret one)
      (auto simp: image_def)
  show ?thesis
    unfolding reconcileReuseMachineSet_def list_machinesets_def
    by (rule resized.learn, simp, rule resized_order.stays_pair) (use loops in auto)
qed

text \<open>What a release writes first, and what it leaves when it fails after that.\<close>

lemma release_writes:
  assumes "dict_get (ms_labels ms) (scale_label aw) = Some (format_int d)" "- (2 ^ 63) \<le> d" "d < 2 ^ 63"
    and "ms_replicas ms = Some n"
  shows "\<exists>ans rest. trace (snd (releaseMachineSet api aw ms rc u)) =
    trace u @ UpdateMachineSet (ms\<lparr>ms_replicas := Some (n - word_of_int d)\<rparr>) ans # rest"
proof -
  let ?ms' = "ms\<lparr>ms_replicas := Some (n - word_of_int d)\<rparr>"
  define k where "k = (\<lambda>(_ :: machineset, err). case err of
    Some e \<Rightarrow> ret (Return (Some e))
  | None \<Rightarrow> bnd (removeMachineSetLabel api aw (ms_name ms)) (\<lambda>err. case err of
      Some e \<Rightarrow> ret (Return (Some e)) | None \<Rightarrow> ret (Next (word_of_int d :: int32))))"
  have run: "releaseMachineSet api aw ms rc = bnd (update_machineset api ?ms') k"
    using assms by (simp add: releaseMachineSet_def read_replica_count_def atoi_format_int deref_simps bnd_ret
        scaled_down_def k_def)
  obtain ans w where a: "k_update_machineset (kube api) ?ms' (world u) = (ans, w)" by fastforce
  let ?t = "u\<lparr>world := w, trace := trace u @ [UpdateMachineSet ?ms' ans]\<rparr>"
  have "emits (\<lambda>_. True) (k ans)"
    unfolding k_def by (intro emits_intros; simp)
  then obtain es where "trace (snd (k ans ?t)) = trace ?t @ es" "list_all (\<lambda>_. True) es"
    by (rule emitsD [OF _ prod.collapse [symmetric]])
  then show ?thesis
    unfolding run using a by (auto simp: bnd_run update_machineset_def call_def)
qed

text \<open>What one pass over one machine set may send.\<close>

lemma reuseMachineSet_update:
  assumes "trace (snd (reuseMachineSet api aw demand t ms sc s)) = trace s @ es" "UpdateMachineSet ms' r \<in> set es"
  shows "resized_from api aw demand ms t (set es) ms'"
  using backedD [OF backed_reuseMachineSet assms] .

lemma reuseMachineSet_trace:
  obtains es where "trace (snd (reuseMachineSet api aw demand t ms sc s)) = trace s @ es"
  using backed_reuseMachineSet [where A = "{}"] unfolding stays_in_def backed_def by blast


definition one_machineset :: "(string \<times> string) list \<Rightarrow> cluster gstate" where
  "one_machineset lbls = ready reuse_config MachineTypeMachineSet (machinesets_on [machineset_m5 openshift_ns lbls 1])"

lemma one_machineset_trace: "trace (one_machineset lbls) = []"
  by (simp add: one_machineset_def ready_fields)

lemma update_sent:
  "list_ex (\<lambda>e. case e of UpdateMachineSet x _ \<Rightarrow> P x | _ \<Rightarrow> False) es \<Longrightarrow>
    \<exists>x r. UpdateMachineSet x r \<in> set es \<and> P x"
  by (induction es) (auto split: event.splits)


text \<open>
  C23 (removeMachines_one_replica): \<open>removeMachinesBasedOnReplicas\<close>, which handles an AppWrapper that
  wants fewer replicas than before, changes at most one machine set. The update it sends is a listed
  machine set with one replica less and with the wanted number in the AppWrapper's label; it is sent
  only if a list of the AppWrapper's machines has more running ones than are wanted, and after a
  machine of this machine set was marked for deletion.
\<close>

theorem removeMachines_one_replica:
  "\<exists>es. trace (snd (removeMachinesBasedOnReplicas api aw t replicas s)) = trace s @ es \<and>
    length (filter resizes es) \<le> 1 \<and>
    (\<forall>ms' r. UpdateMachineSet ms' r \<in> set es \<longrightarrow> one_less aw t replicas (set es) ms')"
proof -
  obtain es where es: "trace (snd (removeMachinesBasedOnReplicas api aw t replicas s)) = trace s @ es"
    "\<forall>ms' r. UpdateMachineSet ms' r \<in> set es \<longrightarrow> one_less aw t replicas ({} \<union> set es) ms'"
    using backed_removeMachines unfolding stays_in_def backed_def by blast
  obtain fs where "trace (snd (removeMachinesBasedOnReplicas api aw t replicas s)) = trace s @ fs"
    "length (filter resizes fs) \<le> 1"
    by (rule boundedD [OF bounded_removeMachines prod.collapse [symmetric]])
  with es show ?thesis by auto
qed

definition one_too_many :: "cluster gstate" where
  "one_too_many = ready reuse_config MachineTypeMachineSet ((machinesets_on [machineset_m5 openshift_ns [] 1])
     \<lparr>c_machines := [machine_m5 [(aw_id job, aw_id job), (instance_type_label, ''m5''), (machineset_label, ''set'')]],
      c_nodes := [node_m5 [(''job'', ''job''), (''node.kubernetes.io/instance-type'', ''m5'')]]\<rparr>)"

text \<open>One machine runs and none is wanted: the machine set goes from one replica to none.\<close>

theorem removeMachines_one_replica_witness:
  "\<exists>es ms' r. trace (snd (removeMachinesBasedOnReplicas ref_api job ''m5'' 0 one_too_many)) = es \<and>
    UpdateMachineSet ms' r \<in> set es \<and> ms_replicas ms' = Some 0 \<and> one_less job ''m5'' 0 (set es) ms'"
proof -
  let ?es = "trace (snd (removeMachinesBasedOnReplicas ref_api job ''m5'' 0 one_too_many))"
  have "list_ex (\<lambda>e. case e of UpdateMachineSet x _ \<Rightarrow> ms_replicas x = Some 0 | _ \<Rightarrow> False) ?es"
    by code_simp
  from update_sent [OF this] obtain ms' r where u: "UpdateMachineSet ms' r \<in> set ?es" "ms_replicas ms' = Some 0"
    by blast
  have "trace one_too_many = []" by (simp add: one_too_many_def ready_fields)
  moreover obtain es where es: "?es = trace one_too_many @ es"
    "\<forall>ms' r. UpdateMachineSet ms' r \<in> set es \<longrightarrow> one_less job ''m5'' 0 (set es) ms'"
    using removeMachines_one_replica [of ref_api job "''m5''" 0 one_too_many] by blast
  ultimately have "?es = es" by simp
  with u es(2) show ?thesis by blast
qed

text \<open>
  C14 (scale_roundtrip): where the reuse strategy updates a machine set that has no label of the
  AppWrapper, the release of what it sent (whenever it comes, and whatever else the state is then)
  first writes the original number of replicas less the AppWrapper's machines of the type that were
  running when the set was scaled up. So the original number is restored if none was running.
\<close>

theorem scale_roundtrip:
  assumes "trace (snd (reuseMachineSet api aw demand t ms sc s)) = trace s @ es" "UpdateMachineSet ms' r \<in> set es"
    and "dict_get (ms_labels ms) (scale_label aw) = None"
    and "- (2 ^ 63) \<le> demand_at demand t" "demand_at demand t < 2 ^ 63"
  shows "\<exists>n ml lerr. ms_replicas ms = Some n \<and> ListMachines (aw_machine_selector aw t) (ml, lerr) \<in> set es \<and>
    (\<forall>rc u. \<exists>ans rest. trace (snd (releaseMachineSet api' aw ms' rc u)) = trace u @
      UpdateMachineSet (ms'\<lparr>ms_replicas := Some (n - word_of_int (int (length (running ml))))\<rparr>) ans # rest)"
proof -
  have "dict_index (ms_labels ms) (scale_label aw) = []" using assms(3) by (simp add: dict_index_def)
  then have "up_from aw demand ms t (set es) ms'"
    using reuseMachineSet_update [OF assms(1,2)] by (simp add: resized_from_def)
  then obtain n ml lerr lbls where l: "ListMachines (aw_machine_selector aw t) (ml, lerr) \<in> set es"
    and n: "ms_replicas ms = Some n"
    and lbls: "dict_set (ms_labels ms) (scale_label aw) (format_int (demand_at demand t)) = Some lbls"
    and ms': "ms' = ms\<lparr>ms_replicas := Some (n - word_of_int (int (length (running ml))) +
      word_of_int (demand_at demand t)), ms_labels := lbls\<rparr>"
    unfolding up_from_def by blast
  have "dict_get (ms_labels ms') (scale_label aw) = Some (format_int (demand_at demand t))"
    unfolding ms' using dict_set_get [OF lbls] by simp
  moreover have "ms_replicas ms' = Some (n - word_of_int (int (length (running ml))) + word_of_int (demand_at demand t))"
    by (simp add: ms')
  ultimately have "\<exists>ans rest. trace (snd (releaseMachineSet api' aw ms' rc u)) = trace u @
      UpdateMachineSet (ms'\<lparr>ms_replicas := Some (n - word_of_int (int (length (running ml))) +
        word_of_int (demand_at demand t) - word_of_int (demand_at demand t))\<rparr>) ans # rest" for rc u
    using release_writes assms(4,5) by blast
  with l n show ?thesis unfolding add_diff_cancel by blast
qed

theorem scale_roundtrip_witness:
  "\<exists>ms' r rest ans n. UpdateMachineSet ms' r \<in> set (trace (snd (reuseMachineSet ref_api job [(''m5'', 2)] ''m5''
      (machineset_m5 openshift_ns [] 1) False (one_machineset [])))) \<and> ms_replicas ms' = Some 3 \<and>
    trace (snd (releaseMachineSet ref_api job ms' 0 (one_machineset []))) =
      UpdateMachineSet (ms'\<lparr>ms_replicas := Some n\<rparr>) ans # rest"
proof -
  let ?ms = "machineset_m5 openshift_ns [] 1"
  let ?es = "trace (snd (reuseMachineSet ref_api job [(''m5'', 2)] ''m5'' ?ms False (one_machineset [])))"
  have "list_ex (\<lambda>e. case e of UpdateMachineSet x _ \<Rightarrow> ms_replicas x = Some 3 | _ \<Rightarrow> False) ?es"
    by code_simp
  from update_sent [OF this] obtain ms' r where u: "UpdateMachineSet ms' r \<in> set ?es" "ms_replicas ms' = Some 3"
    by blast
  have es: "?es = trace (one_machineset []) @ ?es" by (simp add: one_machineset_trace)
  have "dict_get (ms_labels ?ms) (scale_label job) = None" "- (2 ^ 63) \<le> demand_at [(''m5'', 2)] ''m5''"
    "demand_at [(''m5'', 2)] ''m5'' < 2 ^ 63"
    by code_simp+
  from scale_roundtrip [OF es u(1) this, of ref_api] obtain n where
    "\<forall>rc u. \<exists>ans rest. trace (snd (releaseMachineSet ref_api job ms' rc u)) = trace u @
      UpdateMachineSet (ms'\<lparr>ms_replicas := Some n\<rparr>) ans # rest"
    by blast
  from this [rule_format, of 0 "one_machineset []"] u show ?thesis
    unfolding one_machineset_trace append_Nil by blast
qed

text \<open>
  C31 (larger_demand_taken_for_smaller): the label and the demand are compared as strings. Where the
  label of a machine set is the decimal of a number between two and nine, and the demand has two or
  more digits and begins with a one, the strategy never scales the machine set up: the only
  update it may send is one that takes a replica away.
\<close>

theorem larger_demand_taken_for_smaller:
  assumes "dict_get (ms_labels ms) (scale_label aw) = Some (format_int old)" "2 \<le> old" "old < 10"
    and "10 ^ Suc k \<le> demand_at demand t" "demand_at demand t < 2 * 10 ^ Suc k"
  shows "\<exists>es. trace (snd (reuseMachineSet api aw demand t ms sc s)) = trace s @ es \<and>
    (\<forall>ms' r. UpdateMachineSet ms' r \<in> set es \<longrightarrow> one_less aw t (demand_at demand t) (set es) ms')"
proof -
  obtain es where es: "trace (snd (reuseMachineSet api aw demand t ms sc s)) = trace s @ es"
    by (rule reuseMachineSet_trace)
  have "format_int (demand_at demand t) < dict_index (ms_labels ms) (scale_label aw)"
    using format_int_larger_is_less [OF assms(4,5,2,3)] assms(1) by (simp add: dict_index_def)
  with reuseMachineSet_update [OF es] es show ?thesis
    unfolding resized_from_def by auto
qed

theorem larger_demand_taken_for_smaller_witness:
  "\<exists>es. trace (snd (reuseMachineSet ref_api job [(''m5'', 10)] ''m5''
      (machineset_m5 openshift_ns [(scale_label job, ''9'')] 9) False
      (one_machineset [(scale_label job, ''9'')]))) = es \<and>
    (\<forall>ms' r. UpdateMachineSet ms' r \<in> set es \<longrightarrow> one_less job ''m5'' 10 (set es) ms')"
proof -
  have l: "dict_get (ms_labels (machineset_m5 openshift_ns [(scale_label job, ''9'')] 9)) (scale_label job) =
      Some (format_int 9)" by code_simp
  have d: "demand_at [(''m5'', 10)] ''m5'' = 10" by code_simp
  have "(10::int) ^ Suc 0 \<le> demand_at [(''m5'', 10)] ''m5''" "demand_at [(''m5'', 10)] ''m5'' < 2 * 10 ^ Suc 0"
    by (simp_all add: d)
  from larger_demand_taken_for_smaller [OF l _ _ this, of ref_api False "one_machineset [(scale_label job, ''9'')]"]
  show ?thesis unfolding one_machineset_trace append_Nil d by simp
qed



text \<open>
  C35 (handover_label_unused): the label that a hand-over writes on a machine is not the one by which the
  machines of the new AppWrapper are found: whatever labels a machine has, after any patch that
  \<open>swapNodeLabels\<close> sends the value at the new AppWrapper's key is its name alone, and the selector that
  \<open>filterAwMachines\<close> uses for it selects the machine for no instance type.
\<close>

theorem handover_label_unused:
  assumes "trace (snd (swapNodeLabels api oldAw newAw s)) = trace s @ es"
    and "PatchMachine obj p r \<in> set es" and "patch_labels p d = Some d'"
  shows "dict_get d' (aw_id newAw) = Some (aw_name newAw) \<and> \<not> selects (aw_machine_selector newAw t) d'"
proof -
  have "emits (\<lambda>e. \<forall>obj p r. e = PatchMachine obj p r \<longrightarrow> p = machine_swap_patch oldAw newAw)
      (swapNodeLabels api oldAw newAw)"
    by (intro emits_intros) simp_all
  then obtain fs where "trace (snd (swapNodeLabels api oldAw newAw s)) = trace s @ fs"
    "list_all (\<lambda>e. \<forall>obj p r. e = PatchMachine obj p r \<longrightarrow> p = machine_swap_patch oldAw newAw) fs"
    by (rule emitsD [OF _ prod.collapse [symmetric]])
  with assms(1,2) have p: "p = machine_swap_patch oldAw newAw" by (auto simp: list_all_iff)
  obtain d1 where "dict_set d1 (aw_id newAw) (aw_name newAw) = Some d'"
    using assms(3) unfolding p
    by (auto simp: machine_swap_patch_def patch_label_def labels_path_def label_path_def aw_id_def Let_def
        split: option.splits if_splits)
  then have "dict_get d' (aw_id newAw) = Some (aw_name newAw)" using dict_set_get by fastforce
  moreover have "aw_name newAw \<noteq> aw_id newAw" by (simp add: aw_id_def)
  ultimately show ?thesis by (simp add: aw_machine_selector_def)
qed

lemma patch_sent:
  "list_ex (\<lambda>e. case e of PatchMachine _ p _ \<Rightarrow> P p | _ \<Rightarrow> False) es \<Longrightarrow>
    \<exists>obj p r. PatchMachine obj p r \<in> set es \<and> P p"
  by (induction es) (auto split: event.splits)

theorem handover_label_unused_witness:
  "\<exists>obj p r. PatchMachine obj p r \<in>
      set (trace (snd (swapNodeLabels ref_api job other_job (ready reuse_config MachineTypeMachineSet swap_cluster)))) \<and>
    (\<forall>d'. patch_labels p (Some [(aw_id job, aw_id job)]) = Some d' \<longrightarrow>
      \<not> selects (aw_machine_selector other_job ''m5'') d') \<and>
    patch_labels p (Some [(aw_id job, aw_id job)]) \<noteq> None"
proof -
  let ?s = "ready reuse_config MachineTypeMachineSet swap_cluster"
  let ?es = "trace (snd (swapNodeLabels ref_api job other_job ?s))"
  let ?p = "machine_swap_patch job other_job"
  have "list_ex (\<lambda>e. case e of PatchMachine _ p _ \<Rightarrow> p = ?p | _ \<Rightarrow> False) ?es" by code_simp
  from patch_sent [OF this] obtain obj r where e: "PatchMachine obj ?p r \<in> set ?es" by blast
  have "?es = trace ?s @ ?es" by (simp add: ready_fields)
  from handover_label_unused [OF this e] have
    "\<forall>d'. patch_labels ?p (Some [(aw_id job, aw_id job)]) = Some d' \<longrightarrow> \<not> selects (aw_machine_selector other_job ''m5'') d'"
    by blast
  moreover have "patch_labels ?p (Some [(aw_id job, aw_id job)]) \<noteq> None" by code_simp
  ultimately show ?thesis using e by blast
qed

end
