(* ===== verification/MachineSetDuplicate.thy ===== *)
theory MachineSetDuplicate
  imports MachineSetReuse
begin

text \<open>
  The "duplicate" strategy of \<open>controllers/machineset.go\<close>: a copy of a machine set of the wanted
  instance type is created for the AppWrapper, and deleted with it.
\<close>

definition aw_machineset_label :: string where
  "aw_machineset_label = ''instascale.codeflare.dev-aw''"

definition copy_name :: "appwrapper \<Rightarrow> string \<Rightarrow> string" where
  "copy_name aw t = aw_name aw @ ''-'' @ aw_namespace aw @ ''-'' @ t"

text \<open>The fields of the copy that are overwritten, before its label is set.\<close>

definition duplicate_of :: "machineset \<Rightarrow> appwrapper \<Rightarrow> string \<Rightarrow> int \<Rightarrow> machineset" where
  "duplicate_of ms aw t wanted = ms\<lparr>
     ms_replicas := Some (word_of_int wanted),
     ms_resourceVersion := [],
     ms_taints := [\<lparr>t_key = aw_name aw, t_value = ''value1'', t_effect = ''PreferNoSchedule''\<rparr>],
     ms_name := copy_name aw t,
     ms_templateLabels := Some [(aw_name aw, aw_name aw)],
     ms_matchLabels := Some [(aw_name aw, aw_name aw)],
     ms_matchExpressions := []\<rparr>"

text \<open>The last listed machine set with the name of the copy; a zero machine set has an empty name.\<close>

definition existing_copy :: "string \<Rightarrow> machineset list \<Rightarrow> machineset option" where
  "existing_copy name items = fold (\<lambda>ms found. if ms_name ms = name then Some ms else found) items None"

text \<open>A failed patch of a node is logged only.\<close>

definition labelNodeOf :: "'w api \<Rightarrow> appwrapper \<Rightarrow> machine \<Rightarrow> ('w gstate, unit) prog" where
  "labelNodeOf api aw machine =
     bnd (deref (mc_nodeRef machine)) (\<lambda>nodeName.
     bnd (patch_node api nodeName (add_label_patch aw)) (\<lambda>_. ret ()))"

definition createMachineSet :: "'w api \<Rightarrow> appwrapper \<Rightarrow> demand \<Rightarrow> string \<Rightarrow> machineset \<Rightarrow> unit \<Rightarrow>
    ('w gstate, (unit, reconcile_ret) ctl) prog" where
  "createMachineSet api aw demand t aMachineSet _ =
     (let (providerConfig, _) = ProviderSpecFromRawExtension api (ms_providerSpec aMachineSet) in
     bnd (deref providerConfig) (\<lambda>cfg.
     if t = instanceType cfg then
       (let copy = duplicate_of aMachineSet aw t (demand_at demand t);
            replicas = word_of_int (demand_at demand t) :: int32;
            sel = MatchSet [(aw_machineset_label, aw_id aw)] in
       bnd (set_entry (ms_labels copy) aw_machineset_label (aw_id aw)) (\<lambda>lbls.
       let copyOfaMachineSet = copy\<lparr>ms_labels := lbls\<rparr> in
       bnd (list_machinesets api sel []) (\<lambda>(existingMs, err). case err of
         Some e \<Rightarrow> ret (Return (no_requeue, Some e))
       | None \<Rightarrow> (case existing_copy (copy_name aw t) existingMs of
           None \<Rightarrow>
             bnd (create_machineset api copyOfaMachineSet) (\<lambda>err. case err of
               Some e \<Rightarrow> ret (Return (\<lparr>Requeue = False, RequeueAfter = timeFiveSeconds\<rparr>, Some e))
             | None \<Rightarrow> ret (Return (\<lparr>Requeue = False, RequeueAfter = timeFiveSeconds\<rparr>, None)))
         | Some existingMachine \<Rightarrow>
             if replicas - ms_availableReplicas existingMachine \<noteq> 0 then
               ret (Return (\<lparr>Requeue = True, RequeueAfter = timeThirtySeconds\<rparr>, None))
             else
               bnd (list_machines api Everything []) (\<lambda>(allMachines, _).
               bnd (list_machines api sel allMachines) (\<lambda>(allMachines, _).
               bnd (do_each allMachines (labelNodeOf api aw)) (\<lambda>_.
               ret (Next ()))))))))
     else ret (Next ())))"

definition reconcileCreateMachineSet :: "'w api \<Rightarrow> appwrapper \<Rightarrow> demand \<Rightarrow> ('w gstate, reconcile_ret) prog" where
  "reconcileCreateMachineSet api aw demandMapPerInstanceType =
     bnd (list_machinesets api Everything []) (\<lambda>(allMachineSet, _).
     bnd (range_order (map fst demandMapPerInstanceType)) (\<lambda>types.
     after_loop (for_each types (\<lambda>t _.
         bnd (for_each allMachineSet (createMachineSet api aw demandMapPerInstanceType t) ()) (\<lambda>z.
         ret (loop_ctl z))) ())
       (\<lambda>_. ret (no_requeue, None))))"

definition deleteOne :: "'w api \<Rightarrow> machineset \<Rightarrow> unit \<Rightarrow> ('w gstate, (unit, go_error option) ctl) prog" where
  "deleteOne api aMachineSet _ =
     bnd (delete_machineset api aMachineSet) (\<lambda>err. case err of
       Some e \<Rightarrow> ret (Return (Some e)) | None \<Rightarrow> ret (Next ()))"

definition deleteMachineSet :: "'w api \<Rightarrow> appwrapper \<Rightarrow> ('w gstate, go_error option) prog" where
  "deleteMachineSet api aw =
     bnd (list_machinesets api (MatchSet [(aw_machineset_label, aw_id aw)]) []) (\<lambda>(allMachineSet, err). case err of
       Some e \<Rightarrow> ret (Some e)
     | None \<Rightarrow> after_loop (for_each allMachineSet (deleteOne api) ()) (\<lambda>_. ret None))"

subsection \<open>Calls and settings\<close>

lemma keeps_duplicate [frame_intros]:
  assumes "outside f"
  shows "stays_in (same f) (reconcileCreateMachineSet api aw demand)"
    "stays_in (same f) (deleteMachineSet api aw)"
  unfolding reconcileCreateMachineSet_def createMachineSet_def labelNodeOf_def deleteMachineSet_def
    deleteOne_def
  by (intro frame_intros assms)+

subsection \<open>What is created\<close>

text \<open>
  A machine set that may be created, for the machine sets that were listed: the copy of one of them
  whose provider configuration has a demanded instance type, field by field.
\<close>

definition copy_fields :: "appwrapper \<Rightarrow> string \<Rightarrow> int \<Rightarrow> machineset \<Rightarrow> machineset \<Rightarrow> bool" where
  "copy_fields aw t wanted base copy \<longleftrightarrow>
     ms_name copy = aw_name aw @ ''-'' @ aw_namespace aw @ ''-'' @ t \<and>
     ms_replicas copy = Some (word_of_int wanted) \<and>
     ms_resourceVersion copy = [] \<and>
     ms_taints copy = [\<lparr>t_key = aw_name aw, t_value = ''value1'', t_effect = ''PreferNoSchedule''\<rparr>] \<and>
     ms_templateLabels copy = Some [(aw_name aw, aw_name aw)] \<and>
     ms_matchLabels copy = Some [(aw_name aw, aw_name aw)] \<and> ms_matchExpressions copy = [] \<and>
     dict_get (ms_labels copy) = (dict_get (ms_labels base))(''instascale.codeflare.dev-aw'' \<mapsto> aw_id aw) \<and>
     ms_namespace copy = ms_namespace base \<and> ms_providerSpec copy = ms_providerSpec base \<and>
     ms_availableReplicas copy = ms_availableReplicas base \<and> ms_rest copy = ms_rest base"

definition right_copy :: "'w api \<Rightarrow> appwrapper \<Rightarrow> demand \<Rightarrow> machineset list \<Rightarrow> machineset \<Rightarrow> bool" where
  "right_copy api aw demand mss copy \<longleftrightarrow> (\<exists>base \<in> set mss. \<exists>t \<in> fst ` set demand.
     has_type api base t \<and> copy_fields aw t (demand_at demand t) base copy)"

lemma copy_fields_duplicate:
  assumes "dict_set (ms_labels base) aw_machineset_label (aw_id aw) = Some lbls"
  shows "copy_fields aw t n base ((duplicate_of base aw t n)\<lparr>ms_labels := lbls\<rparr>)"
  using dict_set_get [OF assms] by (simp add: copy_fields_def duplicate_of_def copy_name_def aw_machineset_label_def)

definition creates_right :: "'w api \<Rightarrow> appwrapper \<Rightarrow> demand \<Rightarrow> machineset list \<Rightarrow> event \<Rightarrow> bool" where
  "creates_right api aw demand mss e \<longleftrightarrow>
     (resizes e \<longrightarrow> (\<exists>copy r. e = CreateMachineSet copy r \<and> right_copy api aw demand mss copy))"

lemma creates_right_simps [simp]:
  "creates_right api aw demand mss (ListMachineSets sel r1)" "creates_right api aw demand mss (ListMachines sel r2)"
  "creates_right api aw demand mss (PatchNode n p r3)"
  "creates_right api aw demand mss (CreateMachineSet ms r4) \<longleftrightarrow> right_copy api aw demand mss ms"
  by (simp_all add: creates_right_def)

lemma emits_createMachineSet:
  assumes t: "t \<in> fst ` set demand" and base: "ms \<in> set mss"
  shows "emits (creates_right api aw demand mss) (createMachineSet api aw demand t ms u)"
proof -
  obtain pc err where p: "ProviderSpecFromRawExtension api (ms_providerSpec ms) = (pc, err)" by fastforce
  show ?thesis
  proof (cases pc)
    case None
    with p show ?thesis
      by (simp add: createMachineSet_def deref_simps bnd_panic extends.stays_panic)
  next
    case (Some cfg)
    have copy: "right_copy api aw demand mss ((duplicate_of ms aw t (demand_at demand t))\<lparr>ms_labels := lbls\<rparr>)"
      if ty: "t = instanceType cfg" and run: "set_entry (ms_labels (duplicate_of ms aw t (demand_at demand t)))
        aw_machineset_label (aw_id aw) s1 = (Ok lbls, s2)" for lbls and s1 s2 :: "'a gstate"
    proof -
      have "has_type api ms t" using p Some ty by (simp add: has_type_def)
      moreover have "dict_set (ms_labels ms) aw_machineset_label (aw_id aw) = Some lbls"
        using set_entry_Ok [OF run] by (simp add: duplicate_of_def)
      ultimately show ?thesis
        unfolding right_copy_def using t base copy_fields_duplicate by blast
    qed
    show ?thesis
    proof (cases "t = instanceType cfg")
      case True
      show ?thesis
        unfolding createMachineSet_def labelNodeOf_def p Some Let_def prod.case deref_simps bnd_ret if_P [OF True]
        by (rule extends.stays_bnd_Ok, rule extends.stays_set_entry, drule copy [OF True], intro emits_intros)
          simp_all
    next
      case False
      then show ?thesis
        by (simp add: createMachineSet_def p Some deref_simps bnd_ret extends.stays_ret)
    qed
  qed
qed

lemma reconcileCreate_trace:
  "\<exists>mss err es. trace (snd (reconcileCreateMachineSet api aw demand s)) =
      trace s @ ListMachineSets Everything (mss, err) # es \<and>
    list_all (creates_right api aw demand mss) es"
proof -
  define k where "k = (\<lambda>(mss :: machineset list, _ :: go_error option). bnd (range_order (map fst demand)) (\<lambda>types.
      after_loop (for_each types (\<lambda>t _.
         bnd (for_each mss (createMachineSet api aw demand t) ()) (\<lambda>z. ret (loop_ctl z))) ())
       (\<lambda>_. ret (no_requeue, None))))"
  have loop: "emits (creates_right api aw demand mss) (k (mss, err))" for mss err
    unfolding k_def prod.case
    by (rule extends.stays_bnd_Ok, rule emits_random, drule range_order_set, intro emits_intros emits_createMachineSet)
      simp_all
  obtain mss err w where l: "k_list_machinesets (kube api) Everything [] (world s) = ((mss, err), w)"
    by (metis surj_pair)
  let ?t = "s\<lparr>world := w, trace := trace s @ [ListMachineSets Everything (mss, err)]\<rparr>"
  obtain es where "trace (snd (k (mss, err) ?t)) = trace ?t @ es" "list_all (creates_right api aw demand mss) es"
    by (rule emitsD [OF loop prod.collapse [symmetric]])
  moreover have "reconcileCreateMachineSet api aw demand s = k (mss, err) ?t"
    by (simp add: reconcileCreateMachineSet_def k_def bnd_run list_machinesets_def call_def l)
  ultimately show ?thesis
    by (intro exI [of _ mss] exI [of _ err] exI [of _ es]) simp
qed

lemma bounded_createMachineSet: "bounded resizes (ctl_cost 1) (createMachineSet api aw demand t ms u)"
proof -
  have ret_Ok_iff: "ret x s = (r, t) \<longleftrightarrow> r = Ok x \<and> t = s" for x and s t :: "'a gstate" and r
    by (auto simp: ret_def)
  have create: "bounded resizes (ctl_cost 1) (bnd (create_machineset api m) (\<lambda>err. case err of
      Some e \<Rightarrow> ret (Return (f e)) | None \<Rightarrow> ret (Return y)))" for m f y
    unfolding create_machineset_def
    by (rule bounded_after [OF bounded_call])
      (auto intro: extends.stays_option extends.stays_ret simp: ret_Ok_iff split: option.splits)
  show ?thesis
    unfolding createMachineSet_def labelNodeOf_def Let_def
    by (intro bounded_if bounded_before bounded_pair bounded_option create bounded_quiet_ret
        emits_intros; simp)
qed

lemma bounded_reconcileCreate: "bounded resizes (\<lambda>_. 1) (reconcileCreateMachineSet api aw demand)"
  unfolding reconcileCreateMachineSet_def
  by (intro bounded_before bounded_pair bounded_after_loop bounded_for_each bounded_loop_ctl
      bounded_createMachineSet bounded_quiet_ret emits_intros; simp)

subsection \<open>What is deleted\<close>

lemma delete_loop:
  assumes "for_each mss (deleteOne api) u s = (Ok z, t)"
  shows "(z = Inl () \<and> trace t = trace s @ map (\<lambda>ms. DeleteMachineSet ms None) mss) \<or>
    (\<exists>pre ms post e. z = Inr (Some e) \<and> mss = pre @ ms # post \<and>
      trace t = trace s @ map (\<lambda>ms. DeleteMachineSet ms None) pre @ [DeleteMachineSet ms (Some e)])"
  using assms
proof (induction mss arbitrary: u s)
  case Nil
  then show ?case by simp
next
  case (Cons m mss)
  have one: "deleteOne api m u s = (Ok c, t1) \<Longrightarrow>
      (c = Next () \<and> trace t1 = trace s @ [DeleteMachineSet m None]) \<or>
      (\<exists>e. c = Return (Some e) \<and> trace t1 = trace s @ [DeleteMachineSet m (Some e)])" for c t1
    by (auto simp: deleteOne_def bnd_Ok delete_machineset_def dest!: call_Ok split: option.splits)
  from Cons.prems show ?case
  proof (cases rule: for_each_ConsE)
    case (continued l' s1)
    from one [OF continued(1)] have s1: "trace s1 = trace s @ [DeleteMachineSet m None]" by auto
    from Cons.IH [OF continued(2)] show ?thesis
    proof (elim disjE exE conjE)
      fix pre ms post e
      assume "z = Inr (Some e)" "mss = pre @ ms # post"
        "trace t = trace s1 @ map (\<lambda>ms. DeleteMachineSet ms None) pre @ [DeleteMachineSet ms (Some e)]"
      with s1 show ?thesis
        by (intro disjI2 exI [of _ "m # pre"] exI [of _ ms] exI [of _ post] exI [of _ e]) simp
    qed (simp add: s1)
  next
    case (broken l')
    with one [OF broken(1)] show ?thesis by simp
  next
    case (returned r)
    with one [OF returned(1)] show ?thesis
      by (intro disjI2 exI [of _ "[]"]) auto
  qed
qed

subsection \<open>Properties\<close>

text \<open>
  C12 (reconcileCreate_copies): \<open>reconcileCreateMachineSet\<close> first lists the machine sets. After that it
  changes at most one machine set, and what it does is to create the copy of a listed machine set
  whose provider spec has a demanded instance type: with the demanded number of replicas, no resource
  version, a name made of the AppWrapper's name, its namespace and the type, a template, a selector and
  a taint of the AppWrapper, and the AppWrapper's label added to the labels. Every other field is the
  original's.
\<close>

theorem reconcileCreate_copies:
  "\<exists>mss err es. trace (snd (reconcileCreateMachineSet api aw demand s)) =
      trace s @ ListMachineSets Everything (mss, err) # es \<and>
    length (filter resizes es) \<le> 1 \<and>
    (\<forall>e \<in> set es. resizes e \<longrightarrow> (\<exists>copy r base t. e = CreateMachineSet copy r \<and> base \<in> set mss \<and>
      t \<in> fst ` set demand \<and> has_type api base t \<and> copy_fields aw t (demand_at demand t) base copy))"
proof -
  from reconcileCreate_trace [of api aw demand s] obtain mss err es where
    es: "trace (snd (reconcileCreateMachineSet api aw demand s)) = trace s @ ListMachineSets Everything (mss, err) # es"
    "list_all (creates_right api aw demand mss) es"
    by blast
  obtain es' where "trace (snd (reconcileCreateMachineSet api aw demand s)) = trace s @ es'"
    "length (filter resizes es') \<le> 1"
    by (rule boundedD [OF bounded_reconcileCreate prod.collapse [symmetric]])
  with es(1) have "length (filter resizes es) \<le> 1" by auto
  moreover have "\<forall>e \<in> set es. resizes e \<longrightarrow> (\<exists>copy r base t. e = CreateMachineSet copy r \<and> base \<in> set mss \<and>
      t \<in> fst ` set demand \<and> has_type api base t \<and> copy_fields aw t (demand_at demand t) base copy)"
    using es(2) unfolding list_all_iff creates_right_def right_copy_def by blast
  ultimately show ?thesis using es(1) by blast
qed

definition duplicate_start :: "cluster gstate" where
  "duplicate_start = ready duplicate_config MachineTypeMachineSet (machinesets_on [machineset_m5 openshift_ns [] 1])"

text \<open>A demand of five on a machine set with one replica: a copy with five is created.\<close>

theorem reconcileCreate_copies_witness:
  "\<exists>es copy r base. trace (snd (reconcileCreateMachineSet ref_api job [(''m5'', 5)] duplicate_start)) = es \<and>
    CreateMachineSet copy r \<in> set es \<and> copy_fields job ''m5'' 5 base copy"
proof -
  let ?es = "trace (snd (reconcileCreateMachineSet ref_api job [(''m5'', 5)] duplicate_start))"
  obtain mss err es where
    run: "?es = trace duplicate_start @ ListMachineSets Everything (mss, err) # es"
    and right: "\<forall>e \<in> set es. resizes e \<longrightarrow> (\<exists>copy r base t. e = CreateMachineSet copy r \<and> base \<in> set mss \<and>
      t \<in> fst ` set ([(''m5'', 5)] :: demand) \<and> has_type ref_api base t \<and>
      copy_fields job t (demand_at [(''m5'', 5)] t) base copy)"
    using reconcileCreate_copies [of ref_api job "[(''m5'', 5)]" duplicate_start]
    by (elim exE conjE) (rule that)
  have es: "?es = ListMachineSets Everything (mss, err) # es"
    using run by (simp add: duplicate_start_def ready_fields)
  have "list_ex resizes (tl ?es)" by code_simp
  then obtain e where "e \<in> set es" "resizes e" using es by (auto simp: list_ex_iff)
  with right obtain copy r base t where c: "e = CreateMachineSet copy r" "t \<in> fst ` set ([(''m5'', 5)] :: demand)"
    "copy_fields job t (demand_at [(''m5'', 5)] t) base copy"
    by blast
  have "demand_at [(''m5'', 5)] ''m5'' = 5" by code_simp
  with c es \<open>e \<in> set es\<close> show ?thesis by auto
qed

text \<open>
  C20 (deleteMachineSet_exact): \<open>deleteMachineSet\<close> deletes the machine sets it lists under the
  AppWrapper's label, in order, and nothing else; it stops at the first delete that fails and returns
  that error, and it returns no error only when every listed machine set was deleted.
\<close>

theorem deleteMachineSet_exact:
  assumes "deleteMachineSet api aw s = (Ok r, t)"
  shows "\<exists>mss err. let listing = ListMachineSets (MatchSet [(aw_machineset_label, aw_id aw)]) (mss, err) in
    (err \<noteq> None \<and> r = err \<and> trace t = trace s @ [listing]) \<or>
    (err = None \<and> r = None \<and> trace t = trace s @ listing # map (\<lambda>ms. DeleteMachineSet ms None) mss) \<or>
    (\<exists>pre ms post e. err = None \<and> r = Some e \<and> mss = pre @ ms # post \<and>
      trace t = trace s @ listing # map (\<lambda>ms. DeleteMachineSet ms None) pre @ [DeleteMachineSet ms (Some e)])"
proof -
  let ?sel = "MatchSet [(aw_machineset_label, aw_id aw)]"
  from assms obtain mss err s1 where l: "list_machinesets api ?sel [] s = (Ok (mss, err), s1)" and
    rest: "(case err of Some e \<Rightarrow> ret (Some e)
      | None \<Rightarrow> after_loop (for_each mss (deleteOne api) ()) (\<lambda>_. ret None)) s1 = (Ok r, t)"
    by (auto simp: deleteMachineSet_def bnd_Ok)
  have s1: "trace s1 = trace s @ [ListMachineSets ?sel (mss, err)]"
    using l by (simp add: list_machinesets_def call_Ok)
  show ?thesis
  proof (cases err)
    case None
    with rest have "after_loop (for_each mss (deleteOne api) ()) (\<lambda>_. ret None) s1 = (Ok r, t)" by simp
    then have "(r = None \<and> trace t = trace s1 @ map (\<lambda>ms. DeleteMachineSet ms None) mss) \<or>
        (\<exists>pre ms post e. r = Some e \<and> mss = pre @ ms # post \<and>
          trace t = trace s1 @ map (\<lambda>ms. DeleteMachineSet ms None) pre @ [DeleteMachineSet ms (Some e)])"
    proof (cases rule: after_loop_OkE)
      case (finished l t1)
      with delete_loop [OF finished(1)] show ?thesis by auto
    next
      case returned
      with delete_loop [OF returned] show ?thesis by auto
    qed
    with None s1 show ?thesis
      by (intro exI [of _ mss] exI [of _ None]) (auto simp: Let_def)
  next
    case (Some e)
    with rest s1 show ?thesis
      by (intro exI [of _ mss] exI [of _ "Some e"]) (simp add: Let_def)
  qed
qed

definition copied_cluster :: cluster where
  "copied_cluster = machinesets_on [machineset_m5 openshift_ns [] 1,
     (machineset_m5 openshift_ns [(aw_machineset_label, ''job-ns'')] 2)\<lparr>ms_name := ''job-ns-m5''\<rparr>]"

theorem deleteMachineSet_exact_witness:
  "\<exists>mss err. trace (snd (deleteMachineSet ref_api job (ready duplicate_config MachineTypeMachineSet copied_cluster))) =
    ListMachineSets (MatchSet [(aw_machineset_label, aw_id job)]) (mss, err) # map (\<lambda>ms. DeleteMachineSet ms None) mss"
proof -
  let ?s = "ready duplicate_config MachineTypeMachineSet copied_cluster"
  have "fst (deleteMachineSet ref_api job ?s) = Ok None" by code_simp
  from deleteMachineSet_exact [OF run_eq [OF this]] show ?thesis
    unfolding ready_fields append_Nil Let_def by blast
qed

end
