(* ===== verification/OcmManager.thy ===== *)
theory OcmManager
  imports Utils
begin

text \<open>
  \<open>controllers/ocm_manager.go\<close>: opening a connection to OCM, finding the internal id of the cluster,
  closing the reconciler's connection; and \<open>checkHypershiftEnabled\<close> of \<open>controllers/nodepools.go\<close>,
  which asks OCM about the same cluster. The lemmas follow the open connection: \<open>balanced\<close> says that a
  program closes every connection it opens, before it opens another one.
\<close>

definition createOCMConnection :: "'w api \<Rightarrow> ('w gstate, connection option \<times> go_error option) prog" where
  "createOCMConnection api =
     bnd (build_logger api) (\<lambda>lerr. case lerr of
       Some e \<Rightarrow> ret (None, Some (Errorf ''can't build logger: '' e))
     | None \<Rightarrow>
         bnd (gets ocmToken) (\<lambda>token.
         bnd (connect api token) (\<lambda>c. case c of
           Inl e \<Rightarrow> ret (None, Some (Errorf ''can't build connection: '' e))
         | Inr connection \<Rightarrow>
             bnd (modify (\<lambda>s. s\<lparr>ocmConnection := Some connection\<rparr>)) (\<lambda>_.
             bnd (gets ocmConnection) (\<lambda>c. ret (c, None))))))"

text \<open>
  The error of \<open>createOCMConnection\<close> and the error of the search are logged only: the search then
  runs on a nil connection, and the clusters are those of the response, if any.
\<close>

definition external_id_query :: "string \<Rightarrow> string" where
  "external_id_query i = ''external_id = '' @ [CHR 39] @ i @ [CHR 39]"

definition getOCMClusterID :: "'w api \<Rightarrow> ('w gstate, go_error option) prog" where
  "getOCMClusterID api =
     bnd (get_clusterversion api ([], ''version'')) (\<lambda>(internalClusterID, err). case err of
       Some e \<Rightarrow> ret (Some e)
     | None \<Rightarrow>
         bnd (createOCMConnection api) (\<lambda>(connection, err).
         deferred (close_connection api connection) (
           bnd (search_clusters api connection (external_id_query internalClusterID)) (\<lambda>(clusters, err).
           bnd (do_each clusters (\<lambda>cluster. modify (\<lambda>s. s\<lparr>ocmClusterID := cl_id cluster\<rparr>))) (\<lambda>_.
           ret None)))))"

definition Close :: "'w api \<Rightarrow> ('w gstate, unit) prog" where
  "Close api = bnd (gets ocmConnection) (\<lambda>c. case c of
     None \<Rightarrow> ret () | Some _ \<Rightarrow> close_connection api c)"

text \<open>Where the response has no body, the error that is returned is the nil error of the call.\<close>

definition checkHypershiftEnabled :: "'w api \<Rightarrow> ('w gstate, bool \<times> go_error option) prog" where
  "checkHypershiftEnabled api =
     bnd (createOCMConnection api) (\<lambda>(connection, err). case err of
       Some e \<Rightarrow> ret (False, Some e)
     | None \<Rightarrow>
         deferred (close_connection api connection) (
           bnd (gets ocmClusterID) (\<lambda>cl.
           bnd (get_cluster api connection cl) (\<lambda>response. case response of
             Inl e \<Rightarrow> ret (False, Some e)
           | Inr None \<Rightarrow> ret (False, None)
           | Inr (Some hypershift) \<Rightarrow>
               ret (case hypershift of None \<Rightarrow> False | Some enabled \<Rightarrow> enabled, None)))))"

subsection \<open>Calls and settings\<close>

lemma emits_createOCMConnection [emits_intros]:
  "(\<And>tok r. P (OcmConnect tok r)) \<Longrightarrow> emits P (createOCMConnection api)"
  unfolding createOCMConnection_def by (intro emits_intros) auto

lemma keeps_createOCMConnection [frame_intros]:
  "outside f \<Longrightarrow> (\<And>s c. f (s\<lparr>ocmConnection := c\<rparr>) = f s) \<Longrightarrow> stays_in (same f) (createOCMConnection api)"
  unfolding createOCMConnection_def by (intro frame_intros keeps_modify) auto

lemma emits_checkHypershiftEnabled [emits_intros]:
  "(\<And>tok r. P (OcmConnect tok r)) \<Longrightarrow> (\<And>c. P (OcmClose c)) \<Longrightarrow> (\<And>i r. P (OcmGetCluster i r)) \<Longrightarrow>
    emits P (checkHypershiftEnabled api)"
  unfolding checkHypershiftEnabled_def by (intro emits_intros) auto

lemma keeps_checkHypershiftEnabled [frame_intros]:
  "outside f \<Longrightarrow> (\<And>s c. f (s\<lparr>ocmConnection := c\<rparr>) = f s) \<Longrightarrow> stays_in (same f) (checkHypershiftEnabled api)"
  unfolding checkHypershiftEnabled_def by (intro frame_intros keeps_modify) auto

subsection \<open>Connections\<close>

fun opens :: "event \<Rightarrow> bool" where
  "opens (OcmConnect _ (Inr _)) = True"
| "opens _ = False"

fun closes :: "event \<Rightarrow> bool" where
  "closes (OcmClose (Some _)) = True"
| "closes _ = False"

text \<open>
  \<open>track\<close> follows the connection that is open over a sequence of calls. It fails (\<^const>\<open>None\<close>) where a
  connection is opened while another one is open, or where a connection is closed that is not the
  open one. A close of a nil connection changes nothing.
\<close>

fun track_event :: "connection option \<Rightarrow> event \<Rightarrow> connection option option" where
  "track_event h (OcmConnect _ (Inr c)) = (if h = None then Some (Some c) else None)"
| "track_event h (OcmClose (Some c)) = (if h = Some c then Some None else None)"
| "track_event h e = Some h"

fun track :: "connection option \<Rightarrow> event list \<Rightarrow> connection option option" where
  "track h [] = Some h"
| "track h (e # es) = (case track_event h e of None \<Rightarrow> None | Some h' \<Rightarrow> track h' es)"

lemma track_append: "track h (es @ fs) = (case track h es of None \<Rightarrow> None | Some h' \<Rightarrow> track h' fs)"
  by (induction h es rule: track.induct) (auto split: option.splits)

lemma track_append_Some: "track h es = Some h' \<Longrightarrow> track h (es @ fs) = track h' fs"
  by (simp add: track_append)

text \<open>
  A run is balanced when every connection it opens is closed again, by a close of that same
  connection and before another one is opened.
\<close>

definition balanced :: "'w gstate \<Rightarrow> 'w gstate \<Rightarrow> bool" where
  "balanced s t \<longleftrightarrow> (\<exists>es. trace t = trace s @ es \<and> track None es = Some None)"

interpretation balanced: program_order balanced
proof unfold_locales
  show "balanced s s" for s :: "'w gstate"
    by (simp add: balanced_def)
  fix s t u :: "'w gstate"
  assume "balanced s t" "balanced t u"
  then obtain es fs where "trace t = trace s @ es" "track None es = Some None"
    "trace u = trace t @ fs" "track None fs = Some None"
    unfolding balanced_def by blast
  then show "balanced s u"
    unfolding balanced_def by (intro exI [of _ "es @ fs"]) (simp add: track_append)
qed

text \<open>A program that opens and closes nothing is balanced.\<close>

definition no_connection :: "event \<Rightarrow> bool" where
  "no_connection e \<longleftrightarrow> \<not> opens e \<and> \<not> closes e"

lemma no_connection_simps [simp]:
  "no_connection (OcmConnect tok r) \<longleftrightarrow> (\<exists>e. r = Inl e)"
  "no_connection (OcmClose c) \<longleftrightarrow> c = None"
  by (cases r; simp add: no_connection_def) (cases c; simp add: no_connection_def)

lemma track_event_none: "no_connection e \<Longrightarrow> track_event h e = Some h"
  by (cases "(h, e)" rule: track_event.cases) (simp_all add: no_connection_def)

lemma track_none: "list_all no_connection es \<Longrightarrow> track h es = Some h"
  by (induction es) (simp_all add: track_event_none)

lemma balanced_emits: "emits no_connection m \<Longrightarrow> stays_in balanced m"
  unfolding stays_in_def extends_def balanced_def by (metis track_none)

text \<open>
  The interface of the deferred close: it returns, whatever the connection, unless the
  connection is nil.
\<close>

definition closes_returns :: "'w api \<Rightarrow> bool" where
  "closes_returns api \<longleftrightarrow> (\<forall>c w. \<exists>w'. o_close (ocm api) (Some c) w = (Ok (), w'))"

text \<open>
  The shape of every use of a connection in the source: open it, stop on an error, and otherwise
  work with a deferred close. It is balanced where the work opens and closes nothing.
\<close>

lemma connection_run:
  "createOCMConnection api s = (r, t) \<Longrightarrow>
    (\<exists>c tok. r = Ok (Some c, None) \<and> trace t = trace s @ [OcmConnect tok (Inr c)]) \<or>
    (\<exists>e es. r = Ok (None, Some e) \<and> trace t = trace s @ es \<and> list_all no_connection es)"
  by (auto simp: createOCMConnection_def bnd_def build_logger_def call_defs call_def gets_def modify_def ret_def
    split: prod.splits option.splits sum.splits)

lemma close_run:
  assumes "closes_returns api" "close_connection api (Some c) t = (q, u)"
  shows "q = Ok ()" "trace u = trace t @ [OcmClose (Some c)]"
proof -
  obtain w' where "o_close (ocm api) (Some c) (world t) = (Ok (), w')"
    using assms(1) unfolding closes_returns_def by blast
  with assms(2) show "q = Ok ()" "trace u = trace t @ [OcmClose (Some c)]"
    by (auto simp: close_connection_def ocall_def)
qed

lemma close_nil_balanced: "stays_in balanced (close_connection api None)"
  by (rule balanced_emits) (simp add: close_connection_def emits_ocall)

definition closing :: "connection \<Rightarrow> ('w gstate, 'a) prog \<Rightarrow> bool" where
  "closing c m \<longleftrightarrow> (\<forall>s. \<exists>es. trace (snd (m s)) = trace s @ es \<and> track (Some c) es = Some None)"

lemma closing_deferred:
  assumes cl: "closes_returns api" and m: "emits no_connection m"
  shows "closing c (deferred (close_connection api (Some c)) m)"
  unfolding closing_def
proof
  fix s
  obtain r t where mt: "m s = (r, t)" by (cases "m s")
  obtain q u where du: "close_connection api (Some c) t = (q, u)" by (cases "close_connection api (Some c) t")
  from m mt obtain es where es: "trace t = trace s @ es" "list_all no_connection es" by (rule emitsD)
  have "trace u = trace s @ es @ [OcmClose (Some c)]" using close_run(2) [OF cl du] es(1) by simp
  moreover have "track (Some c) (es @ [OcmClose (Some c)]) = Some None"
    using track_none [OF es(2)] by (simp add: track_append)
  ultimately show "\<exists>es. trace (snd (deferred (close_connection api (Some c)) m s)) = trace s @ es \<and>
      track (Some c) es = Some None"
    using mt du close_run(1) [OF cl du] by (intro exI [of _ "es @ [OcmClose (Some c)]"]) (simp add: deferred_def)
qed

lemma balanced_with_connection:
  assumes opened: "\<And>c. closing c (k (Some c, None))" and failed: "\<And>e. stays_in balanced (k (None, Some e))"
  shows "stays_in balanced (bnd (createOCMConnection api) k)"
  unfolding stays_in_def
proof
  fix s
  obtain r t where ct: "createOCMConnection api s = (r, t)" by (cases "createOCMConnection api s")
  from connection_run [OF ct] show "balanced s (snd (bnd (createOCMConnection api) k s))"
  proof (elim disjE exE conjE)
    fix c tok
    assume r: "r = Ok (Some c, None)" and t: "trace t = trace s @ [OcmConnect tok (Inr c)]"
    obtain es where "trace (snd (k (Some c, None) t)) = trace t @ es" "track (Some c) es = Some None"
      using opened unfolding closing_def by blast
    with r t ct show ?thesis
      unfolding balanced_def by (intro exI [of _ "OcmConnect tok (Inr c) # es"]) (simp add: bnd_def)
  next
    fix e es
    assume r: "r = Ok (None, Some e)" and t: "trace t = trace s @ es" "list_all no_connection es"
    then have "balanced s t" unfolding balanced_def using track_none by blast
    moreover have "balanced t (snd (k (None, Some e) t))"
      using failed by (simp add: stays_in_def)
    ultimately have "balanced s (snd (k (None, Some e) t))" by (rule balanced.order_trans)
    with r ct show ?thesis by (simp add: bnd_def)
  qed
qed

text \<open>The calls between opening and closing are balanced, each for itself.\<close>

lemma balanced_calls:
  "stays_in balanced (get_clusterversion api k)" "stays_in balanced (search_clusters api c q)"
  "stays_in balanced (get_cluster api c cl)"
  "stays_in balanced (list_machinepools api c cl)" "stays_in balanced (add_machinepool api c cl mp)"
  "stays_in balanced (delete_machinepool api c cl i)"
  "stays_in balanced (list_nodepools api c cl)" "stays_in balanced (add_nodepool api c cl np)"
  "stays_in balanced (delete_nodepool api c cl i)"
  "stays_in balanced (get_appwrapper api k)" "stays_in balanced (update_appwrapper api aw)"
  by (rule balanced_emits; intro emits_intros; simp add: no_connection_def)+

lemma balanced_local:
  "stays_in balanced (generateMachineName name)" "stays_in balanced (range_order xs)"
  "(\<And>s. trace (f s) = trace s) \<Longrightarrow> stays_in balanced (modify f)"
  by (rule balanced_emits; intro emits_intros; simp)+

lemmas balanced_rules = balanced_calls balanced_local closing_deferred close_nil_balanced
  balanced.stays_ret balanced.stays_gets balanced.stays_do_each balanced.stays_bnd
  balanced.stays_deferred balanced.stays_option balanced.stays_sum balanced.stays_pair
  balanced.stays_let balanced.stays_if balanced.stays_for_each balanced.stays_after_loop

lemma balanced_checkHypershiftEnabled:
  "closes_returns api \<Longrightarrow> stays_in balanced (checkHypershiftEnabled api)"
  unfolding checkHypershiftEnabled_def
  by (rule balanced_with_connection) (auto intro!: closing_deferred emits_intros balanced.stays_ret simp: no_connection_def)

lemma balanced_getOCMClusterID:
  "closes_returns api \<Longrightarrow> stays_in balanced (getOCMClusterID api)"
  unfolding getOCMClusterID_def
  by (intro balanced.stays_bnd balanced_calls balanced.stays_pair balanced.stays_option
      balanced.stays_ret balanced_with_connection)
    (auto intro!: closing_deferred emits_intros balanced_rules simp: no_connection_def)

end
