(* ===== verification/PoolService.thy ===== *)
theory PoolService
  imports OcmManager
begin

text \<open>
  Machine pools and node pools are two services of OCM with one contract, and the source drives both
  with the same two functions, once per pool type. The locale \<open>pool_service\<close> states the contract
  (each call is recorded with its answer and leaves the reconciler's settings alone) and the shape
  of the two clients \<open>scale\<close> and \<open>remove\<close>; its lemmas say exactly which calls a scale-out and a
  removal make. The theories MachinePools and NodePools interpret it on their own definitions.
\<close>

definition pool_label :: "appwrapper \<Rightarrow> dict" where
  "pool_label aw = Some [(aw_id aw, aw_id aw)]"

text \<open>
  One round of a scale-out: the instance type, the pools the service listed, and the pool that was
  added, if one was, with the service's answer.
\<close>

type_synonym 'p round = "string \<times> 'p list \<times> ('p option \<times> go_error option) option"

text \<open>
  The events of one round, and what is right for a round: a pool is added exactly when the count
  differs from the demand, and it is built with the type, the demanded replicas, the AppWrapper's
  label and a generated name.
\<close>

definition round_events :: "(string \<Rightarrow> 'p list answer \<Rightarrow> event) \<Rightarrow>
    (string \<Rightarrow> 'p option \<Rightarrow> go_error option \<Rightarrow> event) \<Rightarrow> string \<Rightarrow> 'p round \<Rightarrow> event list" where
  "round_events list_ev add_ev cl r = (case r of (t, items, added) \<Rightarrow>
     list_ev cl (items, None) # (case added of None \<Rightarrow> [] | Some (p, err) \<Rightarrow> [add_ev cl p err]))"

definition round_ok :: "('p list \<Rightarrow> string \<Rightarrow> appwrapper \<Rightarrow> int) \<Rightarrow>
    (string \<Rightarrow> string \<Rightarrow> int \<Rightarrow> dict \<Rightarrow> 'p option \<times> go_error option) \<Rightarrow>
    int \<Rightarrow> appwrapper \<Rightarrow> demand \<Rightarrow> 'p round \<Rightarrow> bool" where
  "round_ok replicas_in build limit aw demand r = (case r of (t, items, added) \<Rightarrow>
     (case added of
       None \<Rightarrow> replicas_in items t aw = demand_at demand t
     | Some (p, err) \<Rightarrow> replicas_in items t aw \<noteq> demand_at demand t \<and>
         (\<exists>n < 2 ^ 16. p = fst (build (machine_name limit (aw_name aw) n) t (demand_at demand t) (pool_label aw)))))"

text \<open>\<open>createOCMConnection\<close> either opens one connection or fails, and keeps what the clients read.\<close>

lemma createOCMConnection_Ok:
  assumes "createOCMConnection api s = (Ok r, t)"
  obtains (opened) c where "r = (Some c, None)" "trace t = trace s @ [OcmConnect (ocmToken s) (Inr c)]"
      "ocmClusterID t = ocmClusterID s" "machineNameCharacterLimit t = machineNameCharacterLimit s"
    | (failed) e where "r = (None, Some e)"
  using assms
  by (auto simp: createOCMConnection_def bnd_Ok build_logger_def call_defs call_def
    split: prod.splits option.splits sum.splits)

lemma close_connection_Ok:
  "close_connection api c s = (Ok x, t) \<Longrightarrow> trace t = trace s @ [OcmClose c]"
  by (auto simp: close_connection_def ocall_def split: prod.splits outcome.splits)

lemma emits_nothing:
  assumes "emits (\<lambda>_. False) m" "m s = (r, t)"
  shows "trace t = trace s"
proof -
  from assms obtain es where "trace t = trace s @ es" "list_all (\<lambda>_. False) es" by (rule emitsD)
  then show ?thesis by (cases es) simp_all
qed

locale pool_service =
  fixes api :: "'w api"
    and replicas_in :: "'p list \<Rightarrow> string \<Rightarrow> appwrapper \<Rightarrow> int"
    and labels_of :: "'p \<Rightarrow> dict"
    and id_of :: "'p \<Rightarrow> string"
    and build :: "string \<Rightarrow> string \<Rightarrow> int \<Rightarrow> dict \<Rightarrow> 'p option \<times> go_error option"
    and list_pools :: "connection option \<Rightarrow> string \<Rightarrow> ('w gstate, 'p list answer) prog"
    and add_pool :: "connection option \<Rightarrow> string \<Rightarrow> 'p option \<Rightarrow> ('w gstate, go_error option) prog"
    and delete_pool :: "connection option \<Rightarrow> string \<Rightarrow> string \<Rightarrow> ('w gstate, go_error option) prog"
    and list_ev :: "string \<Rightarrow> 'p list answer \<Rightarrow> event"
    and add_ev :: "string \<Rightarrow> 'p option \<Rightarrow> go_error option \<Rightarrow> event"
    and delete_ev :: "string \<Rightarrow> string \<Rightarrow> go_error option \<Rightarrow> event"
    and scale_type :: "connection option \<Rightarrow> appwrapper \<Rightarrow> demand \<Rightarrow> string \<Rightarrow> ('w gstate, (unit, reconcile_ret) ctl) prog"
    and scale :: "appwrapper \<Rightarrow> demand \<Rightarrow> ('w gstate, reconcile_ret) prog"
    and remove :: "appwrapper \<Rightarrow> ('w gstate, reconcile_ret) prog"
  assumes list_law: "list_pools c cl s = (Ok ans, t) \<Longrightarrow>
      trace t = trace s @ [list_ev cl ans] \<and> settings t = settings s"
    and add_law: "add_pool c cl p s = (Ok err, t) \<Longrightarrow>
      trace t = trace s @ [add_ev cl p err] \<and> settings t = settings s"
    and delete_law: "delete_pool c cl i s = (Ok err, t) \<Longrightarrow>
      trace t = trace s @ [delete_ev cl i err] \<and> settings t = settings s"
    and scale_type_shape: "scale_type c aw demand ty =
      bnd (gets ocmClusterID) (\<lambda>cl.
      bnd (list_pools c cl) (\<lambda>(items, err). case err of
        Some e \<Rightarrow> ret (Return (no_requeue, Some e))
      | None \<Rightarrow>
          if replicas_in items ty aw \<noteq> demand_at demand ty then
            bnd (generateMachineName (aw_name aw)) (\<lambda>i.
            bnd (add_pool c cl (fst (build i ty (demand_at demand ty) (pool_label aw)))) (\<lambda>_.
            ret (Next ())))
          else ret (Next ())))"
    and scale_shape: "scale aw demand =
      bnd (createOCMConnection api) (\<lambda>(connection, err). case err of
        Some e \<Rightarrow> ret (no_requeue, Some e)
      | None \<Rightarrow> deferred (close_connection api connection) (
          bnd (range_order (map fst demand)) (\<lambda>types.
          after_loop (for_each types (\<lambda>t _. scale_type connection aw demand t) ())
            (\<lambda>_. ret (no_requeue, None)))))"
    and remove_shape: "remove aw =
      bnd (createOCMConnection api) (\<lambda>(connection, err). case err of
        Some e \<Rightarrow> ret (no_requeue, Some e)
      | None \<Rightarrow> deferred (close_connection api connection) (
          bnd (gets ocmClusterID) (\<lambda>cl.
          bnd (list_pools connection cl) (\<lambda>(items, err).
          bnd (do_each items (\<lambda>item.
            if hasAwLabel (labels_of item) aw
            then bnd (delete_pool connection cl (id_of item)) (\<lambda>_. ret ()) else ret ())) (\<lambda>_.
          ret (no_requeue, None))))))"
begin

lemma settings_fields:
  "settings t = settings s \<Longrightarrow> ocmClusterID t = ocmClusterID s"
  "settings t = settings s \<Longrightarrow> machineNameCharacterLimit t = machineNameCharacterLimit s"
  by (simp_all add: settings_def)

lemma generate_Ok:
  assumes "generateMachineName name s = (Ok i, t)"
  shows "trace t = trace s" "settings t = settings s"
    "\<exists>n < 2 ^ 16. i = machine_name (machineNameCharacterLimit s) name n"
proof -
  show "\<exists>n < 2 ^ 16. i = machine_name (machineNameCharacterLimit s) name n"
    by (rule generateMachineName_Ok) fact
  show "trace t = trace s"
    using emits_generateMachineName assms by (rule emits_nothing)
  show "settings t = settings s"
    using assms keepsD keeps_generateMachineName outside_fields(1) by metis
qed

lemma scale_type_Next:
  assumes "scale_type c aw demand t s = (Ok (Next x), u)"
  shows "\<exists>items added. trace u = trace s @ round_events list_ev add_ev (ocmClusterID s) (t, items, added) \<and>
    round_ok replicas_in build (machineNameCharacterLimit s) aw demand (t, items, added) \<and> settings u = settings s"
proof -
  let ?cl = "ocmClusterID s"
  obtain items s1 where l: "list_pools c ?cl s = (Ok (items, None), s1)" and
    rest: "(if replicas_in items t aw \<noteq> demand_at demand t then
            bnd (generateMachineName (aw_name aw)) (\<lambda>i.
            bnd (add_pool c ?cl (fst (build i t (demand_at demand t) (pool_label aw)))) (\<lambda>_.
            ret (Next ())))
          else ret (Next ())) s1 = (Ok (Next x :: (unit, reconcile_ret) ctl), u)"
    using assms by (auto simp: scale_type_shape bnd_Ok split: option.splits)
  have s1: "trace s1 = trace s @ [list_ev ?cl (items, None)]" "settings s1 = settings s"
    using list_law [OF l] by auto
  show ?thesis
  proof (cases "replicas_in items t aw = demand_at demand t")
    case True
    with rest s1 show ?thesis
      by (intro exI [of _ items] exI [of _ None]) (simp add: round_events_def round_ok_def)
  next
    case False
    with rest obtain i s2 err where g: "generateMachineName (aw_name aw) s1 = (Ok i, s2)" and
      a: "add_pool c ?cl (fst (build i t (demand_at demand t) (pool_label aw))) s2 = (Ok err, u)"
      by (auto simp: bnd_Ok)
    show ?thesis
      using False s1 generate_Ok [OF g] add_law [OF a] settings_fields(2) [OF s1(2)]
      by (intro exI [of _ items] exI [of _ "Some (fst (build i t (demand_at demand t) (pool_label aw)), err)"])
        (auto simp: round_events_def round_ok_def)
  qed
qed

lemma scale_type_no_Break: "scale_type c aw demand t s \<noteq> (Ok (Break x), u)"
  by (auto simp: scale_type_shape bnd_Ok split: option.splits if_splits)

lemma scale_type_Return: "scale_type c aw demand t s = (Ok (Return r), u) \<Longrightarrow> snd r \<noteq> None"
  by (auto simp: scale_type_shape bnd_Ok split: option.splits if_splits)

lemma scale_loop:
  assumes "for_each types (\<lambda>t _. scale_type c aw demand t) () s = (Ok (Inl l), u)"
  shows "\<exists>rounds. map fst rounds = types \<and> settings u = settings s \<and>
    trace u = trace s @ concat (map (round_events list_ev add_ev (ocmClusterID s)) rounds) \<and>
    list_all (round_ok replicas_in build (machineNameCharacterLimit s) aw demand) rounds"
  using assms
proof (induction types arbitrary: s)
  case Nil
  then show ?case by simp
next
  case (Cons t types)
  from Cons.prems show ?case
  proof (cases rule: for_each_ConsE)
    case (continued l' s1)
    from scale_type_Next [OF continued(1)] obtain items added where
      s1: "trace s1 = trace s @ round_events list_ev add_ev (ocmClusterID s) (t, items, added)"
        "round_ok replicas_in build (machineNameCharacterLimit s) aw demand (t, items, added)" "settings s1 = settings s"
      by blast
    from continued(2) have "for_each types (\<lambda>t _. scale_type c aw demand t) () s1 = (Ok (Inl l), u)"
      by simp
    from Cons.IH [OF this] s1 settings_fields [OF s1(3)] obtain rounds where
      "map fst rounds = types" "settings u = settings s"
      "trace u = trace s @ round_events list_ev add_ev (ocmClusterID s) (t, items, added) @
        concat (map (round_events list_ev add_ev (ocmClusterID s)) rounds)"
      "list_all (round_ok replicas_in build (machineNameCharacterLimit s) aw demand) rounds"
      by auto
    with s1(2) show ?thesis by (intro exI [of _ "(t, items, added) # rounds"]) simp
  next
    case (broken l')
    then show ?thesis by (simp add: scale_type_no_Break)
  next
    case (returned r)
    then show ?thesis by simp
  qed
qed

lemma range_order_Ok:
  assumes "range_order xs s = (Ok ys, t)"
  shows "mset ys = mset xs" "trace t = trace s" "settings t = settings s"
  using assms by (auto simp: range_order_def bnd_Ok draws_def settings_def)

text \<open>A scale-out that returns without an error.\<close>

lemma scale_rounds:
  assumes "scale aw demand s = (Ok (res, None), u)"
  shows "\<exists>c rounds. res = no_requeue \<and> mset (map fst rounds) = mset (map fst demand) \<and>
    list_all (round_ok replicas_in build (machineNameCharacterLimit s) aw demand) rounds \<and>
    trace u = trace s @ OcmConnect (ocmToken s) (Inr c) #
      concat (map (round_events list_ev add_ev (ocmClusterID s)) rounds) @ [OcmClose (Some c)]"
proof -
  from assms obtain r s1 where create: "createOCMConnection api s = (Ok r, s1)" and
    rest: "(case r of (connection, err) \<Rightarrow> case err of
        Some e \<Rightarrow> ret (no_requeue, Some e)
      | None \<Rightarrow> deferred (close_connection api connection) (
          bnd (range_order (map fst demand)) (\<lambda>types.
          after_loop (for_each types (\<lambda>t _. scale_type connection aw demand t) ())
            (\<lambda>_. ret (no_requeue, None))))) s1 = (Ok (res, None), u)"
    by (auto simp: scale_shape bnd_Ok)
  from create show ?thesis
  proof (cases rule: createOCMConnection_Ok)
    case (opened c)
    with rest obtain s4 where
      body: "bnd (range_order (map fst demand)) (\<lambda>types.
          after_loop (for_each types (\<lambda>t _. scale_type (Some c) aw demand t) ())
            (\<lambda>_. ret (no_requeue, None))) s1 = (Ok (res, None), s4)" and
      cl: "close_connection api (Some c) s4 = (Ok (), u)"
      by (auto elim: deferred_OkE)
    from body obtain types s2 where order: "range_order (map fst demand) s1 = (Ok types, s2)" and
      loop: "after_loop (for_each types (\<lambda>t _. scale_type (Some c) aw demand t) ())
            (\<lambda>_. ret (no_requeue, None)) s2 = (Ok (res, None), s4)"
      by (auto simp: bnd_Ok)
    from loop show ?thesis
    proof (cases rule: after_loop_OkE)
      case (finished l s3)
      from scale_loop [OF finished(1)] obtain rounds where
        "map fst rounds = types" "trace s3 = trace s2 @ concat (map (round_events list_ev add_ev (ocmClusterID s2)) rounds)"
        "list_all (round_ok replicas_in build (machineNameCharacterLimit s2) aw demand) rounds"
        by auto
      with finished(2) range_order_Ok [OF order] settings_fields [OF range_order_Ok(3) [OF order]]
        opened close_connection_Ok [OF cl]
      show ?thesis by (intro exI [of _ c] exI [of _ rounds]) auto
    next
      case returned
      then have "for_each types (\<lambda>t _. scale_type (Some c) aw demand t) () s2 = (Ok (Inr (res, None)), s4)" .
      then have False
      proof (induction types arbitrary: s2)
        case (Cons t types)
        from Cons.prems show ?case
          by (cases rule: for_each_ConsE)
            (auto dest: scale_type_Return Cons.IH)
      qed simp
      then show ?thesis ..
    qed
  next
    case (failed e)
    with rest show ?thesis by simp
  qed
qed

text \<open>A removal that returns without an error deletes exactly the listed pools with the label.\<close>

lemma remove_loop:
  assumes "do_each items (\<lambda>item. if hasAwLabel (labels_of item) aw
      then bnd (delete_pool c cl (id_of item)) (\<lambda>_. ret ()) else ret ()) s = (Ok x, u)"
  shows "\<exists>errs. length errs = length (filter (\<lambda>p. hasAwLabel (labels_of p) aw) items) \<and>
    trace u = trace s @ map2 (delete_ev cl) (map id_of (filter (\<lambda>p. hasAwLabel (labels_of p) aw) items)) errs"
  using assms
proof (induction items arbitrary: s)
  case Nil
  then show ?case by simp
next
  case (Cons item items)
  show ?case
  proof (cases "hasAwLabel (labels_of item) aw")
    case True
    with Cons.prems obtain err s1 where
      d: "delete_pool c cl (id_of item) s = (Ok err, s1)" and
      rest: "do_each items (\<lambda>item. if hasAwLabel (labels_of item) aw
        then bnd (delete_pool c cl (id_of item)) (\<lambda>_. ret ()) else ret ()) s1 = (Ok x, u)"
      by (auto simp: bnd_Ok)
    from Cons.IH [OF rest] obtain errs where
      "length errs = length (filter (\<lambda>p. hasAwLabel (labels_of p) aw) items)"
      "trace u = trace s1 @ map2 (delete_ev cl) (map id_of (filter (\<lambda>p. hasAwLabel (labels_of p) aw) items)) errs"
      by blast
    with True delete_law [OF d] show ?thesis by (intro exI [of _ "err # errs"]) simp
  next
    case False
    with Cons show ?thesis by (simp add: bnd_Ok)
  qed
qed

lemma remove_trace:
  assumes "remove aw s = (Ok (res, None), u)"
  shows "\<exists>c items err errs. res = no_requeue \<and>
    length errs = length (filter (\<lambda>p. hasAwLabel (labels_of p) aw) items) \<and>
    trace u = trace s @ [OcmConnect (ocmToken s) (Inr c), list_ev (ocmClusterID s) (items, err)] @
      map2 (delete_ev (ocmClusterID s)) (map id_of (filter (\<lambda>p. hasAwLabel (labels_of p) aw) items)) errs @
      [OcmClose (Some c)]"
proof -
  from assms obtain r s1 where create: "createOCMConnection api s = (Ok r, s1)" and
    rest: "(case r of (connection, err) \<Rightarrow> case err of
        Some e \<Rightarrow> ret (no_requeue, Some e)
      | None \<Rightarrow> deferred (close_connection api connection) (
          bnd (gets ocmClusterID) (\<lambda>cl.
          bnd (list_pools connection cl) (\<lambda>(items, err).
          bnd (do_each items (\<lambda>item.
            if hasAwLabel (labels_of item) aw
            then bnd (delete_pool connection cl (id_of item)) (\<lambda>_. ret ()) else ret ())) (\<lambda>_.
          ret (no_requeue, None)))))) s1 = (Ok (res, None), u)"
    by (auto simp: remove_shape bnd_Ok)
  from create show ?thesis
  proof (cases rule: createOCMConnection_Ok)
    case (opened c)
    with rest obtain items err s2 s3 where
      l: "list_pools (Some c) (ocmClusterID s) s1 = (Ok (items, err), s2)" and
      loop: "do_each items (\<lambda>item. if hasAwLabel (labels_of item) aw
          then bnd (delete_pool (Some c) (ocmClusterID s) (id_of item)) (\<lambda>_. ret ()) else ret ()) s2
        = (Ok (), s3)" and
      res: "res = no_requeue" and
      cl: "close_connection api (Some c) s3 = (Ok (), u)"
      by (auto simp: bnd_Ok elim!: deferred_OkE)
    from remove_loop [OF loop] list_law [OF l] opened close_connection_Ok [OF cl] res show ?thesis
      by (intro exI [of _ c] exI [of _ items] exI [of _ err]) auto
  next
    case (failed e)
    with rest show ?thesis by simp
  qed
qed

end

end
