(* ===== verification/MachinePools.thy ===== *)
theory MachinePools
  imports PoolService Scenarios
begin

text \<open>
  \<open>controllers/machinepools.go\<close>: the scale-out of an AppWrapper through OCM machine pools, and the removal of its
  machine pools when it ends. The definitions follow the source; the interpretation of \<open>pool_service\<close>
  gives the calls each of the two makes.
\<close>

text \<open>
  The closure of \<open>Each\<close>: the replicas of the first pool of the instance type that has the label,
  or what \<open>numberOfMachines\<close> was.
\<close>

fun machinepool_count :: "machinepool list \<Rightarrow> string \<Rightarrow> appwrapper \<Rightarrow> int \<Rightarrow> int" where
  "machinepool_count [] userRequestedInstanceType aw numberOfMachines = numberOfMachines"
| "machinepool_count (p # ps) userRequestedInstanceType aw numberOfMachines =
     (if mp_instanceType p = userRequestedInstanceType \<and> hasAwLabel (mp_labels p) aw
      then mp_replicas p
      else machinepool_count ps userRequestedInstanceType aw numberOfMachines)"

definition scaleMachinePool_type :: "'w api \<Rightarrow> connection option \<Rightarrow> appwrapper \<Rightarrow> demand \<Rightarrow> string \<Rightarrow>
    ('w gstate, (unit, reconcile_ret) ctl) prog" where
  "scaleMachinePool_type api connection aw demand userRequestedInstanceType =
     (let replicas = demand_at demand userRequestedInstanceType in
     bnd (gets ocmClusterID) (\<lambda>cl.
     bnd (list_machinepools api connection cl) (\<lambda>(items, err). case err of
       Some e \<Rightarrow> ret (Return (no_requeue, Some e))
     | None \<Rightarrow>
         if machinepool_count items userRequestedInstanceType aw 0 \<noteq> replicas then
           bnd (generateMachineName (aw_name aw)) (\<lambda>i.
           let m = pool_label aw; (pool, err) = build_machinepool (lib api) i userRequestedInstanceType replicas m in
           bnd (add_machinepool api connection cl pool) (\<lambda>err.
           ret (Next ())))
         else ret (Next ()))))"

definition scaleMachinePool :: "'w api \<Rightarrow> appwrapper \<Rightarrow> demand \<Rightarrow> ('w gstate, reconcile_ret) prog" where
  "scaleMachinePool api aw demandPerInstanceType =
     bnd (createOCMConnection api) (\<lambda>(connection, err). case err of
       Some e \<Rightarrow> ret (no_requeue, Some e)
     | None \<Rightarrow> deferred (close_connection api connection) (
         bnd (range_order (map fst demandPerInstanceType)) (\<lambda>types.
         after_loop (for_each types (\<lambda>t _. scaleMachinePool_type api connection aw demandPerInstanceType t) ())
           (\<lambda>_. ret (no_requeue, None)))))"

text \<open>The errors of the list call and of the delete calls are logged only.\<close>

definition deleteMachinePool :: "'w api \<Rightarrow> appwrapper \<Rightarrow> ('w gstate, reconcile_ret) prog" where
  "deleteMachinePool api aw =
     bnd (createOCMConnection api) (\<lambda>(connection, err). case err of
       Some e \<Rightarrow> ret (no_requeue, Some e)
     | None \<Rightarrow> deferred (close_connection api connection) (
         bnd (gets ocmClusterID) (\<lambda>cl.
         bnd (list_machinepools api connection cl) (\<lambda>(items, err).
         bnd (do_each items (\<lambda>item.
           if hasAwLabel (mp_labels item) aw
           then bnd (delete_machinepool api connection cl (mp_id item)) (\<lambda>_. ret ()) else ret ())) (\<lambda>_.
         ret (no_requeue, None))))))"

subsection \<open>The contract\<close>

lemma list_machinepools_Ok:
  "list_machinepools api c cl s = (Ok ans, t) \<Longrightarrow>
    trace t = trace s @ [OcmListMachinePools cl ans] \<and> settings t = settings s"
  by (auto simp: call_defs ocall_def settings_def split: prod.splits outcome.splits)

lemma add_machinepool_Ok:
  "add_machinepool api c cl p s = (Ok err, t) \<Longrightarrow>
    trace t = trace s @ [OcmAddMachinePool cl p err] \<and> settings t = settings s"
  by (auto simp: call_defs ocall_def settings_def split: prod.splits outcome.splits)

lemma delete_machinepool_Ok:
  "delete_machinepool api c cl i s = (Ok err, t) \<Longrightarrow>
    trace t = trace s @ [OcmDeleteMachinePool cl i err] \<and> settings t = settings s"
  by (auto simp: call_defs ocall_def settings_def split: prod.splits outcome.splits)

lemma scaleMachinePool_type_shape:
  "scaleMachinePool_type api c aw demand ty =
    bnd (gets ocmClusterID) (\<lambda>cl.
    bnd (list_machinepools api c cl) (\<lambda>(items, err). case err of
      Some e \<Rightarrow> ret (Return (no_requeue, Some e))
    | None \<Rightarrow>
        if machinepool_count items ty aw 0 \<noteq> demand_at demand ty then
          bnd (generateMachineName (aw_name aw)) (\<lambda>i.
          bnd (add_machinepool api c cl (fst (build_machinepool (lib api) i ty (demand_at demand ty) (pool_label aw)))) (\<lambda>_.
          ret (Next ())))
        else ret (Next ())))"
  unfolding scaleMachinePool_type_def Let_def split_beta by (rule refl)

interpretation mps: pool_service api "\<lambda>items t aw. machinepool_count items t aw 0" mp_labels mp_id
  "build_machinepool (lib api)" "list_machinepools api" "add_machinepool api" "delete_machinepool api"
  OcmListMachinePools OcmAddMachinePool OcmDeleteMachinePool "scaleMachinePool_type api" "scaleMachinePool api" "deleteMachinePool api"
  for api :: "'w api"
  by unfold_locales
    (auto simp: list_machinepools_Ok add_machinepool_Ok delete_machinepool_Ok scaleMachinePool_type_shape
      scaleMachinePool_def deleteMachinePool_def)

lemma balanced_scaleMachinePool:
  "closes_returns api \<Longrightarrow> stays_in balanced (scaleMachinePool api aw demand)"
  unfolding scaleMachinePool_def scaleMachinePool_type_def Let_def
  by (rule balanced_with_connection)
    (auto intro!: closing_deferred emits_intros balanced.stays_ret simp: no_connection_def)

lemma balanced_deleteMachinePool:
  "closes_returns api \<Longrightarrow> stays_in balanced (deleteMachinePool api aw)"
  unfolding deleteMachinePool_def
  by (rule balanced_with_connection)
    (auto intro!: closing_deferred emits_intros balanced.stays_ret simp: no_connection_def)

lemma keeps_scaleMachinePool [frame_intros]:
  "outside f \<Longrightarrow> (\<And>s c. f (s\<lparr>ocmConnection := c\<rparr>) = f s) \<Longrightarrow> stays_in (same f) (scaleMachinePool api aw demand)"
  unfolding scaleMachinePool_def scaleMachinePool_type_def Let_def by (intro frame_intros) auto

lemma keeps_deleteMachinePool [frame_intros]:
  "outside f \<Longrightarrow> (\<And>s c. f (s\<lparr>ocmConnection := c\<rparr>) = f s) \<Longrightarrow> stays_in (same f) (deleteMachinePool api aw)"
  unfolding deleteMachinePool_def by (intro frame_intros) auto

subsection \<open>Properties\<close>

text \<open>
  C5 (scaleMachinePool_rounds): a scale-out through machine pools that returns without an error opens one OCM
  connection, visits each demanded instance type once, in some order, and closes the connection. For
  each type it lists the pools, and it adds one pool exactly when the AppWrapper's pool of that type
  has not the demanded replicas: a pool of the type, the demanded replicas and the AppWrapper's label,
  with a generated name.
\<close>

theorem scaleMachinePool_rounds:
  assumes "scaleMachinePool api aw demand s = (Ok (res, None), u)"
  shows "\<exists>c rounds. res = no_requeue \<and> mset (map fst rounds) = mset (map fst demand) \<and>
    list_all (round_ok (\<lambda>items t aw. machinepool_count items t aw 0) (build_machinepool (lib api))
      (machineNameCharacterLimit s) aw demand) rounds \<and>
    trace u = trace s @ OcmConnect (ocmToken s) (Inr c) #
      concat (map (round_events OcmListMachinePools OcmAddMachinePool (ocmClusterID s)) rounds) @ [OcmClose (Some c)]"
  using assms by (rule mps.scale_rounds)

theorem scaleMachinePool_rounds_witness:
  "\<exists>c rounds. mset (map fst rounds) = {#''m5'', ''g4''#} \<and>
    trace (snd (scaleMachinePool ref_api job [(''m5'', 2), (''g4'', 1)] (ready ocm_config MachineTypeMachinePool empty_cluster))) =
      OcmConnect ''token'' (Inr c) # concat (map (round_events OcmListMachinePools OcmAddMachinePool ''int'') rounds) @
      [OcmClose (Some c)]"
proof -
  let ?s = "ready ocm_config MachineTypeMachinePool empty_cluster"
  have "fst (scaleMachinePool ref_api job [(''m5'', 2), (''g4'', 1)] ?s) = Ok (no_requeue, None)" by code_simp
  from scaleMachinePool_rounds [OF run_eq [OF this]] show ?thesis
    unfolding ready_fields append_Nil by (auto simp: add_mset_commute)
qed

text \<open>
  C18 (deleteMachinePool_deletes_own): the removal at the end of an AppWrapper, where it returns without an
  error, opens one connection, lists the pools of the cluster, deletes the ones that have the
  AppWrapper's label, each once and in their order, and no other, and closes the connection. A
  failed delete does not stop it, and is not reported.
\<close>

theorem deleteMachinePool_deletes_own:
  assumes "deleteMachinePool api aw s = (Ok (res, None), u)"
  shows "\<exists>c items err errs. res = no_requeue \<and>
    length errs = length (filter (\<lambda>p. hasAwLabel (mp_labels p) aw) items) \<and>
    trace u = trace s @ [OcmConnect (ocmToken s) (Inr c), OcmListMachinePools (ocmClusterID s) (items, err)] @
      map2 (OcmDeleteMachinePool (ocmClusterID s)) (map mp_id (filter (\<lambda>p. hasAwLabel (mp_labels p) aw) items)) errs @
      [OcmClose (Some c)]"
  using assms by (rule mps.remove_trace)

definition machinepool_of :: "string \<Rightarrow> dict \<Rightarrow> int \<Rightarrow> machinepool" where
  "machinepool_of i d n = \<lparr>mp_id = i, mp_instanceType = ''m5'', mp_labels = d, mp_replicas = n\<rparr>"

definition machinepools_on :: "machinepool list \<Rightarrow> cluster" where
  "machinepools_on ps = empty_cluster\<lparr>c_machinepools := ps\<rparr>"

theorem deleteMachinePool_deletes_own_witness:
  "\<exists>c items err errs. trace (snd (deleteMachinePool ref_api job (ready ocm_config MachineTypeMachinePool
      (machinepools_on [machinepool_of ''p1'' (pool_label job) 2, machinepool_of ''p2'' None 2])))) =
    [OcmConnect ''token'' (Inr c), OcmListMachinePools ''int'' (items, err)] @
      map2 (OcmDeleteMachinePool ''int'') (map mp_id (filter (\<lambda>p. hasAwLabel (mp_labels p) job) items)) errs @
      [OcmClose (Some c)]"
proof -
  let ?s = "ready ocm_config MachineTypeMachinePool
    (machinepools_on [machinepool_of ''p1'' (pool_label job) 2, machinepool_of ''p2'' None 2])"
  have "fst (deleteMachinePool ref_api job ?s) = Ok (no_requeue, None)" by code_simp
  from deleteMachinePool_deletes_own [OF run_eq [OF this]] show ?thesis
    unfolding ready_fields append_Nil by blast
qed

lemma machinepool_count_first:
  assumes "find (\<lambda>p. mp_instanceType p = t \<and> hasAwLabel (mp_labels p) aw) ps = Some p"
  shows "machinepool_count (ps @ qs) t aw n = mp_replicas p"
  using assms by (induction ps) (auto split: if_splits)



end
