(* ===== verification/NodePools.thy ===== *)
theory NodePools
  imports PoolService Scenarios
begin

text \<open>
  \<open>controllers/nodepools.go\<close>: the scale-out of an AppWrapper through OCM node pools, and the removal of its
  node pools when it ends. The definitions follow the source; the interpretation of \<open>pool_service\<close>
  gives the calls each of the two makes.
\<close>

text \<open>\<open>AWSNodePool().InstanceType()\<close>: the accessor of a nil pool gives the empty string.\<close>

definition np_instanceType :: "nodepool \<Rightarrow> string" where
  "np_instanceType p = (case np_awsInstanceType p of None \<Rightarrow> [] | Some t \<Rightarrow> t)"

text \<open>
  The closure of \<open>Each\<close>: the replicas of the first pool of the instance type that has the label,
  or what \<open>numberOfMachines\<close> was.
\<close>

fun nodepool_count :: "nodepool list \<Rightarrow> string \<Rightarrow> appwrapper \<Rightarrow> int \<Rightarrow> int" where
  "nodepool_count [] userRequestedInstanceType aw numberOfMachines = numberOfMachines"
| "nodepool_count (p # ps) userRequestedInstanceType aw numberOfMachines =
     (if np_instanceType p = userRequestedInstanceType \<and> hasAwLabel (np_labels p) aw
      then np_replicas p
      else nodepool_count ps userRequestedInstanceType aw numberOfMachines)"

definition scaleNodePool_type :: "'w api \<Rightarrow> connection option \<Rightarrow> appwrapper \<Rightarrow> demand \<Rightarrow> string \<Rightarrow>
    ('w gstate, (unit, reconcile_ret) ctl) prog" where
  "scaleNodePool_type api connection aw demand userRequestedInstanceType =
     (let replicas = demand_at demand userRequestedInstanceType in
     bnd (gets ocmClusterID) (\<lambda>cl.
     bnd (list_nodepools api connection cl) (\<lambda>(items, err). case err of
       Some e \<Rightarrow> ret (Return (no_requeue, Some e))
     | None \<Rightarrow>
         if nodepool_count items userRequestedInstanceType aw 0 \<noteq> replicas then
           bnd (generateMachineName (aw_name aw)) (\<lambda>i.
           let m = pool_label aw; (pool, err) = build_nodepool (lib api) i userRequestedInstanceType replicas m in
           bnd (add_nodepool api connection cl pool) (\<lambda>err.
           ret (Next ())))
         else ret (Next ()))))"

definition scaleNodePool :: "'w api \<Rightarrow> appwrapper \<Rightarrow> demand \<Rightarrow> ('w gstate, reconcile_ret) prog" where
  "scaleNodePool api aw demandPerInstanceType =
     bnd (createOCMConnection api) (\<lambda>(connection, err). case err of
       Some e \<Rightarrow> ret (no_requeue, Some e)
     | None \<Rightarrow> deferred (close_connection api connection) (
         bnd (range_order (map fst demandPerInstanceType)) (\<lambda>types.
         after_loop (for_each types (\<lambda>t _. scaleNodePool_type api connection aw demandPerInstanceType t) ())
           (\<lambda>_. ret (no_requeue, None)))))"

text \<open>The errors of the list call and of the delete calls are logged only.\<close>

definition deleteNodePool :: "'w api \<Rightarrow> appwrapper \<Rightarrow> ('w gstate, reconcile_ret) prog" where
  "deleteNodePool api aw =
     bnd (createOCMConnection api) (\<lambda>(connection, err). case err of
       Some e \<Rightarrow> ret (no_requeue, Some e)
     | None \<Rightarrow> deferred (close_connection api connection) (
         bnd (gets ocmClusterID) (\<lambda>cl.
         bnd (list_nodepools api connection cl) (\<lambda>(items, err).
         bnd (do_each items (\<lambda>item.
           if hasAwLabel (np_labels item) aw
           then bnd (delete_nodepool api connection cl (np_id item)) (\<lambda>_. ret ()) else ret ())) (\<lambda>_.
         ret (no_requeue, None))))))"

subsection \<open>The contract\<close>

lemma list_nodepools_Ok:
  "list_nodepools api c cl s = (Ok ans, t) \<Longrightarrow>
    trace t = trace s @ [OcmListNodePools cl ans] \<and> settings t = settings s"
  by (auto simp: call_defs ocall_def settings_def split: prod.splits outcome.splits)

lemma add_nodepool_Ok:
  "add_nodepool api c cl p s = (Ok err, t) \<Longrightarrow>
    trace t = trace s @ [OcmAddNodePool cl p err] \<and> settings t = settings s"
  by (auto simp: call_defs ocall_def settings_def split: prod.splits outcome.splits)

lemma delete_nodepool_Ok:
  "delete_nodepool api c cl i s = (Ok err, t) \<Longrightarrow>
    trace t = trace s @ [OcmDeleteNodePool cl i err] \<and> settings t = settings s"
  by (auto simp: call_defs ocall_def settings_def split: prod.splits outcome.splits)

lemma scaleNodePool_type_shape:
  "scaleNodePool_type api c aw demand ty =
    bnd (gets ocmClusterID) (\<lambda>cl.
    bnd (list_nodepools api c cl) (\<lambda>(items, err). case err of
      Some e \<Rightarrow> ret (Return (no_requeue, Some e))
    | None \<Rightarrow>
        if nodepool_count items ty aw 0 \<noteq> demand_at demand ty then
          bnd (generateMachineName (aw_name aw)) (\<lambda>i.
          bnd (add_nodepool api c cl (fst (build_nodepool (lib api) i ty (demand_at demand ty) (pool_label aw)))) (\<lambda>_.
          ret (Next ())))
        else ret (Next ())))"
  unfolding scaleNodePool_type_def Let_def split_beta by (rule refl)

interpretation nps: pool_service api "\<lambda>items t aw. nodepool_count items t aw 0" np_labels np_id
  "build_nodepool (lib api)" "list_nodepools api" "add_nodepool api" "delete_nodepool api"
  OcmListNodePools OcmAddNodePool OcmDeleteNodePool "scaleNodePool_type api" "scaleNodePool api" "deleteNodePool api"
  for api :: "'w api"
  by unfold_locales
    (auto simp: list_nodepools_Ok add_nodepool_Ok delete_nodepool_Ok scaleNodePool_type_shape
      scaleNodePool_def deleteNodePool_def)

lemma balanced_scaleNodePool:
  "closes_returns api \<Longrightarrow> stays_in balanced (scaleNodePool api aw demand)"
  unfolding scaleNodePool_def scaleNodePool_type_def Let_def
  by (rule balanced_with_connection)
    (auto intro!: closing_deferred emits_intros balanced.stays_ret simp: no_connection_def)

lemma balanced_deleteNodePool:
  "closes_returns api \<Longrightarrow> stays_in balanced (deleteNodePool api aw)"
  unfolding deleteNodePool_def
  by (rule balanced_with_connection)
    (auto intro!: closing_deferred emits_intros balanced.stays_ret simp: no_connection_def)

lemma keeps_scaleNodePool [frame_intros]:
  "outside f \<Longrightarrow> (\<And>s c. f (s\<lparr>ocmConnection := c\<rparr>) = f s) \<Longrightarrow> stays_in (same f) (scaleNodePool api aw demand)"
  unfolding scaleNodePool_def scaleNodePool_type_def Let_def by (intro frame_intros) auto

lemma keeps_deleteNodePool [frame_intros]:
  "outside f \<Longrightarrow> (\<And>s c. f (s\<lparr>ocmConnection := c\<rparr>) = f s) \<Longrightarrow> stays_in (same f) (deleteNodePool api aw)"
  unfolding deleteNodePool_def by (intro frame_intros) auto

subsection \<open>Properties\<close>

text \<open>
  C13 (scaleNodePool_rounds): a scale-out through node pools that returns without an error opens one OCM
  connection, visits each demanded instance type once, in some order, and closes the connection. For
  each type it lists the pools, and it adds one pool exactly when the AppWrapper's pool of that type
  has not the demanded replicas: a pool of the type, the demanded replicas and the AppWrapper's label,
  with a generated name.
\<close>

theorem scaleNodePool_rounds:
  assumes "scaleNodePool api aw demand s = (Ok (res, None), u)"
  shows "\<exists>c rounds. res = no_requeue \<and> mset (map fst rounds) = mset (map fst demand) \<and>
    list_all (round_ok (\<lambda>items t aw. nodepool_count items t aw 0) (build_nodepool (lib api))
      (machineNameCharacterLimit s) aw demand) rounds \<and>
    trace u = trace s @ OcmConnect (ocmToken s) (Inr c) #
      concat (map (round_events OcmListNodePools OcmAddNodePool (ocmClusterID s)) rounds) @ [OcmClose (Some c)]"
  using assms by (rule nps.scale_rounds)

theorem scaleNodePool_rounds_witness:
  "\<exists>c rounds. mset (map fst rounds) = {#''m5'', ''g4''#} \<and>
    trace (snd (scaleNodePool ref_api job [(''m5'', 2), (''g4'', 1)] (ready ocm_config MachineTypeNodePool empty_cluster))) =
      OcmConnect ''token'' (Inr c) # concat (map (round_events OcmListNodePools OcmAddNodePool ''int'') rounds) @
      [OcmClose (Some c)]"
proof -
  let ?s = "ready ocm_config MachineTypeNodePool empty_cluster"
  have "fst (scaleNodePool ref_api job [(''m5'', 2), (''g4'', 1)] ?s) = Ok (no_requeue, None)" by code_simp
  from scaleNodePool_rounds [OF run_eq [OF this]] show ?thesis
    unfolding ready_fields append_Nil by (auto simp: add_mset_commute)
qed

text \<open>
  C19 (deleteNodePool_deletes_own): the removal at the end of an AppWrapper, where it returns without an
  error, opens one connection, lists the pools of the cluster, deletes the ones that have the
  AppWrapper's label, each once and in their order, and no other, and closes the connection. A
  failed delete does not stop it, and is not reported.
\<close>

theorem deleteNodePool_deletes_own:
  assumes "deleteNodePool api aw s = (Ok (res, None), u)"
  shows "\<exists>c items err errs. res = no_requeue \<and>
    length errs = length (filter (\<lambda>p. hasAwLabel (np_labels p) aw) items) \<and>
    trace u = trace s @ [OcmConnect (ocmToken s) (Inr c), OcmListNodePools (ocmClusterID s) (items, err)] @
      map2 (OcmDeleteNodePool (ocmClusterID s)) (map np_id (filter (\<lambda>p. hasAwLabel (np_labels p) aw) items)) errs @
      [OcmClose (Some c)]"
  using assms by (rule nps.remove_trace)

definition nodepool_of :: "string \<Rightarrow> dict \<Rightarrow> int \<Rightarrow> nodepool" where
  "nodepool_of i d n = \<lparr>np_id = i, np_awsInstanceType = Some ''m5'', np_labels = d, np_replicas = n\<rparr>"

definition nodepools_on :: "nodepool list \<Rightarrow> cluster" where
  "nodepools_on ps = empty_cluster\<lparr>c_nodepools := ps\<rparr>"

theorem deleteNodePool_deletes_own_witness:
  "\<exists>c items err errs. trace (snd (deleteNodePool ref_api job (ready ocm_config MachineTypeNodePool
      (nodepools_on [nodepool_of ''p1'' (pool_label job) 2, nodepool_of ''p2'' None 2])))) =
    [OcmConnect ''token'' (Inr c), OcmListNodePools ''int'' (items, err)] @
      map2 (OcmDeleteNodePool ''int'') (map np_id (filter (\<lambda>p. hasAwLabel (np_labels p) job) items)) errs @
      [OcmClose (Some c)]"
proof -
  let ?s = "ready ocm_config MachineTypeNodePool
    (nodepools_on [nodepool_of ''p1'' (pool_label job) 2, nodepool_of ''p2'' None 2])"
  have "fst (deleteNodePool ref_api job ?s) = Ok (no_requeue, None)" by code_simp
  from deleteNodePool_deletes_own [OF run_eq [OF this]] show ?thesis
    unfolding ready_fields append_Nil by blast
qed

end
