(* ===== verification/Demand.thy ===== *)
theory Demand
  imports Scenarios Utils
begin

text \<open>
  What an AppWrapper asks for: \<open>discoverInstanceTypes\<close> of \<open>controllers/appwrapper_controller.go\<close>
  reads the instance types from the \<open>orderedinstance\<close> label and the replicas from the custom pod
  resources of the generic items. The lemmas relate the two nested loops to one list of
  assignments, of which the last one to a type counts.
\<close>

text \<open>
  The two loops over the generic items and their pod resources, from index \<open>i\<close> and \<open>idx\<close>: a resource
  whose combined index has an instance type sets the demand of that type.
\<close>

fun pod_demand :: "string list \<Rightarrow> nat \<Rightarrow> nat \<Rightarrow> int list \<Rightarrow> demand \<Rightarrow> demand" where
  "pod_demand instanceRequired i idx [] demand = demand"
| "pod_demand instanceRequired i idx (replicas # vals) demand =
     (let combinedIndex = idx + i in
     pod_demand instanceRequired i (Suc idx) vals
       (if combinedIndex < length instanceRequired
        then AList.update (instanceRequired ! combinedIndex) replicas demand else demand))"

fun item_demand :: "string list \<Rightarrow> nat \<Rightarrow> int list list \<Rightarrow> demand \<Rightarrow> demand" where
  "item_demand instanceRequired i [] demand = demand"
| "item_demand instanceRequired i (genericItem # items) demand =
     item_demand instanceRequired (Suc i) items (pod_demand instanceRequired i 0 genericItem demand)"

definition discoverInstanceTypes :: "appwrapper \<Rightarrow> demand" where
  "discoverInstanceTypes aw =
     (let instanceRequired = getInstanceRequired (aw_labels aw) in
     if length instanceRequired < 1 then []
     else item_demand instanceRequired 0 (aw_genericItems aw) [])"

subsection \<open>The assignments\<close>

text \<open>
  The pod resource at position \<open>j\<close> of item \<open>i\<close> is assigned the instance type at position \<open>i + j\<close> of
  the label, if there is one.
\<close>

definition pod_assignments :: "string list \<Rightarrow> nat \<Rightarrow> int list \<Rightarrow> (string \<times> int) list" where
  "pod_assignments ts i vals = zip (drop i ts) vals"

definition assignments :: "string list \<Rightarrow> int list list \<Rightarrow> (string \<times> int) list" where
  "assignments ts items = concat (map (\<lambda>(i, vals). pod_assignments ts i vals) (enumerate 0 items))"

definition assign :: "(string \<times> int) list \<Rightarrow> demand \<Rightarrow> demand" where
  "assign kvs demand = fold (\<lambda>(t, n). AList.update t n) kvs demand"

lemma assign_simps [simp]:
  "assign [] demand = demand"
  "assign ((t, n) # kvs) demand = assign kvs (AList.update t n demand)"
  "assign (kvs @ kvs') demand = assign kvs' (assign kvs demand)"
  by (simp_all add: assign_def)

lemma pod_demand_assign:
  "pod_demand ts i idx vals demand = assign (zip (drop (idx + i) ts) vals) demand"
proof (induction ts i idx vals demand rule: pod_demand.induct)
  case (2 ts i idx n vals demand)
  then show ?case
    by (cases "idx + i < length ts") (auto simp: Let_def Cons_nth_drop_Suc [symmetric])
qed simp

lemma item_demand_assign:
  "item_demand ts i items demand =
    assign (concat (map (\<lambda>(i, vals). pod_assignments ts i vals) (enumerate i items))) demand"
  by (induction ts i items demand rule: item_demand.induct)
    (simp_all add: pod_demand_assign pod_assignments_def)

lemma map_of_assign: "map_of (assign kvs demand) = map_of demand ++ map_of (rev kvs)"
  by (induction kvs arbitrary: demand) (auto simp: update_conv' map_add_def fun_eq_iff split: option.split)

lemma distinct_assign: "distinct (map fst demand) \<Longrightarrow> distinct (map fst (assign kvs demand))"
  by (induction kvs arbitrary: demand) (auto simp: distinct_update)

lemma fst_assign: "fst ` set (assign kvs demand) = fst ` set demand \<union> fst ` set kvs"
  by (metis (no_types) dom_map_add dom_map_of_conv_image_fst map_of_assign set_rev sup_commute)

lemma discover_assign:
  "discoverInstanceTypes aw = assign (assignments (getInstanceRequired (aw_labels aw)) (aw_genericItems aw)) []"
proof (cases "getInstanceRequired (aw_labels aw) = []")
  case True
  have "assignments [] items = []" for items
    by (auto simp: assignments_def pod_assignments_def)
  with True show ?thesis by (simp add: discoverInstanceTypes_def)
next
  case False
  then have "\<not> length (getInstanceRequired (aw_labels aw)) < 1" by (simp add: Suc_le_eq)
  then show ?thesis
    by (simp add: discoverInstanceTypes_def item_demand_assign assignments_def)
qed

subsection \<open>Properties\<close>

text \<open>
  C16 (discoverInstanceTypes_last_assignment): the demand has distinct types; it is the map in which
  the last pod resource, in the order of the items, that is assigned an instance type gives the
  replicas of this type; a type nothing is assigned to is not demanded.
\<close>

theorem discoverInstanceTypes_last_assignment:
  "distinct (map fst (discoverInstanceTypes aw)) \<and>
    map_of (discoverInstanceTypes aw) =
      map_of (rev (assignments (getInstanceRequired (aw_labels aw)) (aw_genericItems aw)))"
  by (simp add: discover_assign map_of_assign distinct_assign)

text \<open>
  C17 (discoverInstanceTypes_single_item): an AppWrapper whose label joins distinct instance types with
  underscores and whose single generic item has one pod resource per type asks, for each of the
  types, for the replicas at its position, and for nothing else.
\<close>

theorem discoverInstanceTypes_single_item:
  assumes "dict_get (aw_labels aw) orderedinstance = Some (join_with CHR ''_'' ts)"
    and "ts \<noteq> []" and "distinct ts" and "\<forall>t \<in> set ts. CHR ''_'' \<notin> set t"
    and "aw_genericItems aw = [vals]" and "length vals = length ts"
  shows "map_of (discoverInstanceTypes aw) = map_of (zip ts vals) \<and>
    (\<forall>j < length ts. demand_at (discoverInstanceTypes aw) (ts ! j) = vals ! j)"
proof -
  have types: "getInstanceRequired (aw_labels aw) = ts"
    using assms(1,2,4) by (simp add: getInstanceRequired_def split_join_with)
  have keys: "distinct (map fst (zip ts vals))"
    using assms(3,6) by simp
  have "map_of (discoverInstanceTypes aw) = map_of (rev (zip ts vals))"
    using assms(5) types by (simp add: discover_assign map_of_assign assignments_def pod_assignments_def)
  then have eq: "map_of (discoverInstanceTypes aw) = map_of (zip ts vals)"
    using keys map_of_inject_set [of "rev (zip ts vals)" "zip ts vals"] by (simp add: rev_map [symmetric])
  moreover have "map_of (zip ts vals) (ts ! j) = Some (vals ! j)" if "j < length ts" for j
    using assms(3,6) that by (simp add: map_of_zip_nth)
  ultimately show ?thesis by (simp add: demand_at_def)
qed

definition two_types_job :: appwrapper where
  "two_types_job = job\<lparr>aw_labels := Some [(''orderedinstance'', ''m5_g4'')], aw_genericItems := [[3, 1]]\<rparr>"

theorem discoverInstanceTypes_single_item_witness:
  "map_of (discoverInstanceTypes two_types_job) = map_of (zip [''m5'', ''g4''] [3, 1])"
proof -
  have "dict_get (aw_labels two_types_job) orderedinstance = Some (join_with CHR ''_'' [''m5'', ''g4''])"
    by code_simp
  moreover have "aw_genericItems two_types_job = [[3, 1]]" by code_simp
  ultimately show ?thesis
    using discoverInstanceTypes_single_item [of two_types_job "[''m5'', ''g4'']" "[3, 1]"] by simp
qed


definition two_items_job :: appwrapper where
  "two_items_job = job\<lparr>aw_labels := Some [(''orderedinstance'', ''a_b_c'')], aw_genericItems := [[1, 2], [3]]\<rparr>"


end
