(* ===== verification/Controller.thy ===== *)
theory Controller
  imports MachineSetDuplicate MachinePools NodePools Demand
begin

text \<open>
  \<open>controllers/appwrapper_controller.go\<close>: the reconciliation of one AppWrapper, the choice of the
  machine type, the set-up with the manager, the demand an AppWrapper states, and the search for
  another AppWrapper that takes machines over.
\<close>

definition finalizerName :: string where
  "finalizerName = ''instascale.codeflare.dev/finalizer''"

subsection \<open>Another AppWrapper for the machines\<close>

text \<open>The value the loop over the labels leaves in \<open>existingAcquiredMachineTypes\<close>.\<close>

definition acquired_types :: "appwrapper \<Rightarrow> string" where
  "acquired_types aw = last_label orderedinstance (aw_labels aw)"

fun first_match :: "string \<Rightarrow> string \<Rightarrow> appwrapper list \<Rightarrow> appwrapper option" where
  "first_match enqueued types [] = None"
| "first_match enqueued types (eachAw # aws) =
     (if aw_state eachAw \<noteq> enqueued \<and> dict_index (aw_labels eachAw) orderedinstance = types
      then Some eachAw else first_match enqueued types aws)"

definition findExactMatch :: "'w api \<Rightarrow> appwrapper \<Rightarrow> ('w gstate, appwrapper option) prog" where
  "findExactMatch api aw =
     bnd (list_appwrappers api (MatchSet [(orderedinstance, [])]) []) (\<lambda>(appwrappers, err). case err of
       Some _ \<Rightarrow> ret None
     | None \<Rightarrow> ret (first_match (state_enqueued (lib api)) (acquired_types aw) appwrappers))"

subsection \<open>Scaling down\<close>

definition finalizeScalingDownMachines :: "'w api \<Rightarrow> appwrapper \<Rightarrow> ('w gstate, go_error option) prog" where
  "finalizeScalingDownMachines api appwrapper =
     bnd (modify (\<lambda>s. s\<lparr>deletionMessage :=
       (if aw_state appwrapper = state_completed (lib api) then ''completed'' else ''deleted'')\<rparr>)) (\<lambda>_.
     bnd (gets MachineType) (\<lambda>mt. case mt of
       MachineTypeMachineSet \<Rightarrow>
         bnd (gets Config) (\<lambda>cfg.
         let strategy = to_lower (MachineSetsStrategy cfg) in
         if strategy = ''reuse'' then
           bnd (findExactMatch api appwrapper) (\<lambda>matchedAw. case matchedAw of
             Some aw \<Rightarrow> swapNodeLabels api appwrapper aw
           | None \<Rightarrow> annotateToDeleteMachine api appwrapper)
         else if strategy = ''duplicate'' then deleteMachineSet api appwrapper
         else ret None)
     | MachineTypeNodePool \<Rightarrow> bnd (deleteNodePool api appwrapper) (\<lambda>(_, err). ret err)
     | MachineTypeMachinePool \<Rightarrow> bnd (deleteMachinePool api appwrapper) (\<lambda>(_, err). ret err)
     | MachineTypeNone \<Rightarrow> ret None))"

subsection \<open>Machine type\<close>

definition setMachineType :: "'w api \<Rightarrow> ('w gstate, go_error option) prog" where
  "setMachineType api =
     bnd (gets ocmClusterID) (\<lambda>i.
     bnd (if i = [] then getOCMClusterID api else ret None) (\<lambda>err. case err of
       Some e \<Rightarrow> ret (Some e)
     | None \<Rightarrow>
         bnd (checkHypershiftEnabled api) (\<lambda>(hypershiftEnabled, err). case err of
           Some e \<Rightarrow> ret (Some e)
         | None \<Rightarrow>
             if hypershiftEnabled then
               bnd (modify (\<lambda>s. s\<lparr>MachineType := MachineTypeNodePool, machineNameCharacterLimit := 15\<rparr>)) (\<lambda>_.
               ret None)
             else ret None)))"

subsection \<open>Reconciliation\<close>

definition scaleOut :: "'w api \<Rightarrow> appwrapper \<Rightarrow> ('w gstate, reconcile_ret) prog" where
  "scaleOut api aw =
     (if aw_state aw = ''Pending'' \<and> containsInsufficientCondition (aw_conditions aw) then
        (let demandPerInstanceType = discoverInstanceTypes aw in
        bnd (gets Config) (\<lambda>cfg.
        if OCMSecretRef cfg \<noteq> None then
          bnd (gets MachineType) (\<lambda>mt. case mt of
            MachineTypeNodePool \<Rightarrow> scaleNodePool api aw demandPerInstanceType
          | MachineTypeMachinePool \<Rightarrow> scaleMachinePool api aw demandPerInstanceType
          | _ \<Rightarrow> ret (no_requeue, None))
        else
          (let strategy = to_lower (MachineSetsStrategy cfg) in
          if strategy = ''reuse'' then reconcileReuseMachineSet api aw demandPerInstanceType
          else if strategy = ''duplicate'' then reconcileCreateMachineSet api aw demandPerInstanceType
          else ret (no_requeue, None))))
      else ret (no_requeue, None))"

definition reconcileAppWrapper :: "'w api \<Rightarrow> appwrapper \<Rightarrow> ('w gstate, reconcile_ret) prog" where
  "reconcileAppWrapper api aw =
     (if \<not> contains_finalizer (lib api) aw finalizerName then
        bnd (update_appwrapper api (add_finalizer (lib api) aw finalizerName)) (\<lambda>(_, err). case err of
          Some e \<Rightarrow> ret (\<lparr>Requeue = False, RequeueAfter = timeFiveSeconds\<rparr>, None)
        | None \<Rightarrow> ret (no_requeue, None))
      else if \<not> time_is_zero (aw_deletionTimestamp aw) \<or> aw_state aw = state_completed (lib api) then
        bnd (finalizeScalingDownMachines api aw) (\<lambda>err. case err of
          Some e \<Rightarrow> ret (no_requeue, Some e)
        | None \<Rightarrow>
            bnd (update_appwrapper api (remove_finalizer (lib api) aw finalizerName)) (\<lambda>(_, err). case err of
              Some e \<Rightarrow> ret (no_requeue, Some e)
            | None \<Rightarrow> ret (no_requeue, None)))
      else scaleOut api aw)"

definition Reconcile :: "'w api \<Rightarrow> key \<Rightarrow> ('w gstate, reconcile_ret) prog" where
  "Reconcile api req =
     bnd (gets machineCheck) (\<lambda>check.
     bnd (gets MachineType) (\<lambda>mt.
     bnd (if \<not> check \<and> mt \<noteq> MachineTypeMachineSet then setMachineType api else ret None) (\<lambda>err. case err of
       Some e \<Rightarrow> ret (no_requeue, Some e)
     | None \<Rightarrow>
         bnd (modify (\<lambda>s. s\<lparr>machineCheck := True\<rparr>)) (\<lambda>_.
         bnd (get_appwrapper api req) (\<lambda>(appwrapper, err). case err of
           Some e \<Rightarrow> (if is_not_found (lib api) e then ret (no_requeue, None) else ret (no_requeue, Some e))
         | None \<Rightarrow> reconcileAppWrapper api appwrapper)))))"

subsection \<open>Set-up\<close>

text \<open>
  What the set-up uses of the manager and of client-go: making the clientset, and registering the
  controller.
\<close>

record 'w setup_api =
  s_new_kube_client :: "'w \<Rightarrow> go_error option \<times> 'w"
  s_register :: "'w \<Rightarrow> go_error option \<times> 'w"

definition getOCMSecret :: "'w api \<Rightarrow> secret_ref \<Rightarrow> ('w gstate, secret answer) prog" where
  "getOCMSecret api secretRef = get_secret api (ref_namespace secretRef, ref_name secretRef)"

text \<open>
  In the branch for a missing token the source returns the variable \<open>err\<close> that the \<open>if\<close> has declared,
  which is nil there.
\<close>

definition SetupWithManager :: "'w api \<Rightarrow> 'w setup_api \<Rightarrow> ('w gstate, go_error option) prog" where
  "SetupWithManager api mgr =
     bnd (modify (\<lambda>s. s\<lparr>machineNameCharacterLimit := 30\<rparr>)) (\<lambda>_.
     bnd (call NewKubeClient (s_new_kube_client mgr)) (\<lambda>err. case err of
       Some e \<Rightarrow> ret (Some e)
     | None \<Rightarrow>
         bnd (modify (\<lambda>s. s\<lparr>maxScaleNodesAllowed := sint (MaxScaleoutAllowed (Config s)),
           MachineType := MachineTypeMachineSet\<rparr>)) (\<lambda>_.
         bnd (gets Config) (\<lambda>cfg. case OCMSecretRef cfg of
           None \<Rightarrow> call RegisterController (s_register mgr)
         | Some ocmSecretRef \<Rightarrow>
             bnd (getOCMSecret api ocmSecretRef) (\<lambda>(ocmSecret, err). case err of
               Some e \<Rightarrow> ret (Some e)
             | None \<Rightarrow>
                 (let token = dict_index (sec_data ocmSecret) ''token'' in
                 if length token > 0 then
                   bnd (modify (\<lambda>s. s\<lparr>ocmToken := token, MachineType := MachineTypeMachinePool\<rparr>)) (\<lambda>_.
                   call RegisterController (s_register mgr))
                 else ret err))))))"

subsection \<open>Which API each part uses\<close>

datatype call_kind = AppWrapperRead | AppWrapperWrite | MachineApi | OcmApi | ClusterInfo | ProcessCall

fun kind :: "event \<Rightarrow> call_kind" where
  "kind (GetAppWrapper _ _) = AppWrapperRead"
| "kind (ListAppWrappers _ _) = AppWrapperRead"
| "kind (UpdateAppWrapper _ _) = AppWrapperWrite"
| "kind (ListMachineSets _ _) = MachineApi"
| "kind (GetMachineSet _ _) = MachineApi"
| "kind (CreateMachineSet _ _) = MachineApi"
| "kind (UpdateMachineSet _ _) = MachineApi"
| "kind (PatchMachineSet _ _ _) = MachineApi"
| "kind (DeleteMachineSet _ _) = MachineApi"
| "kind (ListMachines _ _) = MachineApi"
| "kind (GetMachine _ _) = MachineApi"
| "kind (UpdateMachine _ _) = MachineApi"
| "kind (PatchMachine _ _ _) = MachineApi"
| "kind (ListNodes _ _) = MachineApi"
| "kind (PatchNode _ _ _) = MachineApi"
| "kind (OcmConnect _ _) = OcmApi"
| "kind (OcmClose _) = OcmApi"
| "kind (OcmSearchClusters _ _) = OcmApi"
| "kind (OcmGetCluster _ _) = OcmApi"
| "kind (OcmListMachinePools _ _) = OcmApi"
| "kind (OcmAddMachinePool _ _ _) = OcmApi"
| "kind (OcmDeleteMachinePool _ _ _) = OcmApi"
| "kind (OcmListNodePools _ _) = OcmApi"
| "kind (OcmAddNodePool _ _ _) = OcmApi"
| "kind (OcmDeleteNodePool _ _ _) = OcmApi"
| "kind (GetClusterVersion _ _) = ClusterInfo"
| "kind (GetSecret _ _) = ClusterInfo"
| "kind _ = ProcessCall"

abbreviation uses :: "call_kind set \<Rightarrow> ('w gstate, 'a) prog \<Rightarrow> bool" where
  "uses K \<equiv> emits (\<lambda>e. kind e \<in> K)"

lemma uses_mono: "uses K m \<Longrightarrow> K \<subseteq> L \<Longrightarrow> uses L m"
  by (erule emits_mono) blast

lemma uses_reuse: "MachineApi \<in> K \<Longrightarrow> uses K (reconcileReuseMachineSet api aw demand)"
  unfolding reconcileReuseMachineSet_def reuseMachineSet_def reuseDecide_def reuseApply_def
    removeMachinesBasedOnReplicas_def removeNode_def removeNodeMachine_def removeFromMachineSet_def
  by (intro emits_intros; simp)

lemma uses_annotateToDeleteMachine: "MachineApi \<in> K \<Longrightarrow> uses K (annotateToDeleteMachine api aw)"
  unfolding annotateToDeleteMachine_def annotateNode_def annotateMachine_def releaseMachineSet_def
  by (intro emits_intros; simp)

lemma uses_swapNodeLabels: "MachineApi \<in> K \<Longrightarrow> uses K (swapNodeLabels api oldAw newAw)"
  by (intro emits_intros; simp)

lemma uses_duplicate:
  assumes "MachineApi \<in> K"
  shows "uses K (reconcileCreateMachineSet api aw demand)" "uses K (deleteMachineSet api aw)"
  unfolding reconcileCreateMachineSet_def createMachineSet_def labelNodeOf_def deleteMachineSet_def
    deleteOne_def Let_def
  by (intro emits_intros; simp add: assms)+

lemma uses_pools:
  assumes "OcmApi \<in> K"
  shows "uses K (scaleMachinePool api aw demand)" "uses K (deleteMachinePool api aw)"
    "uses K (scaleNodePool api aw demand)" "uses K (deleteNodePool api aw)"
  unfolding scaleMachinePool_def scaleMachinePool_type_def deleteMachinePool_def
    scaleNodePool_def scaleNodePool_type_def deleteNodePool_def Let_def
  by (intro emits_intros; simp add: assms)+

lemma uses_findExactMatch: "AppWrapperRead \<in> K \<Longrightarrow> uses K (findExactMatch api aw)"
  unfolding findExactMatch_def by (intro emits_intros; simp)

lemma uses_setMachineType: "{ClusterInfo, OcmApi} \<subseteq> K \<Longrightarrow> uses K (setMachineType api)"
  unfolding setMachineType_def getOCMClusterID_def by (intro emits_intros; simp)

lemmas uses_parts = uses_reuse uses_annotateToDeleteMachine uses_swapNodeLabels uses_duplicate
  uses_pools uses_findExactMatch

lemma uses_finalize:
  assumes "{AppWrapperRead, MachineApi, OcmApi} \<subseteq> K"
  shows "uses K (finalizeScalingDownMachines api aw)"
  unfolding finalizeScalingDownMachines_def Let_def
  by (intro extends.stays_bnd emits_modify extends.stays_gets)
    (use assms in \<open>auto intro!: extends.stays_if extends.stays_option extends.stays_pair extends.stays_ret
      extends.stays_bnd extends.stays_gets uses_parts split: machine_type.split\<close>)

lemma uses_scaleOut:
  assumes "{MachineApi, OcmApi} \<subseteq> K"
  shows "uses K (scaleOut api aw)"
  unfolding scaleOut_def Let_def
  by (use assms in \<open>auto intro!: extends.stays_if extends.stays_ret
      extends.stays_bnd extends.stays_gets uses_parts split: machine_type.split\<close>)

subsection \<open>Runs\<close>

text \<open>A Kubernetes call returns, with the answer of the client.\<close>

lemma call_returns: "\<exists>t. call ev f s = (Ok (fst (f (world s))), t) \<and> trace t = trace s @ [ev (fst (f (world s)))]"
  by (simp add: call_def split: prod.split)

lemma update_appwrapper_returns:
  obtains ans t where "update_appwrapper api aw s = (Ok ans, t)" "trace t = trace s @ [UpdateAppWrapper aw ans]"
  using call_returns [of "UpdateAppWrapper aw"] unfolding update_appwrapper_def by blast

lemma list_appwrappers_returns:
  obtains ans t where "list_appwrappers api sel prev s = (Ok ans, t)"
    "trace t = trace s @ [ListAppWrappers sel ans]"
    "k_list_appwrappers (kube api) sel prev (world s) = (ans, world t)"
proof -
  obtain ans w where k: "k_list_appwrappers (kube api) sel prev (world s) = (ans, w)" by fastforce
  show thesis
    by (rule that [of ans "s\<lparr>world := w, trace := trace s @ [ListAppWrappers sel ans]\<rparr>"])
      (simp_all add: list_appwrappers_def call_def k)
qed

lemma first_match_find:
  "first_match enqueued types aws =
    find (\<lambda>a. aw_state a \<noteq> enqueued \<and> dict_index (aw_labels a) orderedinstance = types) aws"
  by (induction enqueued types aws rule: first_match.induct) simp_all

lemma trace_unique: "trace t = trace s @ es \<Longrightarrow> trace t = trace s @ fs \<Longrightarrow> es = fs"
  by simp

definition over :: "'w api \<Rightarrow> appwrapper \<Rightarrow> bool" where
  "over api aw \<longleftrightarrow> \<not> time_is_zero (aw_deletionTimestamp aw) \<or> aw_state aw = state_completed (lib api)"

definition no_aw_write :: "event \<Rightarrow> bool" where
  "no_aw_write e \<longleftrightarrow> kind e \<noteq> AppWrapperWrite"

lemma emits_no_aw_write: "AppWrapperWrite \<notin> K \<Longrightarrow> uses K m \<Longrightarrow> emits no_aw_write m"
  unfolding no_aw_write_def by (erule emits_mono) auto

lemma finalize_no_aw_write: "emits no_aw_write (finalizeScalingDownMachines api aw)"
  by (rule emits_no_aw_write [OF _ uses_finalize [OF order_refl]]) simp

lemma scaleOut_no_aw_write: "emits no_aw_write (scaleOut api aw)"
  by (rule emits_no_aw_write [OF _ uses_scaleOut [OF order_refl]]) simp

text \<open>What a reconciliation does at the end of an AppWrapper's life.\<close>

lemma reconcile_over:
  assumes "contains_finalizer (lib api) aw finalizerName" "over api aw"
    and "reconcileAppWrapper api aw s = (r, t)"
  obtains (panicked) msg where "finalizeScalingDownMachines api aw s = (Panic msg, t)" "r = Panic msg"
    | (failed) e where "finalizeScalingDownMachines api aw s = (Ok (Some e), t)" "r = Ok (no_requeue, Some e)"
    | (released) s' ans where "finalizeScalingDownMachines api aw s = (Ok None, s')"
        "trace t = trace s' @ [UpdateAppWrapper (remove_finalizer (lib api) aw finalizerName) ans]"
        "r = Ok (no_requeue, snd ans)"
proof -
  obtain q s' where fin: "finalizeScalingDownMachines api aw s = (q, s')"
    by (cases "finalizeScalingDownMachines api aw s")
  obtain ans u where up: "update_appwrapper api (remove_finalizer (lib api) aw finalizerName) s' = (Ok ans, u)"
    "trace u = trace s' @ [UpdateAppWrapper (remove_finalizer (lib api) aw finalizerName) ans]"
    by (rule update_appwrapper_returns)
  show thesis
  proof (cases q)
    case (Panic msg)
    with assms fin show thesis
      by (intro panicked [of msg]) (auto simp: reconcileAppWrapper_def over_def bnd_def)
  next
    case (Ok err)
    show thesis
    proof (cases err)
      case None
      with Ok assms fin up show thesis
        by (intro released [of s' ans])
          (auto simp: reconcileAppWrapper_def over_def bnd_def ret_def split: prod.splits option.splits)
    next
      case (Some e)
      with Ok assms fin show thesis
        by (intro failed [of e]) (auto simp: reconcileAppWrapper_def over_def bnd_def ret_def)
    qed
  qed
qed

subsection \<open>Properties\<close>

text \<open>
  C21 (finalizer_added_first): an AppWrapper without the finalizer gets it, and nothing else is done for
  it in that reconciliation: no machine is touched before the finalizer is stored. A failed update
  is not an error, but is tried again after five seconds.
\<close>

theorem finalizer_added_first:
  assumes "\<not> contains_finalizer (lib api) aw finalizerName"
  shows "\<exists>ans t. trace t = trace s @ [UpdateAppWrapper (add_finalizer (lib api) aw finalizerName) ans] \<and>
    reconcileAppWrapper api aw s =
      (Ok (if snd ans = None then no_requeue else \<lparr>Requeue = False, RequeueAfter = timeFiveSeconds\<rparr>, None), t)"
proof -
  obtain ans t where "update_appwrapper api (add_finalizer (lib api) aw finalizerName) s = (Ok ans, t)"
    "trace t = trace s @ [UpdateAppWrapper (add_finalizer (lib api) aw finalizerName) ans]"
    by (rule update_appwrapper_returns)
  with assms show ?thesis
    by (intro exI [of _ ans] exI [of _ t])
      (auto simp: reconcileAppWrapper_def bnd_def ret_def split: prod.splits option.splits)
qed

theorem finalizer_added_first_witness:
  "\<exists>ans t. trace t = [UpdateAppWrapper job ans] \<and> snd (reconcileAppWrapper ref_api (job\<lparr>aw_finalizers := []\<rparr>)
    (ready reuse_config MachineTypeMachineSet empty_cluster)) = t"
proof -
  let ?aw = "job\<lparr>aw_finalizers := []\<rparr>"
  have "\<not> contains_finalizer (lib ref_api) ?aw finalizerName" by code_simp
  moreover have "add_finalizer (lib ref_api) ?aw finalizerName = job" by code_simp
  ultimately show ?thesis
    using finalizer_added_first [of ref_api ?aw "ready reuse_config MachineTypeMachineSet empty_cluster"]
    by (auto simp: ready_fields)
qed

text \<open>
  C2 (finalizer_removed_last): the finalizer of an AppWrapper goes only with the last call of a
  reconciliation, only for an AppWrapper that is deleted or completed, and only after its machines
  were released without an error; in every other case the AppWrapper is not written.
\<close>

theorem finalizer_removed_last:
  assumes "contains_finalizer (lib api) aw finalizerName"
  shows "\<exists>es. trace (snd (reconcileAppWrapper api aw s)) = trace s @ es \<and>
    (list_all no_aw_write es \<or>
      (over api aw \<and> (\<exists>es' ans s'. list_all no_aw_write es' \<and>
        es = es' @ [UpdateAppWrapper (remove_finalizer (lib api) aw finalizerName) ans] \<and>
        finalizeScalingDownMachines api aw s = (Ok None, s') \<and> trace s' = trace s @ es')))"
proof -
  obtain r t where run: "reconcileAppWrapper api aw s = (r, t)" by (cases "reconcileAppWrapper api aw s")
  show ?thesis
  proof (cases "over api aw")
    case True
    from assms True run show ?thesis
    proof (cases rule: reconcile_over)
      case (panicked msg)
      with run show ?thesis by (auto elim!: emitsD [OF finalize_no_aw_write])
    next
      case (failed e)
      with run show ?thesis by (auto elim!: emitsD [OF finalize_no_aw_write])
    next
      case (released s' ans)
      with run True show ?thesis by (auto elim!: emitsD [OF finalize_no_aw_write])
    qed
  next
    case False
    with assms run have "scaleOut api aw s = (r, t)"
      by (simp add: reconcileAppWrapper_def over_def)
    with run show ?thesis by (auto elim!: emitsD [OF scaleOut_no_aw_write])
  qed
qed

definition completed_job :: appwrapper where
  "completed_job = job\<lparr>aw_state := ''Completed''\<rparr>"

theorem finalizer_removed_last_witness:
  "\<exists>es ans s'. trace (snd (reconcileAppWrapper ref_api completed_job (ready reuse_config MachineTypeMachineSet empty_cluster))) =
      es @ [UpdateAppWrapper (remove_finalizer (lib ref_api) completed_job finalizerName) ans] \<and>
    finalizeScalingDownMachines ref_api completed_job (ready reuse_config MachineTypeMachineSet empty_cluster) = (Ok None, s')"
proof -
  let ?s = "ready reuse_config MachineTypeMachineSet empty_cluster"
  have "contains_finalizer (lib ref_api) completed_job finalizerName" by code_simp
  moreover have "\<not> list_all (\<lambda>e. kind e \<noteq> AppWrapperWrite) (trace (snd (reconcileAppWrapper ref_api completed_job ?s)))"
    by code_simp
  then have "\<not> list_all no_aw_write (trace (snd (reconcileAppWrapper ref_api completed_job ?s)))"
    by (simp add: no_aw_write_def list_all_iff)
  ultimately show ?thesis
    using finalizer_removed_last [of ref_api completed_job ?s] unfolding ready_fields append_Nil by metis
qed

text \<open>
  C27 (quiet_unless_insufficient): a live AppWrapper that has the finalizer and is not both \<open>Pending\<close>
  and reported as short of resources in some condition is left alone: no call, no error, no requeue.
\<close>

theorem quiet_unless_insufficient:
  assumes "contains_finalizer (lib api) aw finalizerName" and "\<not> over api aw"
    and "aw_state aw \<noteq> ''Pending'' \<or> (\<forall>msg \<in> set (aw_conditions aw). \<not> sublist ''Insufficient'' msg)"
  shows "reconcileAppWrapper api aw s = (Ok (no_requeue, None), s)"
  using assms
  by (auto simp: reconcileAppWrapper_def over_def scaleOut_def containsInsufficientCondition_set ret_def)

theorem quiet_unless_insufficient_witness:
  "reconcileAppWrapper ref_api (job\<lparr>aw_state := ''Running''\<rparr>) (ready reuse_config MachineTypeMachineSet empty_cluster) =
    (Ok (no_requeue, None), ready reuse_config MachineTypeMachineSet empty_cluster)"
proof (rule quiet_unless_insufficient)
  show "contains_finalizer (lib ref_api) (job\<lparr>aw_state := ''Running''\<rparr>) finalizerName" by code_simp
  show "\<not> over ref_api (job\<lparr>aw_state := ''Running''\<rparr>)" by code_simp
  show "aw_state (job\<lparr>aw_state := ''Running''\<rparr>) \<noteq> ''Pending'' \<or>
      (\<forall>msg \<in> set (aw_conditions (job\<lparr>aw_state := ''Running''\<rparr>)). \<not> sublist ''Insufficient'' msg)" by simp
qed

text \<open>
  C28 (findExactMatch_first): \<open>findExactMatch\<close> makes one list call, and gives the first listed
  AppWrapper that is not enqueued and has the same value of the label \<open>orderedinstance\<close>; none if
  there is no such AppWrapper, or if the call fails.
\<close>

theorem findExactMatch_first:
  "\<exists>aws err t. trace t = trace s @ [ListAppWrappers (MatchSet [(''orderedinstance'', [])]) (aws, err)] \<and>
    findExactMatch api aw s = (Ok (if err \<noteq> None then None
      else find (\<lambda>a. aw_state a \<noteq> state_enqueued (lib api) \<and>
        dict_index (aw_labels a) ''orderedinstance'' = acquired_types aw) aws), t)"
proof -
  obtain ans t where "list_appwrappers api (MatchSet [(orderedinstance, [])]) [] s = (Ok ans, t)"
    "trace t = trace s @ [ListAppWrappers (MatchSet [(orderedinstance, [])]) ans]"
    by (rule list_appwrappers_returns)
  then show ?thesis
    by (intro exI [of _ "fst ans"] exI [of _ "snd ans"] exI [of _ t])
      (auto simp: findExactMatch_def bnd_def ret_def first_match_find orderedinstance_def
        split: prod.splits option.splits)
qed

text \<open>
  The API server lists the objects a selector selects: documented behaviour of a list call.
\<close>

definition list_selects :: "'w api \<Rightarrow> bool" where
  "list_selects api \<longleftrightarrow> (\<forall>sel prev w aws w'. k_list_appwrappers (kube api) sel prev w = ((aws, None), w') \<longrightarrow>
     (\<forall>a \<in> set aws. selects sel (aw_labels a)))"

lemma list_selects_ref: "list_selects ref_api"
  by (auto simp: list_selects_def ref_defs split: if_splits)

text \<open>
  C29 (findExactMatch_never_for_instances): the selector of \<open>findExactMatch\<close> asks for AppWrappers whose
  label \<open>orderedinstance\<close> is the empty string. So an AppWrapper that has acquired any instance type is
  never matched with another one, and its machines are never handed over.
\<close>

theorem findExactMatch_never_for_instances:
  assumes "list_selects api" and "acquired_types aw \<noteq> []"
  shows "fst (findExactMatch api aw s) = Ok None"
proof -
  let ?sel = "MatchSet [(orderedinstance, [])]"
  obtain ans t where l: "list_appwrappers api ?sel [] s = (Ok ans, t)"
    "k_list_appwrappers (kube api) ?sel [] (world s) = (ans, world t)"
    by (rule list_appwrappers_returns)
  obtain aws err where ans: "ans = (aws, err)" by (cases ans)
  have "find (\<lambda>a. aw_state a \<noteq> enq \<and> dict_index (aw_labels a) orderedinstance = acquired_types aw) aws = None"
    if "err = None" for enq
  proof -
    have "\<forall>a \<in> set aws. selects ?sel (aw_labels a)"
      using assms(1) l(2) ans that unfolding list_selects_def by blast
    then show ?thesis
      using assms(2) by (auto simp: find_None_iff dict_index_def)
  qed
  with l(1) ans show ?thesis
    by (auto simp: findExactMatch_def bnd_def ret_def first_match_find split: option.splits)
qed

theorem findExactMatch_never_for_instances_witness:
  "fst (findExactMatch ref_api job (ready reuse_config MachineTypeMachineSet
    (empty_cluster\<lparr>c_appwrappers := [job, other_job\<lparr>aw_state := ''Running''\<rparr>]\<rparr>))) = Ok None"
proof -
  have "acquired_types job \<noteq> []" by code_simp
  with list_selects_ref show ?thesis by (rule findExactMatch_never_for_instances)
qed

subsection \<open>Changes of machine sets in one reconciliation\<close>

lemma quiet_without_machine_api:
  assumes "MachineApi \<notin> K" "uses K m"
  shows "bounded resizes c m"
proof (rule bounded_quiet, rule emits_mono [OF assms(2)])
  show "\<not> resizes e" if "kind e \<in> K" for e
    using that assms(1) by (cases e) auto
qed

lemma bounded_gets: "(\<And>x. bounded K c (k x)) \<Longrightarrow> bounded K c (bnd (gets f) k)"
  by (rule bounded_before [OF extends.stays_gets])

lemma bounded_scaleOut: "bounded resizes (\<lambda>_. 1) (scaleOut api aw)"
proof -
  have pools: "bounded resizes (\<lambda>_. 1) (scaleNodePool api aw d)" "bounded resizes (\<lambda>_. 1) (scaleMachinePool api aw d)" for d
    by (rule quiet_without_machine_api [of "{OcmApi}"], simp, rule uses_pools, simp)+
  have by_type: "bounded resizes (\<lambda>_. 1) (case mt of MachineTypeNodePool \<Rightarrow> scaleNodePool api aw d
      | MachineTypeMachinePool \<Rightarrow> scaleMachinePool api aw d | _ \<Rightarrow> ret (no_requeue, None))" for mt d
    by (cases mt) (simp_all only: machine_type.case pools bounded_quiet_ret)
  show ?thesis
    unfolding scaleOut_def Let_def
    by (intro bounded_if bounded_gets by_type bounded_reuse bounded_reconcileCreate bounded_quiet_ret)
qed

text \<open>
  C10 (live_resizes_once): one reconciliation of an AppWrapper that is neither deleted nor completed,
  or does not have the finalizer, creates, updates or deletes at most one machine set, with every strategy
  and on every path, errors and panics included: after the change the reconciliation ends, and the next
  one starts from the stored state.
\<close>

theorem live_resizes_once:
  assumes "\<not> over api aw \<or> \<not> contains_finalizer (lib api) aw finalizerName"
  shows "\<exists>es. trace (snd (reconcileAppWrapper api aw s)) = trace s @ es \<and> length (filter resizes es) \<le> 1"
proof (cases "contains_finalizer (lib api) aw finalizerName")
  case True
  with assms have "reconcileAppWrapper api aw s = scaleOut api aw s"
    by (simp add: reconcileAppWrapper_def over_def)
  then show ?thesis using boundedD [OF bounded_scaleOut prod.collapse [symmetric]] by metis
next
  case False
  then have "emits (\<lambda>e. \<not> resizes e) (reconcileAppWrapper api aw)"
    unfolding reconcileAppWrapper_def by (auto intro!: emits_intros)
  from emitsD [OF this prod.collapse [symmetric]] obtain es where
    "trace (snd (reconcileAppWrapper api aw s)) = trace s @ es" "list_all (\<lambda>e. \<not> resizes e) es" by metis
  moreover from this(2) have "filter resizes es = []" by (simp add: list_all_iff filter_empty_conv)
  ultimately show ?thesis by simp
qed

text \<open>Two machine sets of the type are listed: one is changed.\<close>

theorem live_resizes_once_witness:
  "\<exists>es. trace (snd (reconcileAppWrapper ref_api job (ready reuse_config MachineTypeMachineSet
      (machinesets_on [machineset_m5 openshift_ns [] 1, (machineset_m5 openshift_ns [] 4)\<lparr>ms_name := ''set2''\<rparr>])))) = es \<and>
    list_ex resizes es \<and> length (filter resizes es) \<le> 1"
proof -
  let ?s = "ready reuse_config MachineTypeMachineSet
    (machinesets_on [machineset_m5 openshift_ns [] 1, (machineset_m5 openshift_ns [] 4)\<lparr>ms_name := ''set2''\<rparr>])"
  have "\<not> over ref_api job" by code_simp
  then obtain es where "trace (snd (reconcileAppWrapper ref_api job ?s)) = trace ?s @ es" "length (filter resizes es) \<le> 1"
    using live_resizes_once [of ref_api job ?s] by blast
  moreover have "list_ex resizes (trace (snd (reconcileAppWrapper ref_api job ?s)))" by code_simp
  ultimately show ?thesis unfolding ready_fields append_Nil by blast
qed

subsection \<open>A completed AppWrapper\<close>

text \<open>The documented behaviour of the finalizer functions of controller-runtime.\<close>

definition finalizer_laws :: "lib \<Rightarrow> bool" where
  "finalizer_laws l \<longleftrightarrow> (\<forall>aw f. contains_finalizer l (add_finalizer l aw f) f \<and>
     \<not> contains_finalizer l (remove_finalizer l aw f) f \<and>
     aw_state (add_finalizer l aw f) = aw_state aw \<and> aw_state (remove_finalizer l aw f) = aw_state aw)"

lemma finalizer_laws_ref: "finalizer_laws (lib ref_api)"
  by (simp add: finalizer_laws_def ref_api_def ref_lib_def)

text \<open>
  C34 (completed_toggles_finalizer): every reconciliation of a completed AppWrapper that returns without
  an error ends with an update of the AppWrapper. What it sends has the finalizer exactly if the
  AppWrapper had it not, and is completed still. So the reconciler never comes to rest on a completed
  AppWrapper: the next reconciliation undoes what this one has done to the object.
\<close>

theorem completed_toggles_finalizer:
  assumes "finalizer_laws (lib api)" and "aw_state aw = state_completed (lib api)"
    and "fst (reconcileAppWrapper api aw s) = Ok (res, None)"
  shows "\<exists>es aw' ans. trace (snd (reconcileAppWrapper api aw s)) = trace s @ es @ [UpdateAppWrapper aw' ans] \<and>
    (contains_finalizer (lib api) aw' finalizerName \<longleftrightarrow> \<not> contains_finalizer (lib api) aw finalizerName) \<and>
    aw_state aw' = state_completed (lib api)"
proof (cases "contains_finalizer (lib api) aw finalizerName")
  case True
  have "over api aw" using assms(2) by (simp add: over_def)
  from True this prod.collapse [symmetric] show ?thesis
  proof (cases rule: reconcile_over [where s = s])
    case (released s' ans)
    obtain es where "trace s' = trace s @ es"
      using emitsD [OF finalize_no_aw_write released(1)] by metis
    with released assms(1,2) True show ?thesis
      unfolding finalizer_laws_def
      by (intro exI [of _ es] exI [of _ "remove_finalizer (lib api) aw finalizerName"] exI [of _ ans]) simp
  qed (use assms(3) in simp_all)
next
  case False
  obtain ans t where u: "update_appwrapper api (add_finalizer (lib api) aw finalizerName) s = (Ok ans, t)"
    "trace t = trace s @ [UpdateAppWrapper (add_finalizer (lib api) aw finalizerName) ans]"
    by (rule update_appwrapper_returns)
  with False have "snd (reconcileAppWrapper api aw s) = t"
    by (auto simp: reconcileAppWrapper_def bnd_def ret_def split: prod.splits option.splits)
  with u False assms(1,2) show ?thesis
    unfolding finalizer_laws_def
    by (intro exI [of _ "[]"] exI [of _ "add_finalizer (lib api) aw finalizerName"] exI [of _ ans]) simp
qed

theorem completed_toggles_finalizer_witness:
  "\<exists>es aw' ans. trace (snd (reconcileAppWrapper ref_api completed_job
      (ready reuse_config MachineTypeMachineSet (empty_cluster\<lparr>c_appwrappers := [completed_job]\<rparr>)))) =
      es @ [UpdateAppWrapper aw' ans] \<and>
    \<not> contains_finalizer (lib ref_api) aw' finalizerName \<and> aw_state aw' = state_completed (lib ref_api)"
proof -
  let ?s = "ready reuse_config MachineTypeMachineSet (empty_cluster\<lparr>c_appwrappers := [completed_job]\<rparr>)"
  have c: "aw_state completed_job = state_completed (lib ref_api)" by code_simp
  have f: "contains_finalizer (lib ref_api) completed_job finalizerName" by code_simp
  have "fst (reconcileAppWrapper ref_api completed_job ?s) = Ok (no_requeue, None)" by code_simp
  from completed_toggles_finalizer [OF finalizer_laws_ref c this] f show ?thesis
    unfolding ready_fields append_Nil by blast
qed

end
