(* ===== verification/Lifecycle.thy ===== *)
theory Lifecycle
  imports Controller
begin

text \<open>
  The controller over time: from a fresh reconciler, as \<open>main\<close> makes it, through
  \<open>SetupWithManager\<close> and any number of reconciliations, between which the rest of the world does
  whatever it wants. The invariant \<open>set_up\<close> ties the machine type, the limits and the OCM token to the
  configuration, and decides which API the controller may use. It is proved with the program order
  \<open>in_mode\<close>. A second order, \<open>balanced\<close> of theory OcmManager, shows that no connection is left
  open, and a third, on the machine types, that the machine type moves at most once.
\<close>

subsection \<open>Steps\<close>

text \<open>The fields of a reconciler that \<open>main\<close> builds from the clients and a configuration.\<close>

definition fresh :: "config \<Rightarrow> 'w gstate \<Rightarrow> bool" where
  "fresh cfg s \<longleftrightarrow> Config s = cfg \<and> ocmClusterID s = [] \<and> ocmToken s = [] \<and> ocmConnection s = None \<and>
     MachineType s = MachineTypeNone \<and> \<not> machineCheck s \<and> machineNameCharacterLimit s = 0"

text \<open>
  The manager calls \<open>Reconcile\<close> one at a time, for any key. In between, the other actors change the
  world, the random source moves on, and the rest of the process makes calls of its own.
\<close>

inductive step :: "'w api \<Rightarrow> 'w gstate \<Rightarrow> 'w gstate \<Rightarrow> bool" for api where
  reconciled: "Reconcile api req s = (r, t) \<Longrightarrow> step api s t"
| elsewhere: "list_all (\<lambda>e. kind e = ProcessCall) es \<Longrightarrow>
    step api s (s\<lparr>world := w, trace := trace s @ es, entropy := e\<rparr>)"

inductive_cases stepE: "step api s t"

inductive reachable :: "'w api \<Rightarrow> 'w setup_api \<Rightarrow> config \<Rightarrow> 'w gstate \<Rightarrow> bool" for api mgr cfg where
  started: "fresh cfg s \<Longrightarrow> SetupWithManager api mgr s = (Ok None, t) \<Longrightarrow>
    trace t = trace s @ es @ [RegisterController None] \<Longrightarrow> reachable api mgr cfg t"
| stepped: "reachable api mgr cfg s \<Longrightarrow> step api s t \<Longrightarrow> reachable api mgr cfg t"

subsection \<open>The invariant\<close>

definition set_up :: "config \<Rightarrow> 'w gstate \<Rightarrow> bool" where
  "set_up cfg s \<longleftrightarrow> Config s = cfg \<and> maxScaleNodesAllowed s = sint (MaxScaleoutAllowed cfg) \<and>
     machineNameCharacterLimit s = (if MachineType s = MachineTypeNodePool then 15 else 30) \<and>
     (if OCMSecretRef cfg = None then MachineType s = MachineTypeMachineSet
      else MachineType s \<in> {MachineTypeMachinePool, MachineTypeNodePool} \<and> ocmToken s \<noteq> [])"

lemma set_up_mode:
  assumes "set_up cfg s"
  shows "Config s = cfg" "OCMSecretRef cfg = None \<Longrightarrow> MachineType s = MachineTypeMachineSet"
    "OCMSecretRef cfg \<noteq> None \<Longrightarrow> MachineType s = MachineTypeMachinePool \<or> MachineType s = MachineTypeNodePool"
  using assms by (auto simp: set_up_def split: if_splits)

definition set_up_fields :: "'w gstate \<Rightarrow> config \<times> int \<times> int \<times> machine_type \<times> string" where
  "set_up_fields s = (Config s, maxScaleNodesAllowed s, machineNameCharacterLimit s, MachineType s, ocmToken s)"

lemma outside_set_up_fields: "outside set_up_fields"
  by (simp add: outside_def set_up_fields_def)

lemma set_up_fields_connection: "set_up_fields (s\<lparr>ocmConnection := c\<rparr>) = set_up_fields s"
  by (simp add: set_up_fields_def)

lemma set_up_same: "set_up_fields t = set_up_fields s \<Longrightarrow> set_up cfg t \<longleftrightarrow> set_up cfg s"
  by (simp add: set_up_def set_up_fields_def)

definition allowed :: "config \<Rightarrow> call_kind \<Rightarrow> bool" where
  "allowed cfg k \<longleftrightarrow> k \<noteq> (if OCMSecretRef cfg = None then OcmApi else MachineApi)"

definition in_mode :: "config \<Rightarrow> 'w gstate \<Rightarrow> 'w gstate \<Rightarrow> bool" where
  "in_mode cfg s t \<longleftrightarrow> (set_up cfg s \<longrightarrow> set_up cfg t \<and> extends (\<lambda>e. allowed cfg (kind e)) s t)"

interpretation in_mode: program_order "in_mode cfg" for cfg
proof unfold_locales
  show "in_mode cfg s s" for s :: "'w gstate"
    by (simp add: in_mode_def extends.order_refl)
  fix s t u :: "'w gstate"
  assume st: "in_mode cfg s t" and tu: "in_mode cfg t u"
  show "in_mode cfg s u"
    unfolding in_mode_def
  proof
    assume "set_up cfg s"
    with st have t: "set_up cfg t" "extends (\<lambda>e. allowed cfg (kind e)) s t" by (simp_all add: in_mode_def)
    with tu have u: "set_up cfg u" "extends (\<lambda>e. allowed cfg (kind e)) t u" by (simp_all add: in_mode_def)
    show "set_up cfg u \<and> extends (\<lambda>e. allowed cfg (kind e)) s u"
      using u(1) extends.order_trans [OF t(2) u(2)] ..
  qed
qed

lemma in_mode_quiet:
  assumes "uses K m" "\<forall>k \<in> K. allowed cfg k" "stays_in (same set_up_fields) m"
  shows "stays_in (in_mode cfg) m"
proof -
  have "emits (\<lambda>e. allowed cfg (kind e)) m"
    by (rule emits_mono [OF assms(1)]) (use assms(2) in blast)
  moreover have "set_up cfg (snd (m s)) \<longleftrightarrow> set_up cfg s" for s
    using assms(3) unfolding stays_in_def same_def by (intro set_up_same) blast
  ultimately show ?thesis
    by (simp add: stays_in_def in_mode_def)
qed

text \<open>What is read from the state satisfies the invariant.\<close>

lemma in_mode_gets:
  assumes "\<And>s. set_up cfg s \<Longrightarrow> stays_in (in_mode cfg) (k (f s))"
  shows "stays_in (in_mode cfg) (bnd (gets f) k)"
  using assms by (auto simp: stays_in_def in_mode_def bnd_def gets_def)

lemma in_mode_modify:
  assumes "\<And>s. trace (f s) = trace s" "\<And>s. set_up cfg s \<Longrightarrow> set_up cfg (f s)"
  shows "stays_in (in_mode cfg) (modify f)"
  using assms by (simp add: stays_in_def in_mode_def modify_def extends_def)

lemma keeps_set_up_parts:
  "stays_in (same set_up_fields) (reconcileReuseMachineSet api aw demand)"
  "stays_in (same set_up_fields) (reconcileCreateMachineSet api aw demand)"
  "stays_in (same set_up_fields) (annotateToDeleteMachine api aw)"
  "stays_in (same set_up_fields) (swapNodeLabels api aw aw')"
  "stays_in (same set_up_fields) (deleteMachineSet api aw)"
  "stays_in (same set_up_fields) (scaleMachinePool api aw demand)"
  "stays_in (same set_up_fields) (deleteMachinePool api aw)"
  "stays_in (same set_up_fields) (scaleNodePool api aw demand)"
  "stays_in (same set_up_fields) (deleteNodePool api aw)"
  "stays_in (same set_up_fields) (get_appwrapper api req)"
  "stays_in (same set_up_fields) (update_appwrapper api aw)"
  by (intro frame_intros outside_set_up_fields set_up_fields_connection)+

lemma keeps_findExactMatch: "stays_in (same set_up_fields) (findExactMatch api aw)"
  unfolding findExactMatch_def by (intro frame_intros outside_set_up_fields)

lemma keeps_ocm_checks:
  "stays_in (same set_up_fields) (getOCMClusterID api)"
  "stays_in (same set_up_fields) (checkHypershiftEnabled api)"
  unfolding getOCMClusterID_def
  by (intro frame_intros keeps_modify outside_set_up_fields set_up_fields_connection; simp add: set_up_fields_def)+

lemma in_mode_machinesets:
  assumes "OCMSecretRef cfg = None"
  shows "stays_in (in_mode cfg) (reconcileReuseMachineSet api aw demand)"
    "stays_in (in_mode cfg) (reconcileCreateMachineSet api aw demand)"
    "stays_in (in_mode cfg) (annotateToDeleteMachine api aw)"
    "stays_in (in_mode cfg) (swapNodeLabels api aw aw')"
    "stays_in (in_mode cfg) (deleteMachineSet api aw)"
  by (rule in_mode_quiet [of "{MachineApi}"], (rule uses_parts, simp),
      simp add: allowed_def assms, rule keeps_set_up_parts)+

lemma in_mode_pools:
  assumes "OCMSecretRef cfg \<noteq> None"
  shows "stays_in (in_mode cfg) (scaleMachinePool api aw demand)"
    "stays_in (in_mode cfg) (deleteMachinePool api aw)"
    "stays_in (in_mode cfg) (scaleNodePool api aw demand)"
    "stays_in (in_mode cfg) (deleteNodePool api aw)"
  by (rule in_mode_quiet [of "{OcmApi}"], (rule uses_parts, simp),
      simp add: allowed_def assms, rule keeps_set_up_parts)+

lemma in_mode_appwrapper_calls:
  "stays_in (in_mode cfg) (get_appwrapper api req)"
  "stays_in (in_mode cfg) (update_appwrapper api aw)"
  "stays_in (in_mode cfg) (findExactMatch api aw)"
proof -
  show "stays_in (in_mode cfg) (get_appwrapper api req)"
    by (rule in_mode_quiet [of "{AppWrapperRead}"], intro emits_intros)
      (simp_all add: allowed_def keeps_set_up_parts)
  show "stays_in (in_mode cfg) (update_appwrapper api aw)"
    by (rule in_mode_quiet [of "{AppWrapperWrite}"], intro emits_intros)
      (simp_all add: allowed_def keeps_set_up_parts)
  show "stays_in (in_mode cfg) (findExactMatch api aw)"
    by (rule in_mode_quiet [of "{AppWrapperRead}"], rule uses_findExactMatch)
      (simp_all add: allowed_def keeps_findExactMatch)
qed

lemma in_mode_setMachineType:
  assumes "OCMSecretRef cfg \<noteq> None"
  shows "stays_in (in_mode cfg) (setMachineType api)"
proof -
  have "uses {ClusterInfo, OcmApi} (getOCMClusterID api)" "uses {ClusterInfo, OcmApi} (checkHypershiftEnabled api)"
    unfolding getOCMClusterID_def by (intro emits_intros; simp)+
  from in_mode_quiet [OF this(1) _ keeps_ocm_checks(1)] in_mode_quiet [OF this(2) _ keeps_ocm_checks(2)]
  have checks: "stays_in (in_mode cfg) (getOCMClusterID api)" "stays_in (in_mode cfg) (checkHypershiftEnabled api)"
    by (simp_all add: allowed_def assms)
  have switch: "stays_in (in_mode cfg)
      (modify (\<lambda>s. s\<lparr>MachineType := MachineTypeNodePool, machineNameCharacterLimit := 15\<rparr>))"
    by (rule in_mode_modify) (use assms in \<open>auto simp: set_up_def\<close>)
  show ?thesis
    unfolding setMachineType_def by (intro in_mode.stays_rules checks switch)
qed

lemmas in_mode_steps = in_mode_appwrapper_calls in_mode_gets in_mode.stays_bnd in_mode.stays_ret
  in_mode.stays_option in_mode.stays_pair in_mode.stays_if

lemma in_mode_finalize: "stays_in (in_mode cfg) (finalizeScalingDownMachines api aw)"
proof -
  have msg: "stays_in (in_mode cfg) (modify (\<lambda>s. s\<lparr>deletionMessage := m\<rparr>))" for m
    by (rule in_mode_modify) (auto simp: set_up_def)
  have act: "stays_in (in_mode cfg) (case MachineType s of
       MachineTypeMachineSet \<Rightarrow>
         bnd (gets Config) (\<lambda>cfg.
         if to_lower (MachineSetsStrategy cfg) = ''reuse'' then
           bnd (findExactMatch api aw) (\<lambda>matchedAw. case matchedAw of
             Some aw' \<Rightarrow> swapNodeLabels api aw aw'
           | None \<Rightarrow> annotateToDeleteMachine api aw)
         else if to_lower (MachineSetsStrategy cfg) = ''duplicate'' then deleteMachineSet api aw
         else ret None)
     | MachineTypeNodePool \<Rightarrow> bnd (deleteNodePool api aw) (\<lambda>(_, err). ret err)
     | MachineTypeMachinePool \<Rightarrow> bnd (deleteMachinePool api aw) (\<lambda>(_, err). ret err)
     | MachineTypeNone \<Rightarrow> ret None)" if s: "set_up cfg s" for s :: "'a gstate"
  proof (cases "OCMSecretRef cfg")
    case None
    then show ?thesis
      unfolding set_up_mode(2) [OF s None] machine_type.case
      by (intro in_mode_steps in_mode_machinesets)
  next
    case (Some ref)
    then have "OCMSecretRef cfg \<noteq> None" by simp
    from set_up_mode(3) [OF s this] in_mode_pools [OF this] show ?thesis
      by (elim disjE) (auto intro!: in_mode_steps)
  qed
  show ?thesis
    unfolding finalizeScalingDownMachines_def Let_def
    by (rule in_mode.stays_bnd, rule msg, rule in_mode_gets, rule act)
qed

lemma in_mode_scaleOut: "stays_in (in_mode cfg) (scaleOut api aw)"
proof (cases "OCMSecretRef cfg")
  case None
  then show ?thesis
    unfolding scaleOut_def Let_def
    by (auto simp: set_up_mode(1) intro!: in_mode_steps in_mode_machinesets)
next
  case (Some ref)
  then have some: "OCMSecretRef cfg \<noteq> None" by simp
  have act: "stays_in (in_mode cfg) (case MachineType s of
      MachineTypeNone \<Rightarrow> ret (no_requeue, None) | MachineTypeMachineSet \<Rightarrow> ret (no_requeue, None)
    | MachineTypeMachinePool \<Rightarrow> scaleMachinePool api aw demand
    | MachineTypeNodePool \<Rightarrow> scaleNodePool api aw demand)"
    if "set_up cfg s" for demand and s :: "'a gstate"
    using set_up_mode(3) [OF that some] in_mode_pools [OF some] by (elim disjE) simp_all
  have "stays_in (in_mode cfg) (if OCMSecretRef (Config s) \<noteq> None then bnd (gets MachineType) (\<lambda>mt. case mt of
        MachineTypeNone \<Rightarrow> ret (no_requeue, None) | MachineTypeMachineSet \<Rightarrow> ret (no_requeue, None)
      | MachineTypeMachinePool \<Rightarrow> scaleMachinePool api aw demand
      | MachineTypeNodePool \<Rightarrow> scaleNodePool api aw demand) else m)"
    if s: "set_up cfg s" for demand m and s :: "'a gstate"
    unfolding set_up_mode(1) [OF s] if_P [OF some] by (rule in_mode_gets, rule act)
  note branch = this
  show ?thesis
    unfolding scaleOut_def Let_def
    by (rule in_mode.stays_if, rule in_mode_gets, rule branch, assumption, rule in_mode.stays_ret)
qed

lemma in_mode_Reconcile: "stays_in (in_mode cfg) (Reconcile api req)"
proof -
  have aw: "stays_in (in_mode cfg) (reconcileAppWrapper api aw)" for aw
    unfolding reconcileAppWrapper_def by (intro in_mode_steps in_mode_finalize in_mode_scaleOut)
  have check: "stays_in (in_mode cfg) (modify (\<lambda>s. s\<lparr>machineCheck := True\<rparr>))"
    by (rule in_mode_modify) (auto simp: set_up_def)
  have "stays_in (in_mode cfg) (if \<not> b \<and> MachineType s \<noteq> MachineTypeMachineSet then setMachineType api else ret None)"
    if "set_up cfg s" for b and s :: "'a gstate"
    using set_up_mode(2) [OF that] by (cases "OCMSecretRef cfg") (auto intro!: in_mode_setMachineType in_mode.stays_ret)
  note first = this
  show ?thesis
    unfolding Reconcile_def
    by (rule in_mode_gets, rule in_mode_gets, rule in_mode.stays_bnd, rule first, assumption)
      (intro in_mode_steps aw check)
qed

subsection \<open>Set-up\<close>

text \<open>
  Where the set-up ends: with an error; registered, in a state that satisfies the invariant; or at
  the missing token, with no error and nothing registered.
\<close>

lemma SetupWithManager_outcomes:
  assumes "SetupWithManager api mgr s = (Ok err, t)"
  obtains (failed) e where "err = Some e"
    | (registered) es where "err = None" "trace t = trace s @ es @ [RegisterController None]"
        "Config t = Config s" "machineCheck t = machineCheck s" "set_up (Config s) t"
    | (no_token) ref sec where "err = None" "OCMSecretRef (Config s) = Some ref"
        "trace t = trace s @ [NewKubeClient None, GetSecret (ref_namespace ref, ref_name ref) (sec, None)]"
        "dict_index (sec_data sec) ''token'' = []" "MachineType t = MachineTypeMachineSet"
proof -
  obtain kerr s1 where kube: "call NewKubeClient (s_new_kube_client mgr) (s\<lparr>machineNameCharacterLimit := 30\<rparr>) = (Ok kerr, s1)"
    using call_returns by blast
  show thesis
  proof (cases "kerr = None \<and> err = None")
    case False
    with assms kube have "err \<noteq> None"
      by (auto simp: SetupWithManager_def bnd_run modify_run ret_run split: option.splits)
    then show thesis using failed by blast
  next
    case True
    then have err: "err = None" and kube: "call NewKubeClient (s_new_kube_client mgr) (s\<lparr>machineNameCharacterLimit := 30\<rparr>) = (Ok None, s1)"
      using kube by simp_all
    from kube have s1: "trace s1 = trace s @ [NewKubeClient None]" "Config s1 = Config s" "machineCheck s1 = machineCheck s"
      "machineNameCharacterLimit s1 = 30"
      by (auto simp: call_def split: prod.splits)
    show thesis
    proof (cases "OCMSecretRef (Config s)")
      case None
      with assms kube s1 err show thesis
        by (intro registered [of "[NewKubeClient None]"])
          (auto simp: SetupWithManager_def bnd_run modify_run gets_run call_def set_up_def split: prod.splits)
    next
      case (Some ref)
      let ?s2 = "s1\<lparr>maxScaleNodesAllowed := sint (MaxScaleoutAllowed (Config s)), MachineType := MachineTypeMachineSet\<rparr>"
      let ?k = "(ref_namespace ref, ref_name ref)"
      obtain sec serr s3 where sec: "getOCMSecret api ref ?s2 = (Ok (sec, serr), s3)"
        unfolding getOCMSecret_def get_secret_def using call_returns by (metis surj_pair)
      then have s3: "trace s3 = trace s1 @ [GetSecret ?k (sec, serr)]" "Config s3 = Config s" "machineCheck s3 = machineCheck s"
        "machineNameCharacterLimit s3 = 30" "maxScaleNodesAllowed s3 = sint (MaxScaleoutAllowed (Config s))"
        "MachineType s3 = MachineTypeMachineSet"
        using s1 by (auto simp: getOCMSecret_def get_secret_def call_def split: prod.splits)
      have rest: "(case serr of
             Some e \<Rightarrow> ret (Some e)
           | None \<Rightarrow>
               if length (dict_index (sec_data sec) ''token'') > 0 then
                 bnd (modify (\<lambda>s. s\<lparr>ocmToken := dict_index (sec_data sec) ''token'', MachineType := MachineTypeMachinePool\<rparr>)) (\<lambda>_.
                 call RegisterController (s_register mgr))
               else ret serr) s3 = (Ok None, t)"
        using assms kube s1 sec Some err
        by (cases serr; cases "dict_index (sec_data sec) ''token'' = []")
          (simp_all add: SetupWithManager_def bnd_run modify_run gets_run Let_def)
      then have serr: "serr = None" by (auto split: option.splits)
      show thesis
      proof (cases "dict_index (sec_data sec) ''token'' = []")
        case True
        with rest serr err Some s1 s3 show thesis by (intro no_token [of ref sec]) simp_all
      next
        case False
        with rest serr have "bnd (modify (\<lambda>s. s\<lparr>ocmToken := dict_index (sec_data sec) ''token'',
            MachineType := MachineTypeMachinePool\<rparr>)) (\<lambda>_. call RegisterController (s_register mgr)) s3 = (Ok None, t)"
          by simp
        with False serr err Some s1 s3 show thesis
          by (intro registered [of "[NewKubeClient None, GetSecret ?k (sec, None)]"])
            (auto simp: bnd_run modify_run call_def set_up_def split: prod.splits)
      qed
    qed
  qed
qed

lemma reachable_set_up: "reachable api mgr cfg s \<Longrightarrow> set_up cfg s"
proof (induction rule: reachable.induct)
  case (started s t es)
  from started(2) show ?case
  proof (cases rule: SetupWithManager_outcomes)
    case (registered fs)
    with started(1) show ?thesis by (simp add: fresh_def)
  next
    case (no_token ref sec)
    with started(3) have "last [NewKubeClient None, GetSecret (ref_namespace ref, ref_name ref) (sec, None)] =
        last (es @ [RegisterController None])" by (metis same_append_eq)
    then show ?thesis by simp
  qed simp
next
  case (stepped s t)
  from stepped(2) show ?case
  proof (rule stepE)
    fix req r
    assume "Reconcile api req s = (r, t)"
    with in_mode_Reconcile [of cfg api req] stepped(3) show ?thesis
      unfolding stays_in_def in_mode_def by (metis snd_conv)
  next
    fix es w e
    assume "t = s\<lparr>world := w, trace := trace s @ es, entropy := e\<rparr>"
    with stepped(3) show ?thesis by (auto simp: set_up_def)
  qed
qed

subsection \<open>Connections\<close>

lemma no_connection_kind: "kind e \<noteq> OcmApi \<Longrightarrow> no_connection e"
  by (cases e) (simp_all add: no_connection_def)

lemma balanced_uses: "OcmApi \<notin> K \<Longrightarrow> uses K m \<Longrightarrow> stays_in balanced m"
  by (rule balanced_emits, erule emits_mono, rule no_connection_kind) auto

lemma balanced_machinesets:
  "stays_in balanced (reconcileReuseMachineSet api aw demand)"
  "stays_in balanced (reconcileCreateMachineSet api aw demand)"
  "stays_in balanced (annotateToDeleteMachine api aw)"
  "stays_in balanced (swapNodeLabels api aw aw')"
  "stays_in balanced (deleteMachineSet api aw)"
  by (rule balanced_uses [of "{MachineApi}"], simp, rule uses_parts, simp)+

lemma balanced_findExactMatch: "stays_in balanced (findExactMatch api aw)"
  by (rule balanced_uses [of "{AppWrapperRead}"], simp, rule uses_findExactMatch, simp)

lemma balanced_machine_type:
  assumes "\<And>t. stays_in balanced (k t)"
  shows "stays_in balanced (bnd (gets MachineType) k)"
  by (rule balanced.stays_bnd, rule balanced.stays_gets, rule assms)

lemmas balanced_parts = balanced_machinesets balanced_findExactMatch balanced_scaleMachinePool
  balanced_deleteMachinePool balanced_scaleNodePool balanced_deleteNodePool
  balanced_getOCMClusterID balanced_checkHypershiftEnabled balanced_rules

lemma balanced_Reconcile:
  assumes "closes_returns api"
  shows "stays_in balanced (Reconcile api req)"
proof -
  have fin: "stays_in balanced (finalizeScalingDownMachines api aw)" for aw
    unfolding finalizeScalingDownMachines_def Let_def
    by (auto intro!: balanced_parts assms split: machine_type.split)
  have out: "stays_in balanced (scaleOut api aw)" for aw
    unfolding scaleOut_def Let_def by (auto intro!: balanced_parts assms split: machine_type.split)
  have mty: "stays_in balanced (setMachineType api)"
    unfolding setMachineType_def by (intro balanced_parts assms) simp_all
  have aw: "stays_in balanced (reconcileAppWrapper api aw)" for aw
    unfolding reconcileAppWrapper_def by (intro balanced_parts fin out)
  show ?thesis
    unfolding Reconcile_def by (intro balanced_parts aw mty) simp_all
qed

subsection \<open>Machine types\<close>

text \<open>The machine types in the order in which a controller may go through them.\<close>

fun type_rank :: "machine_type \<Rightarrow> nat" where
  "type_rank MachineTypeNone = 0"
| "type_rank MachineTypeMachineSet = 1"
| "type_rank MachineTypeMachinePool = 2"
| "type_rank MachineTypeNodePool = 3"

lemma type_rank_inject: "type_rank a = type_rank b \<longleftrightarrow> a = b"
  by (cases a; cases b) simp_all

instantiation machine_type :: linorder
begin

definition less_eq_machine_type :: "machine_type \<Rightarrow> machine_type \<Rightarrow> bool" where
  "a \<le> b \<longleftrightarrow> type_rank a \<le> type_rank b"

definition less_machine_type :: "machine_type \<Rightarrow> machine_type \<Rightarrow> bool" where
  "a < b \<longleftrightarrow> type_rank a < type_rank b"

instance
  by standard (auto simp: less_eq_machine_type_def less_machine_type_def type_rank_inject [symmetric])

end

lemma MachineTypeNodePool_greatest: "t \<le> MachineTypeNodePool"
  by (cases t) (simp_all add: less_eq_machine_type_def)

definition type_and_check :: "'w gstate \<Rightarrow> machine_type \<times> bool" where
  "type_and_check s = (MachineType s, machineCheck s)"

definition type_grows :: "'w gstate \<Rightarrow> 'w gstate \<Rightarrow> bool" where
  "type_grows s t \<longleftrightarrow> MachineType s \<le> MachineType t \<and>
     (MachineType t \<noteq> MachineType s \<longrightarrow> MachineType t = MachineTypeNodePool) \<and> (machineCheck s \<longrightarrow> machineCheck t)"

interpretation type_grows: program_order type_grows
  by unfold_locales (auto simp: type_grows_def)

lemma type_grows_keeps:
  assumes "stays_in (same type_and_check) m"
  shows "stays_in type_grows m"
  using assms by (auto simp: stays_in_def same_def type_grows_def type_and_check_def)

lemma outside_type_and_check: "outside type_and_check"
  by (simp add: outside_def type_and_check_def)

lemma type_and_check_connection: "type_and_check (s\<lparr>ocmConnection := c\<rparr>) = type_and_check s"
  by (simp add: type_and_check_def)

lemma keeps_setMachineType_parts:
  "stays_in (same type_and_check) (getOCMClusterID api)"
  "stays_in (same type_and_check) (checkHypershiftEnabled api)"
  unfolding getOCMClusterID_def
  by (intro frame_intros keeps_modify outside_type_and_check type_and_check_connection; simp add: type_and_check_def)+

lemma type_grows_setMachineType: "stays_in type_grows (setMachineType api)"
proof -
  have switch: "stays_in type_grows (modify (\<lambda>s. s\<lparr>MachineType := MachineTypeNodePool, machineNameCharacterLimit := 15\<rparr>))"
    by (simp add: stays_in_def modify_def type_grows_def MachineTypeNodePool_greatest)
  show ?thesis
    unfolding setMachineType_def
    by (intro type_grows.stays_rules switch type_grows_keeps keeps_setMachineType_parts)
qed

lemma keeps_reconcileAppWrapper: "stays_in (same type_and_check) (reconcileAppWrapper api aw)"
proof -
  have types: "stays_in (same type_and_check) (case mt of MachineTypeNone \<Rightarrow> a | MachineTypeMachineSet \<Rightarrow> b
      | MachineTypeMachinePool \<Rightarrow> c | MachineTypeNodePool \<Rightarrow> d)"
    if "stays_in (same type_and_check) a" "stays_in (same type_and_check) b"
      "stays_in (same type_and_check) c" "stays_in (same type_and_check) d"
    for mt and a b c d :: "('a gstate, 'b) prog"
    using that by (cases mt) simp_all
  have msg: "stays_in (same type_and_check) (modify (\<lambda>s. s\<lparr>deletionMessage := m\<rparr>))" for m
    by (rule keeps_modify) (simp add: type_and_check_def)
  have fin: "stays_in (same type_and_check) (finalizeScalingDownMachines api aw)"
    unfolding finalizeScalingDownMachines_def findExactMatch_def Let_def
    by (intro frame_intros types msg outside_type_and_check type_and_check_connection)
  have out: "stays_in (same type_and_check) (scaleOut api aw)"
    unfolding scaleOut_def Let_def
    by (intro frame_intros types outside_type_and_check type_and_check_connection)
  show ?thesis
    unfolding reconcileAppWrapper_def by (intro frame_intros fin out outside_type_and_check)
qed

lemma type_grows_Reconcile: "stays_in type_grows (Reconcile api req)"
proof -
  have check: "stays_in type_grows (modify (\<lambda>s. s\<lparr>machineCheck := True\<rparr>))"
    by (simp add: stays_in_def modify_def type_grows_def)
  have get: "stays_in type_grows (get_appwrapper api req)"
    by (intro type_grows_keeps frame_intros outside_type_and_check)
  show ?thesis
    unfolding Reconcile_def
    by (intro type_grows.stays_rules check get type_grows_setMachineType
        type_grows_keeps [OF keeps_reconcileAppWrapper])
qed

text \<open>After the check, a reconciliation is a read of the AppWrapper and its reconciliation.\<close>

definition reconcile_checked :: "'w api \<Rightarrow> key \<Rightarrow> ('w gstate, reconcile_ret) prog" where
  "reconcile_checked api req =
     bnd (modify (\<lambda>s. s\<lparr>machineCheck := True\<rparr>)) (\<lambda>_.
     bnd (get_appwrapper api req) (\<lambda>(appwrapper, err). case err of
       Some e \<Rightarrow> (if is_not_found (lib api) e then ret (no_requeue, None) else ret (no_requeue, Some e))
     | None \<Rightarrow> reconcileAppWrapper api appwrapper))"

lemma Reconcile_checked:
  "machineCheck s \<or> MachineType s = MachineTypeMachineSet \<Longrightarrow> Reconcile api req s = reconcile_checked api req s"
  by (auto simp: Reconcile_def reconcile_checked_def bnd_run gets_run ret_run)

lemma reconcile_checked_type: "stays_in (same MachineType) (reconcile_checked api req)"
proof -
  have "stays_in (same MachineType) (reconcileAppWrapper api aw)" for aw
    using keeps_reconcileAppWrapper [of api aw] by (auto simp: stays_in_def same_def type_and_check_def)
  then show ?thesis
    unfolding reconcile_checked_def by (intro frame_intros keeps_modify) simp_all
qed

subsection \<open>A start on the reference environment\<close>

definition ref_mgr :: "cluster setup_api" where
  "ref_mgr = \<lparr>s_new_kube_client = (\<lambda>w. (None, w)), s_register = (\<lambda>w. (None, w))\<rparr>"

definition secret_cluster :: "string \<Rightarrow> cluster" where
  "secret_cluster token = empty_cluster\<lparr>c_secrets := [\<lparr>sec_namespace = ''sys'', sec_name = ''ocm'',
     sec_data = Some [(''token'', token)]\<rparr>], c_appwrappers := [job], c_hypershift := True\<rparr>"

definition started_on :: "config \<Rightarrow> string \<Rightarrow> cluster gstate" where
  "started_on cfg token = snd (SetupWithManager ref_api ref_mgr (ref_state cfg (secret_cluster token)))"

lemma fresh_ref_state: "fresh cfg (ref_state cfg w)"
  by (simp add: fresh_def ref_state_def)

lemma started_reachable: "reachable ref_api ref_mgr ocm_config (started_on ocm_config ''token'')"
proof (rule reachable.started [OF fresh_ref_state])
  have "fst (SetupWithManager ref_api ref_mgr (ref_state ocm_config (secret_cluster ''token''))) = Ok None"
    by code_simp
  from run_eq [OF this]
  show "SetupWithManager ref_api ref_mgr (ref_state ocm_config (secret_cluster ''token'')) =
      (Ok None, started_on ocm_config ''token'')"
    unfolding started_on_def .
  have "trace (ref_state ocm_config (secret_cluster ''token'')) = []" by (simp add: ref_state_def)
  moreover have "trace (started_on ocm_config ''token'') =
      butlast (trace (started_on ocm_config ''token'')) @ [RegisterController None]" by code_simp
  ultimately show "trace (started_on ocm_config ''token'') = trace (ref_state ocm_config (secret_cluster ''token'')) @
      butlast (trace (started_on ocm_config ''token'')) @ [RegisterController None]" by simp
qed

subsection \<open>Properties\<close>

text \<open>
  C1 (reachable_separates_apis): in every reachable state, a reconciliation of a controller that was
  configured without an OCM secret makes no OCM call, and one with an OCM secret makes no call
  on machine sets, machines or nodes.
\<close>

theorem reachable_separates_apis:
  assumes "reachable api mgr cfg s"
  shows "\<exists>es. trace (snd (Reconcile api req s)) = trace s @ es \<and>
    list_all (\<lambda>e. kind e \<noteq> (if OCMSecretRef cfg = None then OcmApi else MachineApi)) es"
  using in_mode_Reconcile [of cfg api req] reachable_set_up [OF assms]
  by (simp add: stays_in_def in_mode_def extends_def allowed_def)

theorem reachable_separates_apis_witness:
  "\<exists>es. trace (snd (Reconcile ref_api (''ns'', ''job'') (started_on ocm_config ''token''))) =
      trace (started_on ocm_config ''token'') @ es \<and> list_all (\<lambda>e. kind e \<noteq> MachineApi) es"
  using reachable_separates_apis [OF started_reachable, of "(''ns'', ''job'')"] by (simp add: ocm_config_def)

text \<open>
  C7 (reachable_configured): in every reachable state the configuration is the one of the start, the
  node limit is its \<open>MaxScaleoutAllowed\<close> read as a signed number, the machine type is machine sets
  exactly when there is no OCM secret, and pools have a token; the limit on names is 15 characters for
  node pools and 30 otherwise, and a name is always generated within it.
\<close>

theorem reachable_configured:
  assumes "reachable api mgr cfg s"
  shows "Config s = cfg \<and> maxScaleNodesAllowed s = sint (MaxScaleoutAllowed cfg) \<and>
    (MachineType s = MachineTypeMachineSet \<longleftrightarrow> OCMSecretRef cfg = None) \<and>
    (OCMSecretRef cfg = None \<or> ocmToken s \<noteq> []) \<and>
    machineNameCharacterLimit s = (if MachineType s = MachineTypeNodePool then 15 else 30) \<and>
    (\<exists>name t. generateMachineName awName s = (Ok name, t) \<and> int (length name) \<le> machineNameCharacterLimit s)"
proof -
  from assms have "set_up cfg s" by (rule reachable_set_up)
  moreover from this have "5 \<le> machineNameCharacterLimit s" by (simp add: set_up_def)
  then have "wp (generateMachineName awName) (\<lambda>name _. int (length name) \<le> machineNameCharacterLimit s) (\<lambda>_. False) s"
    by (intro wp_generateMachineName)
      (use length_machine_name [of "machineNameCharacterLimit s" _ awName] in \<open>simp_all add: machine_name_def\<close>)
  then have "\<exists>name t. generateMachineName awName s = (Ok name, t) \<and> int (length name) \<le> machineNameCharacterLimit s"
    by (auto simp: wp_def split: prod.splits outcome.splits)
  ultimately show ?thesis by (auto simp: set_up_def split: if_splits)
qed

theorem reachable_configured_witness:
  "maxScaleNodesAllowed (started_on ocm_config ''token'') = 3 \<and>
    MachineType (started_on ocm_config ''token'') \<noteq> MachineTypeMachineSet"
  using reachable_configured [OF started_reachable]
  by (simp add: ocm_config_def reuse_config_def)

text \<open>
  C25 (machine_type_settles): a reconciliation keeps the machine type or changes it to node pools, never
  back, and it never resets the check; once the check has been made, or with machine sets, the type
  does not change any more.
\<close>

theorem machine_type_settles:
  "(let t = snd (Reconcile api req s) in
    MachineType s \<le> MachineType t \<and> MachineType t \<in> {MachineType s, MachineTypeNodePool} \<and>
    (machineCheck s \<longrightarrow> machineCheck t) \<and>
    (machineCheck s \<or> MachineType s = MachineTypeMachineSet \<longrightarrow> MachineType t = MachineType s))"
proof -
  let ?t = "snd (Reconcile api req s)"
  have "type_grows s ?t" using type_grows_Reconcile [of api req] by (simp add: stays_in_def)
  moreover have "MachineType ?t = MachineType s" if "machineCheck s \<or> MachineType s = MachineTypeMachineSet"
    using reconcile_checked_type [of api req] Reconcile_checked [OF that, of api req]
    by (simp add: stays_in_def same_def)
  ultimately show ?thesis by (auto simp: Let_def type_grows_def)
qed

theorem machine_type_settles_witness:
  "MachineType (snd (Reconcile ref_api (''ns'', ''job'') (ready ocm_config MachineTypeMachinePool (secret_cluster ''token'')))) =
    MachineTypeMachinePool"
proof -
  let ?s = "ready ocm_config MachineTypeMachinePool (secret_cluster ''token'')"
  have "machineCheck ?s" "MachineType ?s = MachineTypeMachinePool" by (simp_all add: ready_def)
  with machine_type_settles [of ref_api "(''ns'', ''job'')" ?s] show ?thesis by (simp add: Let_def)
qed

text \<open>
  C11 (connections_closed): a reconciliation closes every OCM connection it opens, by a close of that
  same connection and before it opens another one, on every path, panics included, if the close of an
  open connection returns.
\<close>

theorem connections_closed:
  assumes "closes_returns api"
  shows "\<exists>es. trace (snd (Reconcile api req s)) = trace s @ es \<and> track None es = Some None"
  using balanced_Reconcile [OF assms, of req] by (simp add: stays_in_def balanced_def)

theorem connections_closed_witness:
  "\<exists>es. trace (snd (Reconcile ref_api (''ns'', ''job'') (started_on ocm_config ''token''))) =
    trace (started_on ocm_config ''token'') @ es \<and> track None es = Some None"
proof (rule connections_closed)
  show "closes_returns ref_api" by (simp add: closes_returns_def ref_defs)
qed

text \<open>
  C26 (setup_outcomes): a set-up that returns no error has either registered the controller, as its
  last call, or has found an OCM secret without a token, and then nothing is registered although the
  caller is told of no error.
\<close>

theorem setup_outcomes:
  assumes "SetupWithManager api mgr s = (Ok None, t)"
  shows "(\<exists>es. trace t = trace s @ es @ [RegisterController None] \<and> set_up (Config s) t) \<or>
    (\<exists>ref sec. OCMSecretRef (Config s) = Some ref \<and> dict_index (sec_data sec) ''token'' = [] \<and>
      trace t = trace s @ [NewKubeClient None, GetSecret (ref_namespace ref, ref_name ref) (sec, None)])"
  using assms by (cases rule: SetupWithManager_outcomes) auto

theorem setup_outcomes_witness:
  "\<exists>(ref :: secret_ref) sec. trace (started_on ocm_config []) =
    [NewKubeClient None, GetSecret (ref_namespace ref, ref_name ref) (sec, None)]"
proof -
  let ?s = "ref_state ocm_config (secret_cluster [])"
  have "fst (SetupWithManager ref_api ref_mgr ?s) = Ok None" by code_simp
  from setup_outcomes [OF run_eq [OF this]] show ?thesis
  proof
    assume "\<exists>es. trace (snd (SetupWithManager ref_api ref_mgr ?s)) = trace ?s @ es @ [RegisterController None] \<and>
      set_up (Config ?s) (snd (SetupWithManager ref_api ref_mgr ?s))"
    then have "kind (last (trace (started_on ocm_config []))) = ProcessCall"
      unfolding started_on_def by (elim exE conjE) simp
    moreover have "kind (last (trace (started_on ocm_config []))) = ClusterInfo" by code_simp
    ultimately show ?thesis by simp
  next
    assume "\<exists>ref sec. OCMSecretRef (Config ?s) = Some ref \<and> dict_index (sec_data sec) ''token'' = [] \<and>
      trace (snd (SetupWithManager ref_api ref_mgr ?s)) =
        trace ?s @ [NewKubeClient None, GetSecret (ref_namespace ref, ref_name ref) (sec, None)]"
    then obtain ref :: secret_ref and sec where "trace (started_on ocm_config []) =
        trace ?s @ [NewKubeClient None, GetSecret (ref_namespace ref, ref_name ref) (sec, None)]"
      unfolding started_on_def by blast
    moreover have "trace ?s = []" by (simp add: ref_state_def)
    ultimately show ?thesis by (intro exI [of _ ref] exI [of _ sec]) simp
  qed
qed

end
