(* ===== verification/Startup.thy ===== *)
theory Startup
  imports Lifecycle
begin

text \<open>
  \<open>main.go\<close>: the process reads its configuration from a config map and an optional secret, makes the
  manager, sets up the reconciler and runs the manager. Every failure ends the process with exit
  code 1. The command-line flags and the logger are read before; of the flags only the two
  namespaces matter here, the others go to the manager as they are. \<open>mgr.Start\<close> blocks while the manager calls the
  reconciler, until the process is told to end; here it is one call, and the reconciliations are the steps
  that follow in the step relation of Lifecycle. Nothing in \<open>main\<close> reads or writes the reconciler's fields
  after that call, so the two agree on the state in which reconciliations run.
\<close>

record flags =
  configsNamespace :: string
  ocmSecretNamespace :: string

datatype exit = Exit int | Returned

text \<open>The calls of the process on client-go and on the manager.\<close>

record 'w process_api =
  p_new_kube_client :: "'w \<Rightarrow> go_error option \<times> 'w"
  p_get_configmap :: "key \<Rightarrow> 'w \<Rightarrow> dict answer \<times> 'w"
  p_new_manager :: "'w \<Rightarrow> go_error option \<times> 'w"
  p_setup :: "'w setup_api"
  p_add_check :: "string \<Rightarrow> 'w \<Rightarrow> go_error option \<times> 'w"
  p_start :: "'w \<Rightarrow> go_error option \<times> 'w"

subsection \<open>Configuration\<close>

definition default_config :: config where
  "default_config = \<lparr>OCMSecretRef = None, MaxScaleoutAllowed = 3, MachineSetsStrategy = ''reuse''\<rparr>"

text \<open>An empty or missing entry keeps the default. \<open>int32(max)\<close> keeps the low 32 bits.\<close>

definition source_max :: "dict \<Rightarrow> config \<Rightarrow> go_error + config" where
  "source_max data cfg =
     (let maxScaleoutAllowed = dict_index data ''maxScaleoutAllowed'' in
     if maxScaleoutAllowed \<noteq> [] then (case atoi maxScaleoutAllowed of
       Inl err \<Rightarrow> Inl err
     | Inr maximum \<Rightarrow> Inr (cfg\<lparr>MaxScaleoutAllowed := word_of_int maximum\<rparr>))
     else Inr cfg)"

definition source_strategy :: "dict \<Rightarrow> config \<Rightarrow> config" where
  "source_strategy data cfg =
     (let machineSetsStrategy = dict_index data ''machineSetsStrategy'' in
     if machineSetsStrategy \<noteq> [] then cfg\<lparr>MachineSetsStrategy := machineSetsStrategy\<rparr> else cfg)"

definition config_from_map :: "dict \<Rightarrow> go_error + config" where
  "config_from_map data = (case source_max data default_config of
     Inl err \<Rightarrow> Inl err | Inr cfg \<Rightarrow> Inr (source_strategy data cfg))"

subsection \<open>The process\<close>

text \<open>\<open>if err := ...; err != nil { os.Exit(1) }\<close>\<close>

definition must :: "('w gstate, go_error option) prog \<Rightarrow> ('w gstate, exit) prog \<Rightarrow> ('w gstate, exit) prog" where
  "must m k = bnd m (\<lambda>err. case err of Some _ \<Rightarrow> ret (Exit 1) | None \<Rightarrow> k)"

definition new_reconciler :: "config \<Rightarrow> 'w gstate \<Rightarrow> 'w gstate" where
  "new_reconciler cfg s = s\<lparr>Config := cfg, ocmClusterID := [], ocmToken := [], ocmConnection := None,
     MachineType := MachineTypeNone, machineCheck := False, machineNameCharacterLimit := 0\<rparr>"

definition run_manager :: "'w api \<Rightarrow> 'w process_api \<Rightarrow> config \<Rightarrow> ('w gstate, exit) prog" where
  "run_manager api pa cfg =
     must (call NewManager (p_new_manager pa)) (
     bnd (modify (new_reconciler cfg)) (\<lambda>_.
     must (SetupWithManager api (p_setup pa)) (
     must (call (AddCheck ''healthz'') (p_add_check pa ''healthz'')) (
     must (call (AddCheck ''readyz'') (p_add_check pa ''readyz'')) (
     must (call StartManager (p_start pa)) (
     ret Returned))))))"

definition source_secret :: "'w api \<Rightarrow> string \<Rightarrow> config \<Rightarrow> (config \<Rightarrow> ('w gstate, exit) prog) \<Rightarrow> ('w gstate, exit) prog" where
  "source_secret api namespace cfg k =
     bnd (get_secret api (namespace, ''instascale-ocm-secret'')) (\<lambda>(OCMSecret, err). case err of
       Some e \<Rightarrow> if is_not_found (lib api) e then k cfg else ret (Exit 1)
     | None \<Rightarrow> k (cfg\<lparr>OCMSecretRef := Some \<lparr>ref_namespace = sec_namespace OCMSecret, ref_name = sec_name OCMSecret\<rparr>\<rparr>))"

definition main_process :: "'w api \<Rightarrow> 'w process_api \<Rightarrow> flags \<Rightarrow> ('w gstate, exit) prog" where
  "main_process api pa fl =
     must (call NewKubeClient (p_new_kube_client pa)) (
     bnd (call (GetConfigMap (configsNamespace fl, ''instascale-config''))
        (p_get_configmap pa (configsNamespace fl, ''instascale-config''))) (\<lambda>(data, err). case err of
       Some e \<Rightarrow> ret (Exit 1)
     | None \<Rightarrow> (case config_from_map data of
         Inl e \<Rightarrow> ret (Exit 1)
       | Inr cfg \<Rightarrow> source_secret api (ocmSecretNamespace fl) cfg (run_manager api pa))))"

subsection \<open>Runs\<close>

lemma must_Returned:
  assumes "must m k s = (Ok Returned, t)"
  obtains u where "m s = (Ok None, u)" "k u = (Ok Returned, t)"
  using assms by (auto simp: must_def bnd_Ok split: option.splits)

lemma call_None:
  assumes "call ev f s = (Ok None, t)"
  shows "trace t = trace s @ [ev None]" "\<exists>w. t = s\<lparr>world := w, trace := trace s @ [ev None]\<rparr>"
  using assms by (auto simp: call_def split: prod.splits)

lemma fresh_new_reconciler: "fresh cfg (new_reconciler cfg s)"
  by (simp add: fresh_def new_reconciler_def)

text \<open>
  The calls between the secret and the start of the manager: the set-up has registered the controller,
  or it has found a secret without a token.
\<close>

definition registered_calls :: "event list \<Rightarrow> bool" where
  "registered_calls es \<longleftrightarrow> (\<exists>fs. es = NewManager None # fs @
     [RegisterController None, AddCheck ''healthz'' None, AddCheck ''readyz'' None])"

definition no_token_calls :: "config \<Rightarrow> event list \<Rightarrow> bool" where
  "no_token_calls cfg es \<longleftrightarrow> (\<exists>ref sec. OCMSecretRef cfg = Some ref \<and> dict_index (sec_data sec) ''token'' = [] \<and>
     es = [NewManager None, NewKubeClient None, GetSecret (ref_namespace ref, ref_name ref) (sec, None),
       AddCheck ''healthz'' None, AddCheck ''readyz'' None])"

definition started_controller :: "'w api \<Rightarrow> 'w process_api \<Rightarrow> config \<Rightarrow> event list \<Rightarrow> 'w gstate \<Rightarrow> bool" where
  "started_controller api pa cfg es t \<longleftrightarrow>
     (reachable api (p_setup pa) cfg t \<and> registered_calls es) \<or> no_token_calls cfg es"

lemma run_manager_Returned:
  assumes "run_manager api pa cfg s = (Ok Returned, t)"
  shows "\<exists>es. trace t = trace s @ es @ [StartManager None] \<and> started_controller api pa cfg es t"
proof -
  from assms obtain s1 s2 s3 s4 where
    mgr: "call NewManager (p_new_manager pa) s = (Ok None, s1)" and
    set: "SetupWithManager api (p_setup pa) (new_reconciler cfg s1) = (Ok None, s2)" and
    check: "call (AddCheck ''healthz'') (p_add_check pa ''healthz'') s2 = (Ok None, s3)"
      "call (AddCheck ''readyz'') (p_add_check pa ''readyz'') s3 = (Ok None, s4)" and
    start: "call StartManager (p_start pa) s4 = (Ok None, t)"
    unfolding run_manager_def by (auto elim!: must_Returned simp: bnd_Ok)
  obtain w where t: "t = s2\<lparr>world := w, trace := trace s2 @ [AddCheck ''healthz'' None, AddCheck ''readyz'' None, StartManager None]\<rparr>"
    using call_None(2) [OF check(1)] call_None(2) [OF check(2)] call_None(2) [OF start] by auto
  have s1: "trace (new_reconciler cfg s1) = trace s @ [NewManager None]" "Config (new_reconciler cfg s1) = cfg"
    using call_None(1) [OF mgr] by (simp_all add: new_reconciler_def)
  from set show ?thesis
  proof (cases rule: SetupWithManager_outcomes)
    case (registered es)
    with set have "reachable api (p_setup pa) cfg s2"
      by (intro reachable.started [OF fresh_new_reconciler])
    moreover have "step api s2 t"
      using step.elsewhere [where es = "[AddCheck ''healthz'' None, AddCheck ''readyz'' None, StartManager None]"
          and api = api and s = s2 and w = w and e = "entropy s2"]
      by (simp add: t)
    ultimately have "reachable api (p_setup pa) cfg t" by (rule reachable.stepped)
    moreover have "registered_calls (NewManager None # es @ [RegisterController None, AddCheck ''healthz'' None, AddCheck ''readyz'' None])"
      unfolding registered_calls_def by blast
    ultimately show ?thesis
      using registered(2) s1(1) unfolding started_controller_def
      by (intro exI [of _ "NewManager None # es @ [RegisterController None, AddCheck ''healthz'' None, AddCheck ''readyz'' None]"])
        (simp add: t)
  next
    case (no_token ref sec)
    let ?es = "[NewManager None, NewKubeClient None, GetSecret (ref_namespace ref, ref_name ref) (sec, None),
      AddCheck ''healthz'' None, AddCheck ''readyz'' None]"
    have "no_token_calls cfg ?es"
      using no_token(2,4) s1(2) unfolding no_token_calls_def by auto
    with no_token(3) s1(1) show ?thesis
      unfolding started_controller_def by (intro exI [of _ ?es]) (simp add: t)
  qed simp
qed

lemma run_manager_trace:
  assumes "run_manager api pa cfg s = (Ok Returned, t)"
  obtains es where "trace t = trace s @ es @ [StartManager None]"
  using run_manager_Returned [OF assms] by blast

text \<open>The configuration after the optional secret.\<close>

definition with_secret :: "config \<Rightarrow> secret answer \<Rightarrow> config" where
  "with_secret cfg ans = (case ans of (sec, err) \<Rightarrow> case err of
     Some e \<Rightarrow> cfg
   | None \<Rightarrow> cfg\<lparr>OCMSecretRef := Some \<lparr>ref_namespace = sec_namespace sec, ref_name = sec_name sec\<rparr>\<rparr>)"

lemma source_secret_Returned:
  assumes "source_secret api namespace cfg k s = (Ok Returned, t)"
  obtains ans u where "k (with_secret cfg ans) u = (Ok Returned, t)"
    "trace u = trace s @ [GetSecret (namespace, ''instascale-ocm-secret'') ans]"
    "case snd ans of None \<Rightarrow> True | Some e \<Rightarrow> is_not_found (lib api) e"
proof -
  from assms obtain sec err u where
    g: "get_secret api (namespace, ''instascale-ocm-secret'') s = (Ok (sec, err), u)" and
    k: "(case err of
       Some e \<Rightarrow> if is_not_found (lib api) e then k cfg else ret (Exit 1)
     | None \<Rightarrow> k (cfg\<lparr>OCMSecretRef := Some \<lparr>ref_namespace = sec_namespace sec, ref_name = sec_name sec\<rparr>\<rparr>)) u = (Ok Returned, t)"
    by (auto simp: source_secret_def bnd_Ok)
  have u: "trace u = trace s @ [GetSecret (namespace, ''instascale-ocm-secret'') (sec, err)]"
    using g by (auto simp: get_secret_def call_def split: prod.splits)
  show thesis
    by (rule that [of "(sec, err)" u])
      (use k u in \<open>auto simp: with_secret_def split: option.splits if_splits\<close>)
qed

lemma config_from_map_no_secret: "config_from_map data = Inr cfg \<Longrightarrow> OCMSecretRef cfg = None"
  by (auto simp: config_from_map_def source_max_def source_strategy_def default_config_def Let_def
    split: sum.splits if_splits)

lemma main_process_Returned:
  assumes "main_process api pa fl s = (Ok Returned, t)"
  obtains data base ans u where "config_from_map data = Inr base"
    "trace u = trace s @ [NewKubeClient None, GetConfigMap (configsNamespace fl, ''instascale-config'') (data, None),
       GetSecret (ocmSecretNamespace fl, ''instascale-ocm-secret'') ans]"
    "case snd ans of None \<Rightarrow> True | Some e \<Rightarrow> is_not_found (lib api) e"
    "run_manager api pa (with_secret base ans) u = (Ok Returned, t)"
proof -
  let ?k = "(configsNamespace fl, ''instascale-config'')"
  from assms obtain s1 data err s2 where
    kube: "call NewKubeClient (p_new_kube_client pa) s = (Ok None, s1)" and
    cm: "call (GetConfigMap ?k) (p_get_configmap pa ?k) s1 = (Ok (data, err), s2)" and
    rest: "(case err of
       Some e \<Rightarrow> ret (Exit 1)
     | None \<Rightarrow> (case config_from_map data of
         Inl e \<Rightarrow> ret (Exit 1)
       | Inr cfg \<Rightarrow> source_secret api (ocmSecretNamespace fl) cfg (run_manager api pa))) s2 = (Ok Returned, t)"
    unfolding main_process_def by (auto elim!: must_Returned simp: bnd_Ok)
  from rest obtain base where base: "err = None" "config_from_map data = Inr base"
    "source_secret api (ocmSecretNamespace fl) base (run_manager api pa) s2 = (Ok Returned, t)"
    by (auto split: option.splits sum.splits)
  have s2: "trace s2 = trace s @ [NewKubeClient None, GetConfigMap ?k (data, None)]"
    using call_None(1) [OF kube] cm base(1) by (auto simp: call_def split: prod.splits)
  from base(3) show thesis
    by (rule source_secret_Returned) (rule that [OF base(2)], simp_all add: s2)
qed

subsection \<open>Properties\<close>


text \<open>
  C30 (config_limit_roundtrip): a decimal number in the range of \<open>int32\<close> in the config map is the limit
  on nodes that the controller works with; the strategy is the config map's, or "reuse".
\<close>

theorem config_limit_roundtrip:
  assumes "dict_get data ''maxScaleoutAllowed'' = Some (format_int n)" and "- (2 ^ 31) \<le> n" "n < 2 ^ 31"
  shows "\<exists>cfg. config_from_map data = Inr cfg \<and> sint (MaxScaleoutAllowed cfg) = n \<and> OCMSecretRef cfg = None \<and>
    MachineSetsStrategy cfg = (if dict_index data ''machineSetsStrategy'' = [] then ''reuse''
      else dict_index data ''machineSetsStrategy'')"
proof -
  have "atoi (format_int n) = Inr n" using assms(2,3) by (intro atoi_format_int) simp_all
  with assms sint_word_of_int32 [of n] show ?thesis
    by (simp add: config_from_map_def source_max_def source_strategy_def default_config_def dict_index_def
      format_int_nonempty Let_def)
qed

theorem config_limit_roundtrip_witness:
  "\<exists>cfg. config_from_map (Some [(''maxScaleoutAllowed'', ''15'')]) = Inr cfg \<and> sint (MaxScaleoutAllowed cfg) = 15"
proof -
  have "format_int 15 = ''15''" by code_simp
  then have "dict_get (Some [(''maxScaleoutAllowed'', ''15'')]) ''maxScaleoutAllowed'' = Some (format_int 15)"
    by simp
  from config_limit_roundtrip [OF this] show ?thesis by auto
qed

text \<open>
  C37 (config_limit_wraps): a decimal number that does not fit in an \<open>int32\<close> is accepted too, as long as
  it fits in Go's \<open>int\<close>: the limit is then the number that its low 32 bits spell, as a signed number.
\<close>

theorem config_limit_wraps:
  assumes "dict_get data ''maxScaleoutAllowed'' = Some (format_int n)" and "- (2 ^ 63) \<le> n" "n < 2 ^ 63"
  shows "\<exists>cfg. config_from_map data = Inr cfg \<and>
    sint (MaxScaleoutAllowed cfg) = (n + 2 ^ 31) mod 2 ^ 32 - 2 ^ 31"
proof -
  have "sint (word_of_int n :: int32) = signed_take_bit 31 n" by (simp add: sint_sbintrunc')
  also have "\<dots> = (n + 2 ^ 31) mod 2 ^ 32 - 2 ^ 31"
    by (simp add: signed_take_bit_eq_take_bit_shift take_bit_eq_mod)
  finally show ?thesis
    using assms atoi_format_int [OF assms(2,3)]
    by (simp add: config_from_map_def source_max_def source_strategy_def default_config_def dict_index_def
      format_int_nonempty Let_def)
qed

text \<open>Four billion and some is read as a limit of five nodes.\<close>

theorem config_limit_wraps_witness:
  "\<exists>cfg. config_from_map (Some [(''maxScaleoutAllowed'', format_int 4294967301)]) = Inr cfg \<and>
    sint (MaxScaleoutAllowed cfg) = 5"
proof -
  have "dict_get (Some [(''maxScaleoutAllowed'', format_int 4294967301)]) ''maxScaleoutAllowed'' =
      Some (format_int 4294967301)"
    by simp
  from config_limit_wraps [OF this] show ?thesis by simp
qed

definition ref_process :: "dict \<Rightarrow> cluster process_api" where
  "ref_process data = \<lparr>p_new_kube_client = (\<lambda>w. (None, w)), p_get_configmap = (\<lambda>k w. ((data, None), w)),
     p_new_manager = (\<lambda>w. (None, w)), p_setup = ref_mgr, p_add_check = (\<lambda>name w. (None, w)),
     p_start = (\<lambda>w. (None, w))\<rparr>"

definition ref_flags :: flags where
  "ref_flags = \<lparr>configsNamespace = ''sys'', ocmSecretNamespace = ''sys''\<rparr>"

definition before_start :: "cluster gstate" where
  "before_start = ref_state default_config empty_cluster"


end
