(* ===== verification/Limits.thy ===== *)
theory Limits
  imports Controller
begin

text \<open>
  Which programs look at the limit on nodes. The locale \<open>invisible\<close> asks for a change \<open>g\<close> of the state
  that a program cannot see in its calls: it keeps the world, the trace and the random source. A program
  \<open>commutes\<close> with \<open>g\<close> if it does the same from a changed state as from the original one. Each program
  combinator and each external call has its rule; the interpretation is the change of
  \<open>maxScaleNodesAllowed\<close>.
\<close>

definition commutes :: "('s \<Rightarrow> 's) \<Rightarrow> ('s, 'a) prog \<Rightarrow> bool" where
  "commutes g m \<longleftrightarrow> (\<forall>s. m (g s) = apsnd g (m s))"

lemma commutesD: "commutes g m \<Longrightarrow> m (g s) = (fst (m s), g (snd (m s)))"
  by (simp add: commutes_def apsnd_def map_prod_def split_beta)

subsection \<open>Programs\<close>

lemma commutes_ret: "commutes g (ret x)"
  by (simp add: commutes_def ret_def)

lemma commutes_panic: "commutes g (panic msg)"
  by (simp add: commutes_def panic_def)

lemma commutes_gets: "(\<And>s. f (g s) = f s) \<Longrightarrow> commutes g (gets f)"
  by (simp add: commutes_def gets_def)

lemma commutes_modify: "(\<And>s. f (g s) = g (f s)) \<Longrightarrow> commutes g (modify f)"
  by (simp add: commutes_def modify_def)

lemma commutes_deref: "commutes g (deref p)"
  by (cases p) (simp_all add: deref_def commutes_ret commutes_panic)

lemma commutes_index: "commutes g (index_at xs i)"
  by (simp add: index_at_def commutes_ret commutes_panic)

lemma commutes_set_entry: "commutes g (set_entry d k v)"
  by (cases "dict_set d k v") (simp_all add: set_entry_def commutes_ret commutes_panic)

lemma commutes_bnd: "commutes g m \<Longrightarrow> (\<And>x. commutes g (k x)) \<Longrightarrow> commutes g (bnd m k)"
  by (auto simp: commutes_def bnd_def split: prod.splits outcome.splits)

lemma commutes_deferred: "commutes g d \<Longrightarrow> commutes g m \<Longrightarrow> commutes g (deferred d m)"
  by (auto simp: commutes_def deferred_def split: prod.splits outcome.splits)

lemma commutes_if: "(b \<Longrightarrow> commutes g m) \<Longrightarrow> (\<not> b \<Longrightarrow> commutes g n) \<Longrightarrow> commutes g (if b then m else n)"
  by simp

lemma commutes_option:
  "(p = None \<Longrightarrow> commutes g m) \<Longrightarrow> (\<And>x. p = Some x \<Longrightarrow> commutes g (k x)) \<Longrightarrow>
    commutes g (case p of None \<Rightarrow> m | Some x \<Rightarrow> k x)"
  by (simp split: option.split)

lemma commutes_sum:
  "(\<And>x. p = Inl x \<Longrightarrow> commutes g (h x)) \<Longrightarrow> (\<And>x. p = Inr x \<Longrightarrow> commutes g (k x)) \<Longrightarrow>
    commutes g (case p of Inl x \<Rightarrow> h x | Inr x \<Rightarrow> k x)"
  by (simp split: sum.split)

lemma commutes_pair: "(\<And>x y. p = (x, y) \<Longrightarrow> commutes g (k x y)) \<Longrightarrow> commutes g (case p of (x, y) \<Rightarrow> k x y)"
  by (simp split: prod.split)

lemma commutes_type:
  "commutes g a \<Longrightarrow> commutes g b \<Longrightarrow> commutes g c \<Longrightarrow> commutes g d \<Longrightarrow>
    commutes g (case mt of MachineTypeNone \<Rightarrow> a | MachineTypeMachineSet \<Rightarrow> b | MachineTypeMachinePool \<Rightarrow> c
      | MachineTypeNodePool \<Rightarrow> d)"
  by (cases mt) simp_all

lemma commutes_for_each: "(\<And>x l. commutes g (body x l)) \<Longrightarrow> commutes g (for_each xs body l)"
proof (induction xs arbitrary: l)
  case (Cons x xs)
  then have "commutes g (case c of Next l' \<Rightarrow> for_each xs body l' | Break l' \<Rightarrow> ret (Inl l') | Return r \<Rightarrow> ret (Inr r))" for c
    by (cases c) (simp_all add: commutes_ret)
  with Cons.prems show ?case unfolding for_each.simps by (intro commutes_bnd)
qed (simp add: commutes_ret)

lemma commutes_do_each: "(\<And>x. commutes g (body x)) \<Longrightarrow> commutes g (do_each xs body)"
  by (induction xs) (auto intro: commutes_ret commutes_bnd)

lemma commutes_after_loop: "commutes g m \<Longrightarrow> (\<And>l. commutes g (k l)) \<Longrightarrow> commutes g (after_loop m k)"
  unfolding after_loop_def by (intro commutes_bnd commutes_sum commutes_ret)

lemma commutes_names_where: "commutes g (names_where P ms ns)"
  by (induction ms arbitrary: ns) (simp_all add: commutes_ret commutes_bnd commutes_deref)

lemma commutes_existing_owned: "commutes g (existing_owned ms ns)"
  by (induction ms arbitrary: ns) (simp_all add: commutes_ret commutes_bnd commutes_deref)

lemmas commutes_rules = commutes_ret commutes_panic commutes_deref commutes_index commutes_set_entry
  commutes_bnd commutes_deferred commutes_if commutes_option commutes_sum commutes_pair commutes_type
  commutes_for_each commutes_do_each commutes_after_loop commutes_names_where commutes_existing_owned

subsection \<open>External calls\<close>

locale invisible =
  fixes g :: "'w gstate \<Rightarrow> 'w gstate"
  assumes same_world: "world (g s) = world s"
    and same_trace: "trace (g s) = trace s"
    and same_entropy: "entropy (g s) = entropy s"
    and apart: "g (s\<lparr>world := w, trace := tr, entropy := e\<rparr>) = (g s)\<lparr>world := w, trace := tr, entropy := e\<rparr>"
begin

lemma apart_simps:
  "g (s\<lparr>world := w\<rparr>) = (g s)\<lparr>world := w\<rparr>"
  "g (s\<lparr>world := w, trace := tr\<rparr>) = (g s)\<lparr>world := w, trace := tr\<rparr>"
  "g (s\<lparr>entropy := e\<rparr>) = (g s)\<lparr>entropy := e\<rparr>"
proof -
  have "g (s\<lparr>world := w, trace := trace s, entropy := entropy s\<rparr>) =
      (g s)\<lparr>world := w, trace := trace (g s), entropy := entropy (g s)\<rparr>"
    unfolding apart same_trace same_entropy ..
  then show "g (s\<lparr>world := w\<rparr>) = (g s)\<lparr>world := w\<rparr>" by simp
  have "g (s\<lparr>world := w, trace := tr, entropy := entropy s\<rparr>) =
      (g s)\<lparr>world := w, trace := tr, entropy := entropy (g s)\<rparr>"
    unfolding apart same_entropy ..
  then show "g (s\<lparr>world := w, trace := tr\<rparr>) = (g s)\<lparr>world := w, trace := tr\<rparr>" by simp
  have "g (s\<lparr>world := world s, trace := trace s, entropy := e\<rparr>) =
      (g s)\<lparr>world := world (g s), trace := trace (g s), entropy := e\<rparr>"
    unfolding apart same_world same_trace ..
  then show "g (s\<lparr>entropy := e\<rparr>) = (g s)\<lparr>entropy := e\<rparr>" by simp
qed

lemma call_commutes: "commutes g (call ev f)"
  by (simp add: commutes_def call_def same_world same_trace apart_simps split: prod.split)

lemma ocall_commutes: "commutes g (ocall ev f)"
  by (simp add: commutes_def ocall_def same_world same_trace apart_simps split: prod.split outcome.split)

lemma random_commutes: "commutes g (rand_intn n)" "commutes g (range_order xs)"
  by (simp_all add: commutes_def rand_intn_def range_order_def bnd_def draw_def draws_def ret_def
      same_entropy apart_simps)

lemma build_logger_commutes: "commutes g (build_logger api)"
  by (simp add: commutes_def build_logger_def same_world apart_simps split: prod.split)

lemma calls_commute:
  "commutes g (get_appwrapper api k)" "commutes g (update_appwrapper api aw)"
  "commutes g (list_appwrappers api sel awl)"
  "commutes g (list_machinesets api sel msl)" "commutes g (get_machineset api k)"
  "commutes g (create_machineset api ms)" "commutes g (update_machineset api ms)"
  "commutes g (patch_machineset api ms p)" "commutes g (delete_machineset api ms)"
  "commutes g (list_machines api sel mcl)" "commutes g (get_machine api k)"
  "commutes g (update_machine api mc)" "commutes g (patch_machine api mc p)"
  "commutes g (list_nodes api sel)" "commutes g (patch_node api n p)"
  "commutes g (get_clusterversion api k)" "commutes g (get_secret api k)"
  "commutes g (connect api tok)"
  unfolding call_defs by (rule call_commutes)+

lemma ocm_calls_commute:
  "commutes g (close_connection api c)" "commutes g (search_clusters api c q)"
  "commutes g (get_cluster api c cl)"
  "commutes g (list_machinepools api c cl)" "commutes g (add_machinepool api c cl mp)"
  "commutes g (delete_machinepool api c cl i)"
  "commutes g (list_nodepools api c cl)" "commutes g (add_nodepool api c cl np)"
  "commutes g (delete_nodepool api c cl i)"
  unfolding call_defs by (rule ocall_commutes)+

lemmas all_commute = calls_commute ocm_calls_commute random_commutes build_logger_commutes commutes_rules

end

subsection \<open>The limit\<close>

definition set_limit :: "int \<Rightarrow> 'w gstate \<Rightarrow> 'w gstate" where
  "set_limit n s = s\<lparr>maxScaleNodesAllowed := n\<rparr>"

interpretation limit: invisible "set_limit n" for n
  by unfold_locales (simp_all add: set_limit_def)

lemma reads_ignore_limit [simp]:
  "ocmClusterID (set_limit n s) = ocmClusterID s" "ocmToken (set_limit n s) = ocmToken s"
  "MachineType (set_limit n s) = MachineType s" "Config (set_limit n s) = Config s"
  "machineNameCharacterLimit (set_limit n s) = machineNameCharacterLimit s"
  "ocmConnection (set_limit n s) = ocmConnection s"
  by (simp_all add: set_limit_def)

lemma connections_ignore_limit: "commutes (set_limit n) (createOCMConnection api)"
  unfolding createOCMConnection_def
  by (intro limit.all_commute commutes_gets commutes_modify) (simp_all add: set_limit_def)

lemma names_ignore_limit: "commutes (set_limit n) (generateMachineName x)"
  unfolding generateMachineName_def slice_to_def Let_def
  by (intro limit.all_commute commutes_gets) simp_all

lemma pools_ignore_limit:
  "commutes (set_limit n) (scaleMachinePool api aw demand)" "commutes (set_limit n) (deleteMachinePool api aw)"
  "commutes (set_limit n) (scaleNodePool api aw demand)" "commutes (set_limit n) (deleteNodePool api aw)"
  unfolding scaleMachinePool_def scaleMachinePool_type_def deleteMachinePool_def
    scaleNodePool_def scaleNodePool_type_def deleteNodePool_def Let_def
  by (intro limit.all_commute connections_ignore_limit names_ignore_limit commutes_gets; simp)+

lemma duplicate_ignores_limit:
  "commutes (set_limit n) (reconcileCreateMachineSet api aw demand)" "commutes (set_limit n) (deleteMachineSet api aw)"
  unfolding reconcileCreateMachineSet_def createMachineSet_def labelNodeOf_def deleteMachineSet_def deleteOne_def Let_def
  by (intro limit.all_commute)+

lemma release_ignores_limit:
  "commutes (set_limit n) (annotateToDeleteMachine api aw)" "commutes (set_limit n) (swapNodeLabels api aw aw')"
  "commutes (set_limit n) (findExactMatch api aw)"
  unfolding annotateToDeleteMachine_def annotateNode_def annotateMachine_def releaseMachineSet_def removeMachineSetLabel_def
    swapNodeLabels_def swapMachine_def patchMachineLabels_def patchNodeLabels_def findExactMatch_def Let_def
  by (intro limit.all_commute)+

lemma finalize_ignores_limit: "commutes (set_limit n) (finalizeScalingDownMachines api aw)"
  unfolding finalizeScalingDownMachines_def Let_def
  by (intro limit.all_commute pools_ignore_limit duplicate_ignores_limit release_ignores_limit
      commutes_gets commutes_modify) (simp_all add: set_limit_def)

subsection \<open>Properties\<close>

text \<open>
  C33 (limit_only_for_reuse): with an OCM secret, or with a strategy other than "reuse", a reconciliation
  of an AppWrapper does not depend on \<open>maxScaleNodesAllowed\<close> at all: for any two limits it makes the
  same calls in the same order, returns the same result and leaves the same state but for the limit.
\<close>

theorem limit_only_for_reuse:
  assumes "OCMSecretRef (Config s) \<noteq> None \<or> to_lower (MachineSetsStrategy (Config s)) \<noteq> ''reuse''"
  shows "reconcileAppWrapper api aw (s\<lparr>maxScaleNodesAllowed := n\<rparr>) =
    (fst (reconcileAppWrapper api aw s), (snd (reconcileAppWrapper api aw s))\<lparr>maxScaleNodesAllowed := n\<rparr>)"
proof -
  have by_type: "commutes (set_limit n) (bnd (gets MachineType) (\<lambda>mt. case mt of
      MachineTypeNodePool \<Rightarrow> scaleNodePool api aw d
    | MachineTypeMachinePool \<Rightarrow> scaleMachinePool api aw d
    | _ \<Rightarrow> ret (no_requeue, None)))" for d
    by (intro limit.all_commute pools_ignore_limit commutes_gets) simp
  have out: "scaleOut api aw (set_limit n s) = (fst (scaleOut api aw s), set_limit n (snd (scaleOut api aw s)))"
    using assms commutesD [OF by_type] commutesD [OF duplicate_ignores_limit(1)]
    by (auto simp: scaleOut_def Let_def bnd_run gets_run ret_run)
  have "reconcileAppWrapper api aw (set_limit n s) =
      (fst (reconcileAppWrapper api aw s), set_limit n (snd (reconcileAppWrapper api aw s)))"
  proof (cases "contains_finalizer (lib api) aw finalizerName \<and> \<not> over api aw")
    case True
    with out show ?thesis by (simp add: reconcileAppWrapper_def over_def)
  next
    case False
    let ?add = "bnd (update_appwrapper api (add_finalizer (lib api) aw finalizerName)) (\<lambda>(_, err). case err of
          Some e \<Rightarrow> ret (\<lparr>Requeue = False, RequeueAfter = timeFiveSeconds\<rparr>, None)
        | None \<Rightarrow> ret (no_requeue, None))"
    let ?fin = "bnd (finalizeScalingDownMachines api aw) (\<lambda>err. case err of
          Some e \<Rightarrow> ret (no_requeue, Some e)
        | None \<Rightarrow>
            bnd (update_appwrapper api (remove_finalizer (lib api) aw finalizerName)) (\<lambda>(_, err). case err of
              Some e \<Rightarrow> ret (no_requeue, Some e)
            | None \<Rightarrow> ret (no_requeue, None)))"
    have "commutes (set_limit n) ?add" "commutes (set_limit n) ?fin"
      by (intro limit.all_commute finalize_ignores_limit)+
    moreover have "reconcileAppWrapper api aw = ?add \<or> reconcileAppWrapper api aw = ?fin"
      using False by (auto simp: reconcileAppWrapper_def over_def)
    ultimately have "commutes (set_limit n) (reconcileAppWrapper api aw)" by auto
    then show ?thesis by (rule commutesD)
  qed
  then show ?thesis by (simp add: set_limit_def)
qed

lemma create_sent:
  "list_ex (\<lambda>e. case e of CreateMachineSet x _ \<Rightarrow> P x | _ \<Rightarrow> False) es \<Longrightarrow>
    \<exists>x r. CreateMachineSet x r \<in> set es \<and> P x"
  by (induction es) (auto split: event.splits)

text \<open>With a limit of zero, a copy with five replicas is created for a demand of five.\<close>

theorem limit_only_for_reuse_witness:
  "\<exists>ms r. CreateMachineSet ms r \<in> set (trace (snd (reconcileAppWrapper ref_api (job\<lparr>aw_genericItems := [[5]]\<rparr>)
      (duplicate_start\<lparr>maxScaleNodesAllowed := 0\<rparr>)))) \<and> ms_replicas ms = Some 5"
proof -
  let ?aw = "job\<lparr>aw_genericItems := [[5]]\<rparr>"
  have "to_lower (MachineSetsStrategy (Config duplicate_start)) \<noteq> ''reuse''" by code_simp
  then have "OCMSecretRef (Config duplicate_start) \<noteq> None \<or>
      to_lower (MachineSetsStrategy (Config duplicate_start)) \<noteq> ''reuse''" by (rule disjI2)
  from limit_only_for_reuse [where api = ref_api and aw = ?aw and n = 0, OF this]
  have same: "trace (snd (reconcileAppWrapper ref_api ?aw (duplicate_start\<lparr>maxScaleNodesAllowed := 0\<rparr>))) =
      trace (snd (reconcileAppWrapper ref_api ?aw duplicate_start))"
    by simp
  have "list_ex (\<lambda>e. case e of CreateMachineSet x _ \<Rightarrow> ms_replicas x = Some 5 | _ \<Rightarrow> False)
      (trace (snd (reconcileAppWrapper ref_api ?aw duplicate_start)))" by code_simp
  from create_sent [OF this] show ?thesis unfolding same by blast
qed

end
