(* ===== verification/Spec2Isabelle.thy ===== *)
theory Spec2Isabelle
  imports Startup Limits
begin

text \<open>
  InstaScale (\<open>src/\<close>) is a Kubernetes controller that gives the AppWrappers of a batch queue the
  machines they wait for, and takes the machines back when the AppWrappers end. This development models
  all of its Go code apart from logging and the parsing of flags, and proves what it does to the
  cluster.

  \<^bold>\<open>The program.\<close> \<open>main.go\<close> reads a config map and an optional secret and starts a manager with one
  reconciler (\<open>controllers/appwrapper_controller.go\<close>). The manager calls \<open>Reconcile\<close> for one
  AppWrapper at a time: it stores a finalizer, scales out an AppWrapper that is pending for lack of
  resources, and releases the machines of one that is deleted or completed, before it removes the
  finalizer. The machines come from one of four places: the machine sets of the cluster, resized
  ("reuse") or copied ("duplicate"), both in \<open>controllers/machineset.go\<close>; or, with an OCM secret,
  machine pools (\<open>machinepools.go\<close>) or node pools (\<open>nodepools.go\<close>) of the OCM service, over
  connections that \<open>ocm_manager.go\<close> opens. \<open>utils.go\<close> holds the helpers, \<open>pkg/config/config.go\<close> the
  configuration record.

  \<^bold>\<open>The model.\<close> Go functions are programs over an explicit state (GoMonad): they return a value or
  panic, and leave a state either way; errors are ordinary results. The state \<open>gstate\<close> (Api) has the
  fields of \<open>AppWrapperReconciler\<close>, the two package variables, the outside world, a source of random
  numbers, and the trace of the external calls with their answers, which no operation reads. The
  Kubernetes clients, the OCM SDK, the JSON decoder, the helpers of controller-runtime and the
  constants of the AppWrapper API are parameters (records \<open>kube\<close>, \<open>ocm\<close>, \<open>lib\<close>, \<open>setup_api\<close> and
  \<open>process_api\<close>), functions of an arbitrary world: a theorem holds whatever they answer, unless it names a
  law. Loops are recursions over lists (\<open>for_each\<close>, with \<open>continue\<close>, \<open>break\<close> and \<open>return\<close>); the one
  loop of the source that is not over a list ends after one iteration. So every program is total and no
  fuel is used. \<open>range\<close> over a map visits the keys in an order drawn from the random source.

  \<^bold>\<open>The theories\<close>, in the order of their imports:
  \<^item> Prelude, GoMonad, GoLib: fact collections, Go's maps and \<open>int32\<close>, the program monad with its
    loops, the locale \<open>program_order\<close> and weakest preconditions, and what is used of Go's library.
  \<^item> Objects, Api, Calls: the data, the state and the parameters, and the external calls.
  \<^item> RefCluster, Scenarios: an in-memory environment that instantiates all parameters, and concrete
    inputs; the witnesses run the code on them.
  \<^item> Utils, Demand: \<open>utils.go\<close> and \<open>discoverInstanceTypes\<close>: what an AppWrapper asks for, and the
    bound on generated names.
  \<^item> OcmManager, PoolService, MachinePools, NodePools: connections, and the two pool services. The locale
    \<open>pool_service\<close> is the contract of a pool service and the shape of its client; both pool types
    interpret it, and their properties say exactly which calls a scale-out and a removal make.
  \<^item> Budget: how often a program makes a kind of call. Evidence: the locale \<open>evidence\<close>, by which every
    update of a machine set is traced back to what the program has read before it.
  \<^item> MachineLabels, MachineSetReuse, MachineSetDuplicate: \<open>machineset.go\<close>. The properties: the limit on
    nodes is respected by "reuse" while the machines of the demand fit in 32 bits; every update is a
    changed copy of a listed machine set, with the replicas that the running machines and the demand
    give; the release subtracts the number in the label; a copy is right field by field, and only
    labelled copies are deleted. Three properties show where the code does not do what it means to:
    the comparison of numbers as strings, the release that is not idempotent, and the label of a
    hand-over.
  \<^item> Controller: \<open>appwrapper_controller.go\<close>. The properties: the finalizer comes before any machine and
    goes after the last one, a live AppWrapper changes at most one machine set in a reconciliation, a
    quiet one is left alone, a completed one toggles its finalizer, and what the search for a
    successor finds.
  \<^item> Limits: the locale \<open>invisible\<close>, for changes of the state that a program cannot see: only the reuse
    strategy looks at the limit on nodes.
  \<^item> Lifecycle: the step relation \<open>step\<close> and the reachable states of a controller, the invariant \<open>set_up\<close>,
    the separation of the APIs, the order of machine types, and the OCM connections: \<open>track\<close> follows
    the open connection over a list of calls, and every program on a connection closes the one it opened.
  \<^item> Startup: \<open>main.go\<close>: the configuration and the calls of the process. \<open>mgr.Start\<close> blocks while the manager
    calls the reconciler; the model makes it one call, and the reconciliations are the steps that follow.
  This theory adds the property that spans all of them.

  \<^bold>\<open>Bounds.\<close> Replicas of machine sets and the limit are \<open>int32\<close> words, so additions wrap and conversions
  truncate as in Go. Go's 64-bit \<open>int\<close> is a mathematical integer: values of that type are compared, converted
  and used as list indexes only. A theorem that needs a range says so.

  \<^bold>\<open>What the model leaves out\<close>: log messages; flags, which go to the manager unchanged; the scheme
  registration in \<open>init\<close>; \<open>resyncPeriod\<close>, a floating-point computation that nothing calls; the manager's
  queue, whose effect is that \<open>Reconcile\<close> may be called for any key at any time; errors of
  \<open>json.Marshal\<close> on patches that always encode. Code that panics leaves the model with a panic, and
  the theorems say for which results they speak.
\<close>

subsection \<open>From the process to the reconciliations\<close>

lemma reachable_steps:
  assumes "reachable api mgr cfg s" "rtranclp (step api) s t"
  shows "reachable api mgr cfg t"
  using assms(2,1) by (induction rule: rtranclp_induct) (auto intro: reachable.stepped)

lemma main_process_no_secret:
  assumes "main_process api pa fl s = (Ok Returned, t)"
    and "\<forall>k sec. GetSecret k (sec, None) \<notin> set (trace t)"
  shows "\<exists>cfg. OCMSecretRef cfg = None \<and> reachable api (p_setup pa) cfg t"
  using assms(1)
proof (rule main_process_Returned)
  fix data base ans u
  assume base: "config_from_map data = Inr base" and
    u: "trace u = trace s @ [NewKubeClient None, GetConfigMap (configsNamespace fl, ''instascale-config'') (data, None),
      GetSecret (ocmSecretNamespace fl, ''instascale-ocm-secret'') ans]" and
    run: "run_manager api pa (with_secret base ans) u = (Ok Returned, t)"
  have "GetSecret (ocmSecretNamespace fl, ''instascale-ocm-secret'') ans \<in> set (trace t)"
    using run_manager_Returned [OF run] u by auto
  with assms(2) obtain e where "snd ans = Some e" by (cases ans; cases "snd ans") auto
  then have "with_secret base ans = base" by (cases ans) (simp add: with_secret_def)
  with run_manager_Returned [OF run] config_from_map_no_secret [OF base] show ?thesis
    by (auto simp: started_controller_def no_token_calls_def)
qed

text \<open>
  C8 (process_without_secret_never_calls_ocm): where the process has found no OCM secret, no
  reconciliation makes a call to OCM, in any state that the running process can reach.
\<close>

theorem process_without_secret_never_calls_ocm:
  assumes "main_process api pa fl s = (Ok Returned, t)"
    and "\<forall>k sec. GetSecret k (sec, None) \<notin> set (trace t)"
    and "rtranclp (step api) t u"
  shows "\<exists>es. trace (snd (Reconcile api req u)) = trace u @ es \<and> list_all (\<lambda>e. kind e \<noteq> OcmApi) es"
proof -
  obtain cfg where cfg: "OCMSecretRef cfg = None" "reachable api (p_setup pa) cfg t"
    using main_process_no_secret [OF assms(1,2)] by blast
  then have "set_up cfg u" using reachable_set_up reachable_steps [OF _ assms(3)] by blast
  with in_mode_Reconcile [of cfg api req] cfg(1) show ?thesis
    by (simp add: stays_in_def in_mode_def extends_def allowed_def)
qed

theorem process_without_secret_never_calls_ocm_witness:
  "\<exists>es. trace (snd (Reconcile ref_api (''ns'', ''job'') (snd (main_process ref_api (ref_process (Some [])) ref_flags before_start)))) =
      trace (snd (main_process ref_api (ref_process (Some [])) ref_flags before_start)) @ es \<and>
    list_all (\<lambda>e. kind e \<noteq> OcmApi) es"
proof -
  let ?run = "main_process ref_api (ref_process (Some [])) ref_flags before_start"
  have "fst ?run = Ok Returned" by code_simp
  moreover have "list_all (\<lambda>e. case e of GetSecret k ans \<Rightarrow> snd ans \<noteq> None | _ \<Rightarrow> True) (trace (snd ?run))"
    by code_simp
  then have "\<forall>k sec. GetSecret k (sec, None) \<notin> set (trace (snd ?run))"
    by (auto simp: list_all_iff)
  ultimately show ?thesis
    using process_without_secret_never_calls_ocm [OF run_eq _ rtranclp.rtrancl_refl] by blast
qed

end
